(* ===== verification/Prelude.thy ===== *)
theory Prelude
  imports Main "HOL-Library.Word"
begin

text \<open>
  What every component of the development shares: the machine types of the HotSpot sources
  (\<open>u1\<close>, \<open>u2\<close>, \<open>u4\<close> of \<^verbatim>\<open>globalDefinitions.hpp\<close>), big-endian reads (\<^verbatim>\<open>Bytes::get_Java_u2\<close>,
  \<^verbatim>\<open>get_Java_u4\<close>), the outcome type of fallible code, array accesses that fail outside of
  the array, the state-and-error monad in which the verifier is written, and the Hoare rules
  for it.

  Outcomes. The verifier reports \<^verbatim>\<open>VerifyError\<close> and \<^verbatim>\<open>ClassFormatError\<close> through its result
  field, the VM throws other exceptions (pending exceptions), and the C++ code itself can
  leave what the language defines: read or write outside of an array, dereference a null
  pointer, or run into \<^verbatim>\<open>ShouldNotReachHere()\<close>. The last three are \<open>Fault\<close>. There are four places where the
  source lacks a guard and a class file can make it leave the language; such an access is
  \<open>Unguarded\<close>, with the name of the place. A theorem \<open>no_fault\<close> says that the outcome is neither a \<open>Fault\<close> nor an
  \<open>Unguarded\<close> at a place other than these four; it does not say that the four places are not reached.
  Two reads of the bytecode stream leave their arrays and go on with what they find there; they are not
  outcomes but have their values as parameters of the model (\<open>m_after\<close> and \<open>m_beyond\<close> in \<open>BytecodeStream\<close>).
\<close>

unbundle bit_operations_syntax

section \<open>Collections of rules\<close>

named_theorems res_simps \<open>evaluation of results and of monadic programs\<close>
named_theorems vm_intros \<open>Hoare rules of the verifier's monad\<close>
named_theorems frame_simps \<open>effects of the operations on type frames\<close>

section \<open>Machine types\<close>

type_synonym u1 = "8 word"
type_synonym u2 = "16 word"
type_synonym u4 = "32 word"

section \<open>Outcomes\<close>

datatype verr =
    VerifyError string
  | ClassFormatError string
  | Pending string
  | Fault string
  | Unguarded string

type_synonym 'a res = "verr + 'a"

text \<open>The places without a guard: the position of the bytecode stream, \<^verbatim>\<open>StackMapReader::chop\<close>, and two in \<^verbatim>\<open>verify_invoke_init\<close>.\<close>

definition unguarded_places :: "string list" where
  "unguarded_places = [''stream position'', ''StackMapReader::chop'',
     ''verify_invoke_init: super of the last class'', ''verify_invoke_init: holder of a null method'']"

fun is_fault :: "verr \<Rightarrow> bool" where
  "is_fault (Fault m) = True"
| "is_fault (Unguarded m) = (m \<notin> set unguarded_places)"
| "is_fault e = False"

lemma unguarded_no_fault [simp]:
  "\<not> is_fault (Unguarded ''stream position'')" "\<not> is_fault (Unguarded ''StackMapReader::chop'')"
  "\<not> is_fault (Unguarded ''verify_invoke_init: super of the last class'')"
  "\<not> is_fault (Unguarded ''verify_invoke_init: holder of a null method'')"
  by (simp_all add: unguarded_places_def)

declare is_fault.simps(2) [simp del]

fun is_ok :: "'a res \<Rightarrow> bool" where
  "is_ok (Inl e) = False"
| "is_ok (Inr x) = True"

fun no_fault :: "'a res \<Rightarrow> bool" where
  "no_fault (Inl e) = (\<not> is_fault e)"
| "no_fault (Inr x) = True"

fun rbind :: "'a res \<Rightarrow> ('a \<Rightarrow> 'b res) \<Rightarrow> 'b res" where
  "rbind (Inl e) f = Inl e"
| "rbind (Inr x) f = f x"

lemma rbind_eq_Inr [simp]: "rbind r f = Inr y \<longleftrightarrow> (\<exists>x. r = Inr x \<and> f x = Inr y)"
  by (cases r) auto

lemma rbind_eq_Inl: "rbind r f = Inl e \<longleftrightarrow> r = Inl e \<or> (\<exists>x. r = Inr x \<and> f x = Inl e)"
  by (cases r) auto

lemma no_fault_rbind [intro]:
  "no_fault r \<Longrightarrow> (\<And>x. r = Inr x \<Longrightarrow> no_fault (f x)) \<Longrightarrow> no_fault (rbind r f)"
  by (cases r) auto

text \<open>For evaluation: the continuation is looked at when its argument is known.\<close>

lemma rbind_weak_cong: "m = m' \<Longrightarrow> rbind m f = rbind m' f"
  by simp

lemma rbind_cong: "r = r' \<Longrightarrow> (\<And>x. r' = Inr x \<Longrightarrow> f x = g x) \<Longrightarrow> rbind r f = rbind r' g"
  by (cases r') auto

lemma no_fault_iff:
  "no_fault r \<longleftrightarrow> (\<forall>m. r \<noteq> Inl (Fault m)) \<and> (\<forall>m. r = Inl (Unguarded m) \<longrightarrow> m \<in> set unguarded_places)"
proof (cases r)
  case (Inl e)
  then show ?thesis by (cases e) (auto simp: is_fault.simps(2))
qed simp

lemma is_ok_iff: "is_ok r \<longleftrightarrow> (\<exists>x. r = Inr x)"
  by (cases r) auto

lemma is_ok_no_fault: "is_ok r \<Longrightarrow> no_fault r"
  by (cases r) auto

section \<open>Arrays\<close>

text \<open>
  A C++ array of \<open>n\<close> elements is a list of length \<open>n\<close>. Reading or writing at an index that
  is not below the length is a \<open>Fault\<close>.
\<close>

definition arr_get :: "'a list \<Rightarrow> nat \<Rightarrow> 'a res" where
  "arr_get xs i = (if i < length xs then Inr (xs ! i) else Inl (Fault ''array read''))"

definition arr_set :: "'a list \<Rightarrow> nat \<Rightarrow> 'a \<Rightarrow> 'a list res" where
  "arr_set xs i x = (if i < length xs then Inr (xs[i := x]) else Inl (Fault ''array write''))"

text \<open>The same with a signed index, where a negative one is outside as well.\<close>

definition arr_get_i :: "'a list \<Rightarrow> int \<Rightarrow> 'a res" where
  "arr_get_i xs i = (if 0 \<le> i then arr_get xs (nat i) else Inl (Fault ''array read''))"

lemma arr_get_in [simp]: "i < length xs \<Longrightarrow> arr_get xs i = Inr (xs ! i)"
  by (simp add: arr_get_def)

lemma arr_get_i_in [simp]: "0 \<le> i \<Longrightarrow> nat i < length xs \<Longrightarrow> arr_get_i xs i = Inr (xs ! nat i)"
  by (simp add: arr_get_i_def)

lemma arr_set_in [simp]: "i < length xs \<Longrightarrow> arr_set xs i x = Inr (xs[i := x])"
  by (simp add: arr_set_def)

lemma arr_get_Inr: "arr_get xs i = Inr x \<longleftrightarrow> i < length xs \<and> x = xs ! i"
  by (auto simp: arr_get_def)

lemma arr_set_Inr: "arr_set xs i x = Inr ys \<longleftrightarrow> i < length xs \<and> ys = xs[i := x]"
  by (auto simp: arr_set_def)

section \<open>Big-endian reads\<close>

definition u2_of :: "u1 \<Rightarrow> u1 \<Rightarrow> nat" where
  "u2_of b1 b2 = unat b1 * 256 + unat b2"

definition u4_of :: "u1 \<Rightarrow> u1 \<Rightarrow> u1 \<Rightarrow> u1 \<Rightarrow> nat" where
  "u4_of b1 b2 b3 b4 = u2_of b1 b2 * 65536 + u2_of b3 b4"

text \<open>A 16-bit or 32-bit pattern read as a two's complement number: \<open>(short)\<close> and \<open>(jint)\<close>.\<close>

definition s2_of :: "nat \<Rightarrow> int" where
  "s2_of n = (if n < 32768 then int n else int n - 65536)"

definition s4_of :: "nat \<Rightarrow> int" where
  "s4_of n = (if n < 2147483648 then int n else int n - 4294967296)"

lemma u1_bound [simp]: "unat (b :: u1) < 256"
  using unsigned_less [of b] by simp

lemma u2_of_bound [simp]: "u2_of b1 b2 < 65536"
  using u1_bound [of b1] u1_bound [of b2] unfolding u2_of_def by linarith

lemma u4_of_bound: "u4_of b1 b2 b3 b4 < 4294967296"
  using u2_of_bound [of b1 b2] u2_of_bound [of b3 b4] unfolding u4_of_def by linarith

lemma s2_of_range: "n < 65536 \<Longrightarrow> - 32768 \<le> s2_of n \<and> s2_of n < 32768"
  by (auto simp: s2_of_def)

lemma s4_of_range: "n < 4294967296 \<Longrightarrow> - 2147483648 \<le> s4_of n \<and> s4_of n < 2147483648"
  by (auto simp: s4_of_def)

section \<open>The state-and-error monad\<close>

type_synonym ('s, 'a) vm = "'s \<Rightarrow> ('a \<times> 's) res"

definition vreturn :: "'a \<Rightarrow> ('s, 'a) vm" where
  "vreturn x = (\<lambda>s. Inr (x, s))"

definition vfail :: "verr \<Rightarrow> ('s, 'a) vm" where
  "vfail e = (\<lambda>s. Inl e)"

definition vbind :: "('s, 'a) vm \<Rightarrow> ('a \<Rightarrow> ('s, 'b) vm) \<Rightarrow> ('s, 'b) vm" where
  "vbind m f = (\<lambda>s. case m s of Inl e \<Rightarrow> Inl e | Inr (x, s') \<Rightarrow> f x s')"

definition vthen :: "('s, 'a) vm \<Rightarrow> ('s, 'b) vm \<Rightarrow> ('s, 'b) vm" where
  "vthen m n = vbind m (\<lambda>_. n)"

definition vlift :: "'a res \<Rightarrow> ('s, 'a) vm" where
  "vlift r = (\<lambda>s. case r of Inl e \<Rightarrow> Inl e | Inr x \<Rightarrow> Inr (x, s))"

definition vget :: "('s \<Rightarrow> 'a) \<Rightarrow> ('s, 'a) vm" where
  "vget g = (\<lambda>s. Inr (g s, s))"

definition vmodify :: "('s \<Rightarrow> 's) \<Rightarrow> ('s, unit) vm" where
  "vmodify g = (\<lambda>s. Inr ((), g s))"

text \<open>\<open>if (!c) { error; return; }\<close>\<close>

definition vcheck :: "bool \<Rightarrow> verr \<Rightarrow> ('s, unit) vm" where
  "vcheck c e = (if c then vreturn () else vfail e)"

text \<open>A counted loop whose body is run for each element in turn.\<close>

fun vfor :: "('a \<Rightarrow> ('s, unit) vm) \<Rightarrow> 'a list \<Rightarrow> ('s, unit) vm" where
  "vfor f [] = vreturn ()"
| "vfor f (x # xs) = vthen (f x) (vfor f xs)"

lemmas vm_defs = vreturn_def vfail_def vbind_def vthen_def vlift_def vget_def vmodify_def vcheck_def

lemma vbind_Inr:
  "vbind m f s = Inr (y, s'') \<longleftrightarrow> (\<exists>x s'. m s = Inr (x, s') \<and> f x s' = Inr (y, s''))"
  by (auto simp: vbind_def split: sum.splits)

lemma vthen_Inr:
  "vthen m n s = Inr (y, s'') \<longleftrightarrow> (\<exists>x s'. m s = Inr (x, s') \<and> n s' = Inr (y, s''))"
  by (simp add: vthen_def vbind_Inr)

lemma vreturn_Inr: "vreturn x s = Inr (y, s') \<longleftrightarrow> y = x \<and> s' = s"
  by (auto simp: vreturn_def)

lemma vlift_Inr: "vlift r s = Inr (y, s') \<longleftrightarrow> r = Inr y \<and> s' = s"
  by (auto simp: vlift_def split: sum.splits)

lemma vcheck_Inr: "vcheck c e s = Inr (y, s') \<longleftrightarrow> c \<and> s' = s"
  by (auto simp: vcheck_def vm_defs)

lemma vfail_Inr: "vfail e s = Inr r \<longleftrightarrow> False"
  by (simp add: vfail_def)

lemma vget_Inr: "vget g s = Inr (y, s') \<longleftrightarrow> y = g s \<and> s' = s"
  by (auto simp: vget_def)

lemma vmodify_Inr: "vmodify g s = Inr (y, s') \<longleftrightarrow> s' = g s"
  by (auto simp: vmodify_def)

lemmas vm_Inr = vbind_Inr vthen_Inr vreturn_Inr vlift_Inr vcheck_Inr vfail_Inr vget_Inr vmodify_Inr

lemma vbind_assoc: "vbind (vbind m k) h = vbind m (\<lambda>x. vbind (k x) h)"
  by (auto simp: vm_defs fun_eq_iff split: sum.splits)

lemma vthen_if: "vthen (if c then m else p) n = (if c then vthen m n else vthen p n)"
  by simp

lemma vthen_fail: "vthen (vfail e) n = vfail e"
  by (simp add: vm_defs)

lemma vthen_assoc:
  "vthen (vbind m k) n = vbind m (\<lambda>x. vthen (k x) n)" "vthen (vthen m p) n = vthen m (vthen p n)"
  "vbind (vthen m p) h = vthen m (vbind p h)"
  by (simp_all add: vthen_def vbind_assoc)

lemmas vm_assoc = vbind_assoc vthen_if vthen_fail vthen_assoc

section \<open>A Hoare logic for invariants of the monad's state\<close>

text \<open>
  \<open>keeps A m\<close>: started in a state that satisfies the invariant, \<open>m\<close> does not fault, and when
  it succeeds the invariant holds again and its result satisfies \<open>A\<close>.
\<close>

locale vm_invariant =
  fixes inv :: "'s \<Rightarrow> bool"
begin

definition keeps :: "('a \<Rightarrow> bool) \<Rightarrow> ('s, 'a) vm \<Rightarrow> bool" where
  "keeps A m \<longleftrightarrow> (\<forall>s. inv s \<longrightarrow> (case m s of Inl e \<Rightarrow> \<not> is_fault e | Inr (x, s') \<Rightarrow> inv s' \<and> A x))"

lemma keeps_no_fault: "keeps A m \<Longrightarrow> inv s \<Longrightarrow> no_fault (m s)"
  by (cases "m s") (auto simp: keeps_def dest!: spec [of _ s])

lemma keeps_Inr: "keeps A m \<Longrightarrow> inv s \<Longrightarrow> m s = Inr (x, s') \<Longrightarrow> inv s' \<and> A x"
  by (auto simp: keeps_def dest!: spec [of _ s])

lemma keepsI:
  assumes "\<And>s e. inv s \<Longrightarrow> m s = Inl e \<Longrightarrow> \<not> is_fault e"
    and "\<And>s x s'. inv s \<Longrightarrow> m s = Inr (x, s') \<Longrightarrow> inv s' \<and> A x"
  shows "keeps A m"
  using assms by (auto simp: keeps_def split: sum.split)

lemma keeps_weaken: "keeps A m \<Longrightarrow> (\<And>x. A x \<Longrightarrow> B x) \<Longrightarrow> keeps B m"
proof (rule keepsI)
  fix s e
  assume "keeps A m" and "inv s" and e: "m s = Inl e"
  then have "no_fault (m s)" by (intro keeps_no_fault)
  with e show "\<not> is_fault e" by simp
next
  fix s x s'
  assume "keeps A m" and "inv s" and "m s = Inr (x, s')" and w: "\<And>x. A x \<Longrightarrow> B x"
  then have "inv s' \<and> A x" by (intro keeps_Inr)
  with w show "inv s' \<and> B x" by simp
qed

lemma keeps_bind: "keeps A m \<Longrightarrow> (\<And>x. A x \<Longrightarrow> keeps B (f x)) \<Longrightarrow> keeps B (vbind m f)"
proof (rule keepsI)
  fix s e
  assume m: "keeps A m" and f: "\<And>x. A x \<Longrightarrow> keeps B (f x)" and s: "inv s"
    and e: "vbind m f s = Inl e"
  show "\<not> is_fault e"
  proof (cases "m s")
    case (Inl e')
    with e keeps_no_fault [OF m s] show ?thesis by (simp add: vbind_def)
  next
    case (Inr p)
    then obtain x s' where p: "m s = Inr (x, s')" by (cases p) simp
    with keeps_Inr [OF m s p] f have "keeps B (f x)" and "inv s'" by auto
    then have "no_fault (f x s')" by (rule keeps_no_fault)
    with e p show ?thesis by (simp add: vbind_def)
  qed
next
  fix s y s''
  assume m: "keeps A m" and f: "\<And>x. A x \<Longrightarrow> keeps B (f x)" and s: "inv s"
    and y: "vbind m f s = Inr (y, s'')"
  then obtain x s' where x: "m s = Inr (x, s')" and fx: "f x s' = Inr (y, s'')"
    by (auto simp: vbind_Inr)
  with keeps_Inr [OF m s x] f have "keeps B (f x)" and "inv s'" by auto
  with fx show "inv s'' \<and> B y" by (blast dest: keeps_Inr)
qed

lemma keeps_then: "keeps A m \<Longrightarrow> keeps B n \<Longrightarrow> keeps B (vthen m n)"
  unfolding vthen_def by (rule keeps_bind)

lemma keeps_return: "A x \<Longrightarrow> keeps A (vreturn x)"
  by (simp add: keeps_def vreturn_def)

lemma keeps_fail: "\<not> is_fault e \<Longrightarrow> keeps A (vfail e)"
  by (simp add: keeps_def vfail_def)

lemma keeps_lift: "no_fault r \<Longrightarrow> (\<And>x. r = Inr x \<Longrightarrow> A x) \<Longrightarrow> keeps A (vlift r)"
  by (cases r) (auto simp: keeps_def vlift_def)

lemma keeps_bind_lift:
  "no_fault r \<Longrightarrow> (\<And>x. r = Inr x \<Longrightarrow> keeps B (f x)) \<Longrightarrow> keeps B (vbind (vlift r) f)"
  by (rule keeps_bind [OF keeps_lift [where A = "\<lambda>x. r = Inr x"]]) auto

lemma keeps_bind_get: "(\<And>x. keeps B (f x)) \<Longrightarrow> keeps B (vbind (vget g) f)"
  by (rule keeps_bind [where A = "\<lambda>_. True"]) (simp_all add: keeps_def vget_def)

lemma keeps_get: "(\<And>s. inv s \<Longrightarrow> A (g s)) \<Longrightarrow> keeps A (vget g)"
  by (simp add: keeps_def vget_def)

lemma keeps_modify: "(\<And>s. inv s \<Longrightarrow> inv (g s)) \<Longrightarrow> keeps (\<lambda>_. True) (vmodify g)"
  by (simp add: keeps_def vmodify_def)

lemma keeps_then_modify: "(\<And>s. inv s \<Longrightarrow> inv (g s)) \<Longrightarrow> keeps A n \<Longrightarrow> keeps A (vthen (vmodify g) n)"
  by (rule keeps_then [OF keeps_modify])

lemma keeps_check: "\<not> is_fault e \<Longrightarrow> keeps (\<lambda>_. c) (vcheck c e)"
  by (simp add: keeps_def vm_defs)

lemma keeps_if: "(c \<Longrightarrow> keeps A m) \<Longrightarrow> (\<not> c \<Longrightarrow> keeps A n) \<Longrightarrow> keeps A (if c then m else n)"
  by simp

lemma keeps_for: "(\<And>x. x \<in> set xs \<Longrightarrow> keeps (\<lambda>_. True) (f x)) \<Longrightarrow> keeps (\<lambda>_. True) (vfor f xs)"
  by (induction xs) (auto intro: keeps_return keeps_then)

end

section \<open>A logic for unguarded places\<close>

text \<open>\<open>stops S m\<close>: the unguarded places at which \<open>m\<close> can stop are in \<open>S\<close>.\<close>

definition at_places :: "string set \<Rightarrow> 'a res \<Rightarrow> bool" where
  "at_places S r \<longleftrightarrow> (\<forall>m. r = Inl (Unguarded m) \<longrightarrow> m \<in> S)"

definition stops :: "string set \<Rightarrow> ('s, 'a) vm \<Rightarrow> bool" where
  "stops S m \<longleftrightarrow> (\<forall>s. at_places S (m s))"

lemma at_places_simps [simp]:
  "at_places S (Inr x)" "at_places S (Inl (Fault m))" "at_places S (Inl (Pending m))" "at_places S (Inl (VerifyError m))"
  "at_places S (Inl (ClassFormatError m))" "at_places S (Inl (Unguarded m)) \<longleftrightarrow> m \<in> S"
  by (auto simp: at_places_def)

lemma at_places_rbind: "at_places S r \<Longrightarrow> (\<And>x. r = Inr x \<Longrightarrow> at_places S (f x)) \<Longrightarrow> at_places S (rbind r f)"
  by (cases r) (auto simp: at_places_def)

lemma at_places_arr [simp]: "at_places S (arr_get xs i)" "at_places S (arr_get_i xs j)"
  by (simp_all add: arr_get_def arr_get_i_def)

lemma stops_bind: "stops S m \<Longrightarrow> (\<And>x. stops S (f x)) \<Longrightarrow> stops S (vbind m f)"
  by (force simp: stops_def at_places_def vbind_def split: sum.splits)

lemma stops_then: "stops S m \<Longrightarrow> stops S n \<Longrightarrow> stops S (vthen m n)"
  by (simp add: vthen_def stops_bind)

lemma stops_lift: "at_places S r \<Longrightarrow> stops S (vlift r)"
  by (cases r) (simp_all add: stops_def vlift_def at_places_def)

lemma stops_basic:
  "stops S (vreturn x)" "stops S (vmodify g)" "stops S (vget h)" "at_places S (Inl e :: unit res) \<Longrightarrow> stops S (vfail e)"
  by (simp_all add: stops_def vm_defs at_places_def)

lemma stops_if: "(c \<Longrightarrow> stops S m) \<Longrightarrow> (\<not> c \<Longrightarrow> stops S n) \<Longrightarrow> stops S (if c then m else n)"
  by simp

lemma stops_case_prod: "(\<And>a b. stops S (f a b)) \<Longrightarrow> stops S (case p of (a, b) \<Rightarrow> f a b)"
  by (cases p) simp

lemmas stops_rules = stops_bind stops_then stops_lift stops_basic stops_if stops_case_prod

section \<open>A logic for effects on a number\<close>

text \<open>\<open>effect d m\<close>: when \<open>m\<close> succeeds, it changes the number \<open>g\<close> of the state by \<open>d\<close>.\<close>

locale vm_effect =
  fixes g :: "'s \<Rightarrow> int"
begin

definition effect :: "int \<Rightarrow> ('s, 'a) vm \<Rightarrow> bool" where
  "effect d m \<longleftrightarrow> (\<forall>s x s'. m s = Inr (x, s') \<longrightarrow> g s' = g s + d)"

lemma effect_Inr: "effect d m \<Longrightarrow> m s = Inr (x, s') \<Longrightarrow> g s' = g s + d"
  by (auto simp: effect_def)

lemma effect_bind: "effect a m \<Longrightarrow> (\<And>x. effect b (f x)) \<Longrightarrow> effect (a + b) (vbind m f)"
  unfolding effect_def vbind_Inr by fastforce

lemma effect_then: "effect a m \<Longrightarrow> effect b n \<Longrightarrow> effect (a + b) (vthen m n)"
  by (simp add: vthen_def effect_bind)

lemma effect_return: "effect 0 (vreturn x)"
  by (simp add: effect_def vreturn_Inr)

lemma effect_lift: "effect 0 (vlift r)"
  by (simp add: effect_def vlift_Inr)

lemma effect_check: "effect 0 (vcheck c e)"
  by (simp add: effect_def vcheck_Inr)

lemma effect_get: "effect 0 (vget h)"
  by (simp add: effect_def vget_Inr)

lemma effect_fail: "effect d (vfail e)"
  by (simp add: effect_def vfail_Inr)

lemma effect_if: "effect d m \<Longrightarrow> effect d n \<Longrightarrow> effect d (if c then m else n)"
  by simp

lemma effect_bind_lift: "(\<And>x. r = Inr x \<Longrightarrow> effect d (f x)) \<Longrightarrow> effect d (vbind (vlift r) f)"
  unfolding effect_def vbind_Inr vlift_Inr by blast

lemma effect_then_0: "effect 0 m \<Longrightarrow> effect d n \<Longrightarrow> effect d (vthen m n)"
  using effect_then [of 0 m d n] by simp

lemma effect_for: "(\<And>x. effect d (f x)) \<Longrightarrow> effect (d * int (length xs)) (vfor f xs)"
proof (induction xs)
  case Nil
  show ?case by (simp add: effect_return)
next
  case (Cons x xs)
  from effect_then [OF Cons.prems Cons.IH [OF Cons.prems]] show ?case by (simp add: algebra_simps)
qed

text \<open>With the effect of the first step known, the effect of the rest is determined; as rewrite rules.\<close>

lemma effect_is: "effect a m \<Longrightarrow> d = a \<Longrightarrow> effect d m"
  by simp

lemma effect_then_by: "effect a m \<Longrightarrow> effect (d - a) n \<Longrightarrow> effect d (vthen m n)"
  using effect_then [of a m "d - a" n] by simp

lemma effect_bind_by: "effect a m \<Longrightarrow> (\<And>x. effect (d - a) (f x)) \<Longrightarrow> effect d (vbind m f)"
  using effect_bind [of a m "d - a" f] by simp

end

end
