(* ===== verification/Klasses.thy ===== *)
theory Klasses
  imports Prelude
begin

text \<open>
  Loaded classes (\<^verbatim>\<open>instanceKlass\<close>, \<^verbatim>\<open>Klass\<close>) as far as the verifier looks at them: the
  superclass chain, the local interfaces, fields and methods, and the queries on them. A
  class refers to its superclass and interfaces as finished values, so the chain is finite,
  as it is in the VM, where a superclass is loaded before its subclass exists. A class is
  identified by its value: the VM has one \<^verbatim>\<open>klassOop\<close> for each name and defining loader.

  The methods of a class are an array sorted by the address of the name symbol
  (\<^verbatim>\<open>symbolOopDesc::fast_compare\<close>); \<open>addr\<close> is where the symbol table has placed a name.
\<close>

datatype member = Member (mem_name: string) (mem_sig: string) (mem_protected: bool)

datatype klass = Klass
  (k_name: string) (k_loader: "nat option") (k_super: "klass option")
  (k_interfaces: "klass list") (k_is_interface: bool)
  (k_fields: "member list") (k_methods: "member list")

section \<open>The superclass chain\<close>

fun is_subclass_of :: "klass \<Rightarrow> klass \<Rightarrow> bool" where
  "is_subclass_of (Klass n ld spr ints isi fs ms) k =
     (if Klass n ld spr ints isi fs ms = k then True
      else (case spr of None \<Rightarrow> False | Some t \<Rightarrow> is_subclass_of t k))"

fun name_in_super_chain :: "string \<Rightarrow> klass \<Rightarrow> bool" where
  "name_in_super_chain ref_name (Klass n ld spr ints isi fs ms) =
     (if n = ref_name then True
      else (case spr of None \<Rightarrow> False | Some t \<Rightarrow> name_in_super_chain ref_name t))"

definition name_in_supers :: "string \<Rightarrow> klass \<Rightarrow> bool" where
  "name_in_supers ref_name current =
     (case k_super current of None \<Rightarrow> False | Some t \<Rightarrow> name_in_super_chain ref_name t)"

section \<open>Fields\<close>

definition find_local_field :: "klass \<Rightarrow> string \<Rightarrow> string \<Rightarrow> member option" where
  "find_local_field k name sig = List.find (\<lambda>f. mem_name f = name \<and> mem_sig f = sig) (k_fields k)"

function find_interface_field :: "klass list \<Rightarrow> string \<Rightarrow> string \<Rightarrow> (klass \<times> member) option" where
  "find_interface_field [] name sig = None"
| "find_interface_field (intf1 # rest) name sig =
     (case find_local_field intf1 name sig of
        Some fd \<Rightarrow> Some (intf1, fd)
      | None \<Rightarrow>
          (case find_interface_field (k_interfaces intf1) name sig of
             Some r \<Rightarrow> Some r
           | None \<Rightarrow> find_interface_field rest name sig))"
  by pat_completeness auto
termination
proof (relation "measure (\<lambda>(ks, n, s). size_list size ks)", goal_cases)
  case (2 intf1 rest name sig)
  then show ?case by (cases intf1) simp
qed auto

fun find_field :: "klass \<Rightarrow> string \<Rightarrow> string \<Rightarrow> (klass \<times> member) option" where
  "find_field (Klass n ld spr ints isi fs ms) name sig =
     (case find_local_field (Klass n ld spr ints isi fs ms) name sig of
        Some fd \<Rightarrow> Some (Klass n ld spr ints isi fs ms, fd)
      | None \<Rightarrow>
          (case find_interface_field ints name sig of
             Some r \<Rightarrow> Some r
           | None \<Rightarrow> (case spr of None \<Rightarrow> None | Some t \<Rightarrow> find_field t name sig)))"

section \<open>Methods\<close>

definition fast_compare :: "(string \<Rightarrow> nat) \<Rightarrow> string \<Rightarrow> string \<Rightarrow> int" where
  "fast_compare addr a b = (if addr a < addr b then -1 else if addr a = addr b then 0 else 1)"

text \<open>The two inner loops of \<^verbatim>\<open>find_method\<close>, from an index down to \<open>l\<close> and up to \<open>h\<close>.\<close>

function scan_down :: "member list \<Rightarrow> string \<Rightarrow> string \<Rightarrow> int \<Rightarrow> int \<Rightarrow> member option res" where
  "scan_down ms name sig i l =
     (if i \<ge> l then
        rbind (arr_get_i ms i) (\<lambda>m.
          if mem_name m \<noteq> name then Inr None
          else if mem_sig m = sig then Inr (Some m)
          else scan_down ms name sig (i - 1) l)
      else Inr None)"
  by pat_completeness auto
termination
  by (relation "measure (\<lambda>(ms, name, sig, i, l). nat (i - l + 1))") auto

function scan_up :: "member list \<Rightarrow> string \<Rightarrow> string \<Rightarrow> int \<Rightarrow> int \<Rightarrow> member option res" where
  "scan_up ms name sig i h =
     (if i \<le> h then
        rbind (arr_get_i ms i) (\<lambda>m.
          if mem_name m \<noteq> name then Inr None
          else if mem_sig m = sig then Inr (Some m)
          else scan_up ms name sig (i + 1) h)
      else Inr None)"
  by pat_completeness auto
termination
  by (relation "measure (\<lambda>(ms, name, sig, i, h). nat (h - i + 1))") auto

function find_method_loop ::
  "(string \<Rightarrow> nat) \<Rightarrow> member list \<Rightarrow> string \<Rightarrow> string \<Rightarrow> int \<Rightarrow> int \<Rightarrow> member option res" where
  "find_method_loop addr ms name sig l h =
     (if l \<le> h then
        (let mid = (l + h) div 2 in
         rbind (arr_get_i ms mid) (\<lambda>m.
           let r = fast_compare addr (mem_name m) name in
           if r = 0 then
             (if mem_sig m = sig then Inr (Some m)
              else rbind (scan_down ms name sig (mid - 1) l) (\<lambda>d.
                case d of
                  Some m' \<Rightarrow> Inr (Some m')
                | None \<Rightarrow> scan_up ms name sig (mid + 1) h))
           else if r < 0 then find_method_loop addr ms name sig (mid + 1) h
           else find_method_loop addr ms name sig l (mid - 1)))
      else Inr None)"
  by pat_completeness auto
termination
  by (relation "measure (\<lambda>(addr, ms, name, sig, l, h). nat (h - l + 1))") auto

declare scan_down.simps [simp del] scan_up.simps [simp del] find_method_loop.simps [simp del]

definition find_method :: "(string \<Rightarrow> nat) \<Rightarrow> member list \<Rightarrow> string \<Rightarrow> string \<Rightarrow> member option res" where
  "find_method addr ms name sig = find_method_loop addr ms name sig 0 (int (length ms) - 1)"

fun uncached_lookup_method ::
  "(string \<Rightarrow> nat) \<Rightarrow> klass \<Rightarrow> string \<Rightarrow> string \<Rightarrow> (klass \<times> member) option res" where
  "uncached_lookup_method addr (Klass n ld spr ints isi fs ms) name sig =
     rbind (find_method addr ms name sig) (\<lambda>r.
       case r of
         Some m \<Rightarrow> Inr (Some (Klass n ld spr ints isi fs ms, m))
       | None \<Rightarrow> (case spr of None \<Rightarrow> Inr None | Some t \<Rightarrow> uncached_lookup_method addr t name sig))"

section \<open>Runtime packages\<close>

text \<open>\<open>strrchr\<close> returns the position of the last occurrence.\<close>

fun strrchr :: "string \<Rightarrow> char \<Rightarrow> nat option" where
  "strrchr [] c = None"
| "strrchr (x # xs) c =
     (case strrchr xs c of
        Some i \<Rightarrow> Some (Suc i)
      | None \<Rightarrow> (if x = c then Some 0 else None))"

definition skip_brackets :: "string \<Rightarrow> nat option" where
  "skip_brackets name =
     (let k = length (takeWhile (\<lambda>c. c = CHR ''['') name) in
      if k = 0 then Some 0
      else if k < length name \<and> name ! k = CHR ''L'' then Some k
      else None)"

definition is_same_class_package ::
  "nat option \<Rightarrow> string \<Rightarrow> nat option \<Rightarrow> string \<Rightarrow> bool" where
  "is_same_class_package loader1 name1 loader2 name2 =
     (if loader1 \<noteq> loader2 then False
      else
        (case (strrchr name1 CHR ''/'', strrchr name2 CHR ''/'') of
           (Some s1, Some s2) \<Rightarrow>
             (case skip_brackets name1 of
                None \<Rightarrow> False
              | Some k1 \<Rightarrow>
                  (case skip_brackets name2 of
                     None \<Rightarrow> False
                   | Some k2 \<Rightarrow> take (s1 - k1) (drop k1 name1) = take (s2 - k2) (drop k2 name2)))
         | (None, None) \<Rightarrow> True
         | _ \<Rightarrow> False))"

section \<open>The superclass chain: laws\<close>

lemma is_subclass_of_refl [simp]: "is_subclass_of k k"
  by (cases k) simp

lemma is_subclass_of_unfold:
  "is_subclass_of c k \<longleftrightarrow> c = k \<or> (\<exists>t. k_super c = Some t \<and> is_subclass_of t k)"
  by (cases c) (auto split: option.splits)

lemma is_subclass_of_trans:
  "is_subclass_of a b \<Longrightarrow> is_subclass_of b c \<Longrightarrow> is_subclass_of a c"
proof (induction a b rule: is_subclass_of.induct)
  case (1 n ld spr ints isi fs ms k)
  show ?case
  proof (cases "Klass n ld spr ints isi fs ms = k")
    case True
    with "1.prems" show ?thesis by simp
  next
    case False
    with "1.prems" obtain t where t: "spr = Some t" "is_subclass_of t k"
      by (auto split: option.splits)
    with "1.IH" [OF False t(1)] "1.prems" have "is_subclass_of t c" by simp
    with t show ?thesis by simp
  qed
qed

section \<open>The binary search for a method\<close>

definition methods_sorted :: "(string \<Rightarrow> nat) \<Rightarrow> member list \<Rightarrow> bool" where
  "methods_sorted addr ms \<longleftrightarrow> sorted (map (\<lambda>m. addr (mem_name m)) ms)"

definition member_is :: "string \<Rightarrow> string \<Rightarrow> member \<Rightarrow> bool" where
  "member_is name sig m \<longleftrightarrow> mem_name m = name \<and> mem_sig m = sig"

text \<open>
  What a search of the index range from \<open>a\<close> to \<open>b\<close> has to deliver: a matching method of the
  array, or none when the range holds no match.
\<close>

definition search_ok :: "member list \<Rightarrow> string \<Rightarrow> string \<Rightarrow> int \<Rightarrow> int \<Rightarrow> member option res \<Rightarrow> bool" where
  "search_ok ms name sig a b r \<longleftrightarrow>
     (r = Inr None \<and> (\<forall>j. a \<le> j \<and> j \<le> b \<longrightarrow> \<not> member_is name sig (ms ! nat j))) \<or>
     (\<exists>m. r = Inr (Some m) \<and> m \<in> set ms \<and> member_is name sig m)"

lemma search_ok_down:
  assumes "search_ok ms name sig a (b - 1) r" and "\<not> member_is name sig (ms ! nat b)"
  shows "search_ok ms name sig a b r"
proof -
  have "j = b \<or> j \<le> b - 1" if "j \<le> b" for j :: int using that by arith
  with assms show ?thesis unfolding search_ok_def by blast
qed

lemma search_ok_up:
  assumes "search_ok ms name sig (a + 1) b r" and "\<not> member_is name sig (ms ! nat a)"
  shows "search_ok ms name sig a b r"
proof -
  have "j = a \<or> a + 1 \<le> j" if "a \<le> j" for j :: int using that by arith
  with assms show ?thesis unfolding search_ok_def by blast
qed

lemma methods_sorted_nth:
  "methods_sorted addr ms \<Longrightarrow> i \<le> j \<Longrightarrow> j < length ms \<Longrightarrow>
     addr (mem_name (ms ! i)) \<le> addr (mem_name (ms ! j))"
  using sorted_nth_mono [of "map (\<lambda>m. addr (mem_name m)) ms" i j]
  by (simp add: methods_sorted_def)

lemma scan_down_ok:
  assumes "methods_sorted addr ms" and "inj addr" and "0 \<le> l" and "i < int (length ms)"
    and "0 \<le> i \<Longrightarrow> addr (mem_name (ms ! nat i)) \<le> addr name"
  shows "search_ok ms name sig l i (scan_down ms name sig i l)"
  using assms
proof (induction ms name sig i l rule: scan_down.induct)
  case (1 ms name sig i l)
  show ?case
  proof (cases "i \<ge> l")
    case False
    then show ?thesis by (subst scan_down.simps) (auto simp: search_ok_def)
  next
    case True
    then have i0: "0 \<le> i" and il: "nat i < length ms" using "1.prems" by auto
    let ?m = "ms ! nat i"
    show ?thesis
    proof (cases "mem_name ?m = name")
      case False
      have "mem_name (ms ! nat j) \<noteq> name" if "l \<le> j" "j \<le> i" for j
      proof -
        have "addr (mem_name (ms ! nat j)) \<le> addr (mem_name ?m)"
          using methods_sorted_nth [OF "1.prems"(1), of "nat j" "nat i"] that il i0 by simp
        moreover have "addr (mem_name ?m) < addr name"
          using "1.prems"(2,5) False i0 by (simp add: inj_eq order.not_eq_order_implies_strict)
        ultimately show ?thesis by auto
      qed
      with False True i0 il show ?thesis
        by (subst scan_down.simps) (auto simp: search_ok_def member_is_def)
    next
      case nm: True
      show ?thesis
      proof (cases "mem_sig ?m = sig")
        case True
        with nm \<open>i \<ge> l\<close> i0 il show ?thesis
          by (subst scan_down.simps) (auto simp: search_ok_def member_is_def)
      next
        case False
        have "search_ok ms name sig l (i - 1) (scan_down ms name sig (i - 1) l)"
        proof (rule "1.IH" [OF True, where x = ?m])
          show "addr (mem_name (ms ! nat (i - 1))) \<le> addr name" if "0 \<le> i - 1"
            using methods_sorted_nth [OF "1.prems"(1), of "nat (i - 1)" "nat i"] il i0 "1.prems"(5)
            by fastforce
        qed (use False nm "1.prems" in auto)
        moreover have "\<not> member_is name sig ?m" using False by (simp add: member_is_def)
        moreover have "scan_down ms name sig i l = scan_down ms name sig (i - 1) l"
          using True i0 il nm False by (subst scan_down.simps) simp
        ultimately show ?thesis by (simp add: search_ok_down)
      qed
    qed
  qed
qed

lemma scan_up_ok:
  assumes "methods_sorted addr ms" and "inj addr" and "0 \<le> i" and "h < int (length ms)"
    and "i \<le> h \<Longrightarrow> addr name \<le> addr (mem_name (ms ! nat i))"
  shows "search_ok ms name sig i h (scan_up ms name sig i h)"
  using assms
proof (induction ms name sig i h rule: scan_up.induct)
  case (1 ms name sig i h)
  show ?case
  proof (cases "i \<le> h")
    case False
    then show ?thesis by (subst scan_up.simps) (auto simp: search_ok_def)
  next
    case True
    then have i0: "0 \<le> i" and il: "nat i < length ms" using "1.prems" by auto
    let ?m = "ms ! nat i"
    show ?thesis
    proof (cases "mem_name ?m = name")
      case False
      have "mem_name (ms ! nat j) \<noteq> name" if "i \<le> j" "j \<le> h" for j
      proof -
        have "addr (mem_name ?m) \<le> addr (mem_name (ms ! nat j))"
          using methods_sorted_nth [OF "1.prems"(1), of "nat i" "nat j"] that i0 "1.prems"(4) by auto
        moreover have "addr name < addr (mem_name ?m)"
          using "1.prems"(2,5) False True by (simp add: inj_eq order.not_eq_order_implies_strict)
        ultimately show ?thesis by auto
      qed
      with False True i0 il show ?thesis
        by (subst scan_up.simps) (auto simp: search_ok_def member_is_def)
    next
      case nm: True
      show ?thesis
      proof (cases "mem_sig ?m = sig")
        case True
        with nm \<open>i \<le> h\<close> i0 il show ?thesis
          by (subst scan_up.simps) (auto simp: search_ok_def member_is_def)
      next
        case False
        have "search_ok ms name sig (i + 1) h (scan_up ms name sig (i + 1) h)"
        proof (rule "1.IH" [OF True, where x = ?m])
          show "addr name \<le> addr (mem_name (ms ! nat (i + 1)))" if "i + 1 \<le> h"
            using methods_sorted_nth [OF "1.prems"(1), of "nat i" "nat (i + 1)"] that nm "1.prems"(4) i0
            by auto
        qed (use False nm "1.prems" in auto)
        moreover have "\<not> member_is name sig ?m" using False by (simp add: member_is_def)
        moreover have "scan_up ms name sig i h = scan_up ms name sig (i + 1) h"
          using True i0 il nm False by (subst scan_up.simps) simp
        ultimately show ?thesis by (simp add: search_ok_up)
      qed
    qed
  qed
qed

lemma find_method_loop_ok:
  assumes "methods_sorted addr ms" and "inj addr" and "0 \<le> l" and "h < int (length ms)"
    and "\<And>j. 0 \<le> j \<Longrightarrow> j < l \<Longrightarrow> mem_name (ms ! nat j) \<noteq> name"
    and "\<And>j. h < j \<Longrightarrow> j < int (length ms) \<Longrightarrow> mem_name (ms ! nat j) \<noteq> name"
  shows "search_ok ms name sig 0 (int (length ms) - 1) (find_method_loop addr ms name sig l h)"
  using assms
proof (induction addr ms name sig l h rule: find_method_loop.induct)
  case (1 addr ms name sig l h)
  show ?case
  proof (cases "l \<le> h")
    case False
    then show ?thesis
      using "1.prems"(5,6) by (subst find_method_loop.simps) (force simp: search_ok_def member_is_def)
  next
    case True
    define mid where "mid = (l + h) div 2"
    define m where "m = ms ! nat mid"
    have mid: "l \<le> mid" "mid \<le> h" "0 \<le> mid" "nat mid < length ms"
      using True "1.prems"(3,4) by (auto simp: mid_def)
    have get: "arr_get_i ms mid = Inr m" using mid by (simp add: m_def)
    note unfold = find_method_loop.simps [of addr ms name sig l h]
    consider "mem_name m = name" | "addr (mem_name m) < addr name" | "addr (mem_name m) > addr name"
      using "1.prems"(2) by (metis inj_eq linorder_less_linear)
    then show ?thesis
    proof cases
      case 1
      have down: "search_ok ms name sig l (mid - 1) (scan_down ms name sig (mid - 1) l)"
        by (rule scan_down_ok [OF "1.prems"(1,2)])
          (use mid 1 "1.prems" methods_sorted_nth [OF "1.prems"(1), of "nat (mid - 1)" "nat mid"]
           in \<open>auto simp: m_def\<close>)
      have up: "search_ok ms name sig (mid + 1) h (scan_up ms name sig (mid + 1) h)"
        by (rule scan_up_ok [OF "1.prems"(1,2)])
          (use mid 1 "1.prems" methods_sorted_nth [OF "1.prems"(1), of "nat mid" "nat (mid + 1)"]
           in \<open>auto simp: m_def nat_add_distrib\<close>)
      have eq: "find_method_loop addr ms name sig l h =
          (if mem_sig m = sig then Inr (Some m)
           else rbind (scan_down ms name sig (mid - 1) l) (\<lambda>d. case d of
               Some m' \<Rightarrow> Inr (Some m') | None \<Rightarrow> scan_up ms name sig (mid + 1) h))"
        using True get 1 by (simp add: unfold mid_def [symmetric] Let_def fast_compare_def)
      show ?thesis
      proof (cases "mem_sig m = sig")
        case True
        with eq 1 mid show ?thesis by (auto simp: search_ok_def member_is_def m_def)
      next
        case False
        have out: "\<not> member_is name sig (ms ! nat j)"
          if "0 \<le> j" "j < int (length ms)"
            "l \<le> j \<and> j \<le> mid - 1 \<Longrightarrow> \<not> member_is name sig (ms ! nat j)"
            "mid + 1 \<le> j \<and> j \<le> h \<Longrightarrow> \<not> member_is name sig (ms ! nat j)" for j
        proof -
          consider "j < l" | "h < j" | "j = mid" | "l \<le> j \<and> j \<le> mid - 1" | "mid + 1 \<le> j \<and> j \<le> h"
            by linarith
          then show ?thesis
            using that "1.prems"(5,6) False by cases (auto simp: member_is_def m_def)
        qed
        from down show ?thesis
          unfolding search_ok_def [of ms name sig l]
        proof (elim disjE conjE exE)
          assume n: "scan_down ms name sig (mid - 1) l = Inr None"
            and d: "\<forall>j. l \<le> j \<and> j \<le> mid - 1 \<longrightarrow> \<not> member_is name sig (ms ! nat j)"
          then have "find_method_loop addr ms name sig l h = scan_up ms name sig (mid + 1) h"
            using eq False by simp
          with up d out show ?thesis unfolding search_ok_def by auto
        next
          fix x
          assume "scan_down ms name sig (mid - 1) l = Inr (Some x)" "x \<in> set ms" "member_is name sig x"
          with eq False show ?thesis by (simp add: search_ok_def)
        qed
      qed
    next
      case 2
      have "search_ok ms name sig 0 (int (length ms) - 1) (find_method_loop addr ms name sig (mid + 1) h)"
      proof (rule "1.IH"(1) [OF True mid_def refl, where xa = m])
        fix j :: int
        assume "0 \<le> j" "j < mid + 1"
        then have "addr (mem_name (ms ! nat j)) \<le> addr (mem_name m)"
          using methods_sorted_nth [OF "1.prems"(1), of "nat j" "nat mid"] mid by (simp add: m_def)
        with 2 show "mem_name (ms ! nat j) \<noteq> name" by auto
      qed (use 2 mid "1.prems" in \<open>auto simp: fast_compare_def\<close>)
      moreover have "find_method_loop addr ms name sig l h = find_method_loop addr ms name sig (mid + 1) h"
        using True get 2 by (simp add: unfold mid_def [symmetric] Let_def fast_compare_def)
      ultimately show ?thesis by simp
    next
      case 3
      have "search_ok ms name sig 0 (int (length ms) - 1) (find_method_loop addr ms name sig l (mid - 1))"
      proof (rule "1.IH"(2) [OF True mid_def refl, where xa = m])
        fix j :: int
        assume "mid - 1 < j" "j < int (length ms)"
        then have "addr (mem_name m) \<le> addr (mem_name (ms ! nat j))"
          using methods_sorted_nth [OF "1.prems"(1), of "nat mid" "nat j"] mid by (simp add: m_def)
        with 3 show "mem_name (ms ! nat j) \<noteq> name" by auto
      qed (use 3 mid "1.prems" in \<open>auto simp: fast_compare_def\<close>)
      moreover have "find_method_loop addr ms name sig l h = find_method_loop addr ms name sig l (mid - 1)"
        using True get 3 by (simp add: unfold mid_def [symmetric] Let_def fast_compare_def)
      ultimately show ?thesis by simp
    qed
  qed
qed

lemma find_unique:
  assumes "distinct (map f xs)" and "x \<in> set xs" and "f x = v"
  shows "List.find (\<lambda>y. f y = v) xs = Some x"
  using assms by (induction xs) (auto simp: image_iff)

lemma find_method_finds:
  assumes "methods_sorted addr ms" and "inj addr"
    and "distinct (map (\<lambda>m. (mem_name m, mem_sig m)) ms)"
  shows "find_method addr ms name sig =
         Inr (List.find (\<lambda>m. mem_name m = name \<and> mem_sig m = sig) ms)"
proof -
  have "search_ok ms name sig 0 (int (length ms) - 1) (find_method addr ms name sig)"
    unfolding find_method_def by (rule find_method_loop_ok [OF assms(1,2)]) auto
  then show ?thesis
    unfolding search_ok_def
  proof (elim disjE conjE exE)
    assume n: "find_method addr ms name sig = Inr None"
      and all: "\<forall>j. 0 \<le> j \<and> j \<le> int (length ms) - 1 \<longrightarrow> \<not> member_is name sig (ms ! nat j)"
    have "\<not> member_is name sig m" if "m \<in> set ms" for m
    proof -
      from that obtain i where "i < length ms" "m = ms ! i" by (auto simp: in_set_conv_nth)
      with all [rule_format, of "int i"] show ?thesis by simp
    qed
    then have "List.find (\<lambda>m. mem_name m = name \<and> mem_sig m = sig) ms = None"
      by (auto simp: find_None_iff member_is_def)
    with n show ?thesis by simp
  next
    fix m
    assume "find_method addr ms name sig = Inr (Some m)" and "m \<in> set ms" and "member_is name sig m"
    with find_unique [OF assms(3), of m "(name, sig)"] show ?thesis
      by (simp add: member_is_def)
  qed
qed

lemma find_method_no_fault:
  assumes "methods_sorted addr ms" and "inj addr"
  shows "no_fault (find_method addr ms name sig)"
proof -
  have "search_ok ms name sig 0 (int (length ms) - 1) (find_method addr ms name sig)"
    unfolding find_method_def by (rule find_method_loop_ok [OF assms]) auto
  then show ?thesis by (auto simp: search_ok_def)
qed

text \<open>A class all of whose superclasses, itself included, have a sorted array of methods.\<close>

fun klass_sorted :: "(string \<Rightarrow> nat) \<Rightarrow> klass \<Rightarrow> bool" where
  "klass_sorted addr (Klass n ld spr ints isi fs ms) \<longleftrightarrow>
     methods_sorted addr ms \<and> (case spr of None \<Rightarrow> True | Some t \<Rightarrow> klass_sorted addr t)"

lemma uncached_lookup_no_fault:
  "inj addr \<Longrightarrow> klass_sorted addr k \<Longrightarrow> no_fault (uncached_lookup_method addr k name sig)"
proof (induction addr k name sig rule: uncached_lookup_method.induct)
  case (1 addr n ld spr ints isi fs ms name sig)
  then show ?case
    using find_method_no_fault [of addr ms name sig]
    by (auto intro!: no_fault_rbind split: option.splits)
qed

lemma find_method_ok:
  assumes "methods_sorted addr ms" and "inj addr"
  shows "(\<exists>m\<in>set ms. find_method addr ms name sig = Inr (Some m) \<and> member_is name sig m) \<or>
    find_method addr ms name sig = Inr None \<and> (\<forall>m\<in>set ms. \<not> member_is name sig m)"
proof -
  have s: "search_ok ms name sig 0 (int (length ms) - 1) (find_method addr ms name sig)"
    unfolding find_method_def by (rule find_method_loop_ok [OF assms]) auto
  have "\<not> member_is name sig m"
    if "\<forall>j. 0 \<le> j \<and> j \<le> int (length ms) - 1 \<longrightarrow> \<not> member_is name sig (ms ! nat j)" and "m \<in> set ms" for m
  proof -
    from that(2) obtain i where "i < length ms" "m = ms ! i" by (auto simp: in_set_conv_nth)
    with that(1) [rule_format, of "int i"] show ?thesis by simp
  qed
  with s show ?thesis unfolding search_ok_def by blast
qed

text \<open>
  What a lookup along the superclass chain delivers: the method of the nearest class that
  has one, and nothing when no superclass has one.
\<close>

definition lookup_ok :: "klass \<Rightarrow> string \<Rightarrow> string \<Rightarrow> (klass \<times> member) option \<Rightarrow> bool" where
  "lookup_ok k name sig r =
     (case r of
        None \<Rightarrow> \<forall>s. is_subclass_of k s \<longrightarrow> (\<forall>m\<in>set (k_methods s). \<not> member_is name sig m)
      | Some (h, m) \<Rightarrow>
          is_subclass_of k h \<and> m \<in> set (k_methods h) \<and> member_is name sig m \<and>
          (\<forall>s. is_subclass_of k s \<and> is_subclass_of s h \<and> s \<noteq> h \<longrightarrow>
             (\<forall>m\<in>set (k_methods s). \<not> member_is name sig m)))"

lemma is_subclass_of_size: "is_subclass_of a b \<Longrightarrow> a = b \<or> size b < size a"
proof (induction a b rule: is_subclass_of.induct)
  case (1 n ld spr ints isi fs ms k)
  then show ?case by (fastforce split: option.splits if_splits)
qed

lemma is_subclass_of_antisym: "is_subclass_of a b \<Longrightarrow> is_subclass_of b a \<Longrightarrow> a = b"
  using is_subclass_of_size [of a b] is_subclass_of_size [of b a] by auto

lemma uncached_lookup_ok:
  "inj addr \<Longrightarrow> klass_sorted addr k \<Longrightarrow> \<exists>r. uncached_lookup_method addr k name sig = Inr r \<and> lookup_ok k name sig r"
proof (induction addr k name sig rule: uncached_lookup_method.induct)
  case (1 addr n ld spr ints isi fs ms name sig)
  let ?k = "Klass n ld spr ints isi fs ms"
  have sorted: "methods_sorted addr ms" using "1.prems"(2) by simp
  from find_method_ok [OF sorted "1.prems"(1), of name sig] show ?case
  proof (elim disjE bexE conjE)
    fix m
    assume "m \<in> set ms" "find_method addr ms name sig = Inr (Some m)" "member_is name sig m"
    then show ?thesis by (auto simp: lookup_ok_def dest: is_subclass_of_antisym)
  next
    assume f: "find_method addr ms name sig = Inr None" and no: "\<forall>m\<in>set ms. \<not> member_is name sig m"
    show ?thesis
    proof (cases spr)
      case None
      with f no show ?thesis by (auto simp: lookup_ok_def)
    next
      case (Some t)
      from "1.IH" [OF Some "1.prems"(1)] "1.prems"(2) Some obtain r where
        r: "uncached_lookup_method addr t name sig = Inr r" "lookup_ok t name sig r" by auto
      have below: "is_subclass_of ?k s \<longleftrightarrow> s = ?k \<or> is_subclass_of t s" for s
        using Some is_subclass_of_unfold [of ?k s] by auto
      have "lookup_ok ?k name sig r"
        using r(2) no below by (cases r) (auto simp: lookup_ok_def)
      with r f Some show ?thesis by auto
    qed
  qed
qed

section \<open>The search for a field\<close>

text \<open>The interfaces of a class, those that its interfaces extend included.\<close>

inductive interface_of :: "klass \<Rightarrow> klass \<Rightarrow> bool" where
  direct: "i \<in> set (k_interfaces k) \<Longrightarrow> interface_of k i"
| extended: "i \<in> set (k_interfaces k) \<Longrightarrow> interface_of i j \<Longrightarrow> interface_of k j"

lemma interface_of_unfold:
  "interface_of k j \<longleftrightarrow> (\<exists>i\<in>set (k_interfaces k). i = j \<or> interface_of i j)"
  by (subst interface_of.simps) blast

lemma find_local_field_Some:
  "find_local_field k name sig = Some fd \<Longrightarrow> fd \<in> set (k_fields k) \<and> member_is name sig fd"
  by (auto simp: find_local_field_def member_is_def find_Some_iff)

lemma find_local_field_None:
  "find_local_field k name sig = None \<longleftrightarrow> (\<forall>fd\<in>set (k_fields k). \<not> member_is name sig fd)"
  by (auto simp: find_local_field_def member_is_def find_None_iff)

definition has_field :: "string \<Rightarrow> string \<Rightarrow> klass \<Rightarrow> bool" where
  "has_field name sig k \<longleftrightarrow> (\<exists>fd\<in>set (k_fields k). member_is name sig fd)"

lemma find_interface_field_ok:
  "case find_interface_field ks name sig of
     None \<Rightarrow> \<forall>i\<in>set ks. \<not> has_field name sig i \<and> (\<forall>j. interface_of i j \<longrightarrow> \<not> has_field name sig j)
   | Some (h, fd) \<Rightarrow> (\<exists>i\<in>set ks. i = h \<or> interface_of i h) \<and> fd \<in> set (k_fields h) \<and> member_is name sig fd"
proof (induction ks name sig rule: find_interface_field.induct)
  case (2 i rest name sig)
  show ?case
  proof (cases "find_local_field i name sig")
    case (Some fd)
    then show ?thesis by (auto dest: find_local_field_Some)
  next
    case None
    note local = None [unfolded find_local_field_None]
    note below = "2.IH"(1) [OF None]
    show ?thesis
    proof (cases "find_interface_field (k_interfaces i) name sig")
      case (Some r)
      with None below show ?thesis by (cases r) (auto simp: interface_of_unfold [of i])
    next
      case n: None
      have "\<not> has_field name sig j" if "interface_of i j" for j
        using below n that interface_of_unfold [of i j] by auto
      with "2.IH"(2) [OF None n] None n local show ?thesis
        by (auto simp: has_field_def split: option.splits)
    qed
  qed
qed simp

text \<open>The classes and interfaces that a search for a field visits.\<close>

definition field_scope :: "klass \<Rightarrow> klass \<Rightarrow> bool" where
  "field_scope k h \<longleftrightarrow> (\<exists>s. is_subclass_of k s \<and> (h = s \<or> interface_of s h))"

lemma field_scope_super:
  "field_scope k h \<longleftrightarrow> h = k \<or> interface_of k h \<or> (\<exists>t. k_super k = Some t \<and> field_scope t h)"
proof -
  have "is_subclass_of k s \<longleftrightarrow> k = s \<or> (\<exists>t. k_super k = Some t \<and> is_subclass_of t s)" for s
    by (rule is_subclass_of_unfold)
  then have "field_scope k h \<longleftrightarrow> (\<exists>s. (k = s \<or> (\<exists>t. k_super k = Some t \<and> is_subclass_of t s)) \<and> (h = s \<or> interface_of s h))"
    by (simp add: field_scope_def)
  then show ?thesis unfolding field_scope_def by blast
qed

lemma find_field_ok:
  "case find_field k name sig of
     None \<Rightarrow> \<forall>h. field_scope k h \<longrightarrow> \<not> has_field name sig h
   | Some (h, fd) \<Rightarrow> field_scope k h \<and> fd \<in> set (k_fields h) \<and> member_is name sig fd"
proof (induction k name sig rule: find_field.induct)
  case (1 n ld spr ints isi fs ms name sig)
  let ?k = "Klass n ld spr ints isi fs ms"
  note scope = field_scope_super [of ?k] and intfs = find_interface_field_ok [of ints name sig]
  show ?case
  proof (cases "find_local_field ?k name sig")
    case (Some fd)
    then show ?thesis by (auto simp: scope dest: find_local_field_Some)
  next
    case None
    note local = None [unfolded find_local_field_None]
    show ?thesis
    proof (cases "find_interface_field ints name sig")
      case (Some r)
      with None intfs show ?thesis
        by (cases r) (auto simp: scope interface_of_unfold [of ?k])
    next
      case n: None
      have i: "\<not> has_field name sig j" if "interface_of ?k j" for j
        using intfs n that interface_of_unfold [of ?k j] by auto
      show ?thesis
        using "1.IH" [OF None n] None n local i
        by (auto simp: scope has_field_def split: option.splits)
    qed
  qed
qed

section \<open>Packages\<close>

text \<open>The package of a class name: what stands in front of the last slash.\<close>

definition package_of :: "string \<Rightarrow> string option" where
  "package_of n =
     (if CHR ''/'' \<in> set n then Some (rev (tl (dropWhile (\<lambda>c. c \<noteq> CHR ''/'') (rev n)))) else None)"

lemma strrchr_None: "strrchr xs c = None \<longleftrightarrow> c \<notin> set xs"
  by (induction xs) (auto split: option.splits)

lemma strrchr_last: "c \<notin> set ys \<Longrightarrow> strrchr (xs @ c # ys) c = Some (length xs)"
  by (induction xs) (auto simp: strrchr_None [THEN iffD2])

lemma package_of_split:
  "package_of (p @ CHR ''/'' # a) = Some p" if "CHR ''/'' \<notin> set a"
  using that by (simp add: package_of_def dropWhile_append dropWhile_eq_self_iff)

lemma last_slash:
  assumes "CHR ''/'' \<in> set n"
  obtains p a where "n = p @ CHR ''/'' # a" and "CHR ''/'' \<notin> set a"
  using split_list_last [OF assms] by blast

lemma skip_brackets_class: "n = [] \<or> hd n \<noteq> CHR ''['' \<Longrightarrow> skip_brackets n = Some 0"
  by (cases n) (auto simp: skip_brackets_def)

lemma same_package_classes:
  assumes "n1 = [] \<or> hd n1 \<noteq> CHR ''[''" and "n2 = [] \<or> hd n2 \<noteq> CHR ''[''"
  shows "is_same_class_package l1 n1 l2 n2 \<longleftrightarrow> l1 = l2 \<and> package_of n1 = package_of n2"
proof -
  note sk = skip_brackets_class [OF assms(1)] skip_brackets_class [OF assms(2)]
  consider "CHR ''/'' \<notin> set n1" | "CHR ''/'' \<notin> set n2" | "CHR ''/'' \<in> set n1" "CHR ''/'' \<in> set n2" by blast
  then show ?thesis
  proof cases
    case 3
    then obtain p a q b where s: "n1 = p @ CHR ''/'' # a" "CHR ''/'' \<notin> set a" "n2 = q @ CHR ''/'' # b" "CHR ''/'' \<notin> set b"
      by (meson last_slash)
    have "strrchr n1 CHR ''/'' = Some (length p)" "strrchr n2 CHR ''/'' = Some (length q)"
      "package_of n1 = Some p" "package_of n2 = Some q"
      using s by (simp_all add: strrchr_last package_of_split)
    with sk s show ?thesis by (simp add: is_same_class_package_def)
  qed (use strrchr_None [of n1 "CHR ''/''"] strrchr_None [of n2 "CHR ''/''"] in
      \<open>auto simp: is_same_class_package_def package_of_def split: option.splits\<close>)
qed

lemma skip_brackets_array: "skip_brackets (replicate k CHR ''['' @ CHR ''L'' # xs) = Some k"
proof -
  have "takeWhile (\<lambda>c. c = CHR ''['') (replicate k CHR ''['' @ CHR ''L'' # xs) = replicate k CHR ''[''"
    by (induction k) auto
  then show ?thesis by (simp add: skip_brackets_def nth_append)
qed

lemma strrchr_replicate: "c \<noteq> b \<Longrightarrow> strrchr (replicate k b @ xs) c = map_option ((+) k) (strrchr xs c)"
  by (induction k; cases "strrchr xs c") auto

lemma array_skips_brackets:
  assumes "n = [] \<or> hd n \<noteq> CHR ''[''"
  shows "is_same_class_package l1 (replicate (Suc k) CHR ''['' @ CHR ''L'' # e @ '';'') l2 n =
    is_same_class_package l1 (CHR ''L'' # e @ '';'') l2 n"
  using skip_brackets_class [OF assms] skip_brackets_class [of "CHR ''L'' # e @ '';''"]
    skip_brackets_array [of "Suc k" "e @ '';''"] strrchr_replicate [of "CHR ''/''" "CHR ''[''" "Suc k" "CHR ''L'' # e @ '';''"]
  by (auto simp: is_same_class_package_def split: option.splits)

lemma package_of_array: "package_of (CHR ''L'' # e @ '';'') = map_option ((#) CHR ''L'') (package_of e)"
proof (cases "CHR ''/'' \<in> set e")
  case True
  then obtain p a where "e = p @ CHR ''/'' # a" "CHR ''/'' \<notin> set a" by (rule last_slash)
  then show ?thesis using package_of_split [of "a @ '';''" "CHR ''L'' # p"] package_of_split [of a p] by simp
qed (simp add: package_of_def)

section \<open>Properties\<close>

text \<open>Addresses of symbols for the examples: the characters as digits.\<close>

fun ex_addr :: "string \<Rightarrow> nat" where
  "ex_addr [] = 0"
| "ex_addr (c # cs) = Suc (of_char c) + 257 * ex_addr cs"

lemma ex_addr_inj: "inj ex_addr"
proof (rule injI)
  fix a b
  assume "ex_addr a = ex_addr b"
  then show "a = b"
  proof (induction a arbitrary: b)
    case Nil
    then show ?case by (cases b) auto
  next
    case (Cons c cs)
    then obtain d ds where b: "b = d # ds" by (cases b) auto
    have lt: "of_char x < (256 :: nat)" for x :: char using nat_of_char_less_256 [of x] by simp
    have eq: "of_char c + 257 * ex_addr cs = of_char d + 257 * ex_addr ds" using Cons.prems b by simp
    then have "(of_char c + 257 * ex_addr cs) mod 257 = (of_char d + 257 * ex_addr ds) mod 257" by simp
    then have "of_char c = (of_char d :: nat)" using lt [of c] lt [of d] by simp
    with eq Cons.IH b show ?case by simp
  qed
qed

text \<open>
  C29. The binary search of \<^verbatim>\<open>find_method\<close>, with its scans over overloaded methods in both directions,
  delivers what a search through the whole array delivers, when the methods are sorted by the
  address of their names and no two have the same name and signature.
\<close>

theorem find_method_linear_search:
  assumes "methods_sorted addr ms" and "inj addr"
    and "distinct (map (\<lambda>m. (mem_name m, mem_sig m)) ms)"
  shows "find_method addr ms name sig = Inr (List.find (\<lambda>m. mem_name m = name \<and> mem_sig m = sig) ms)"
  by (rule find_method_finds [OF assms])

theorem find_method_linear_search_witness:
  "find_method ex_addr [Member ''f'' ''()V'' False, Member ''f'' ''(I)V'' False, Member ''g'' ''()V'' True] ''f'' ''(I)V'' =
   Inr (Some (Member ''f'' ''(I)V'' False))"
  using find_method_linear_search [OF _ ex_addr_inj, of
      "[Member ''f'' ''()V'' False, Member ''f'' ''(I)V'' False, Member ''g'' ''()V'' True]" "''f''" "''(I)V''"]
  by (simp add: methods_sorted_def)

text \<open>
  C30. \<^verbatim>\<open>uncached_lookup_method\<close> returns for every name and signature, without a read outside of an array:
  the method of the nearest class of the superclass chain that declares it, or nothing when no
  class of the chain does.
\<close>

theorem uncached_lookup_nearest:
  assumes "inj addr" and "klass_sorted addr k"
  shows "\<exists>r. uncached_lookup_method addr k name sig = Inr r \<and> lookup_ok k name sig r"
  by (rule uncached_lookup_ok [OF assms])

theorem uncached_lookup_nearest_witness:
  "let ob = Klass ''java/lang/Object'' None None [] False [] [Member ''m'' ''()V'' False];
       k = Klass ''A'' None (Some ob) [] False [] [Member ''f'' ''()V'' False] in
   \<exists>r. uncached_lookup_method ex_addr k ''m'' ''()V'' = Inr r \<and> lookup_ok k ''m'' ''()V'' r"
  unfolding Let_def by (rule uncached_lookup_nearest [OF ex_addr_inj]) (simp add: methods_sorted_def)

text \<open>
  C31. \<^verbatim>\<open>find_field\<close> delivers a field with the name and signature it is asked for, declared by a class of the
  superclass chain or by one of their interfaces, and delivers none only when none of these declares one.
\<close>

theorem find_field_scope:
  "case find_field k name sig of
     None \<Rightarrow> \<not> (\<exists>h. field_scope k h \<and> has_field name sig h)
   | Some (h, fd) \<Rightarrow> field_scope k h \<and> fd \<in> set (k_fields h) \<and> member_is name sig fd"
  using find_field_ok [of k name sig] by (auto split: option.splits)

text \<open>
  C32. For names of classes, \<^verbatim>\<open>is_same_class_package\<close> holds exactly when the loaders are the same and the
  parts of the names in front of the last slash are.
\<close>

theorem same_class_package:
  assumes "n1 = [] \<or> hd n1 \<noteq> CHR ''[''" and "n2 = [] \<or> hd n2 \<noteq> CHR ''[''"
  shows "is_same_class_package l1 n1 l2 n2 \<longleftrightarrow> l1 = l2 \<and> package_of n1 = package_of n2"
  by (rule same_package_classes [OF assms])

theorem same_class_package_witness:
  "is_same_class_package None ''java/lang/Object'' None ''java/lang/String'' \<longleftrightarrow>
     None = (None :: nat option) \<and> package_of ''java/lang/Object'' = package_of ''java/lang/String''"
  by (rule same_class_package) simp_all

text \<open>
  C33. The package of an array class. Its brackets are skipped, but not the \<open>L\<close> behind them, which then counts as a
  part of the package: an array of a class in a named package is taken to be in the package with an \<open>L\<close> in front, so that it is not in the
  package of its own elements. When the elements are in the unnamed package, the array is there too.
\<close>

theorem array_class_package:
  assumes "n = [] \<or> hd n \<noteq> CHR ''[''"
  shows "is_same_class_package l1 (replicate (Suc k) CHR ''['' @ CHR ''L'' # e @ '';'') l2 n \<longleftrightarrow>
    l1 = l2 \<and> package_of n = map_option ((#) CHR ''L'') (package_of e)"
  using array_skips_brackets [OF assms, of l1 k e l2] same_package_classes [of "CHR ''L'' # e @ '';''" n l1 l2] package_of_array [of e] assms
  by auto

theorem array_class_package_witness:
  "\<not> is_same_class_package None (replicate (Suc 1) CHR ''['' @ CHR ''L'' # ''java/lang/String'' @ '';'') None ''java/lang/Object'' \<and>
   is_same_class_package None (replicate (Suc 0) CHR ''['' @ CHR ''L'' # ''Foo'' @ '';'') None ''Foo''"
  using array_class_package [of "''java/lang/Object''" None 1 "''java/lang/String''" None]
    array_class_package [of "''Foo''" None 0 "''Foo''" None]
  by (simp add: package_of_def)

end
