(* ===== verification/VerificationType.thy ===== *)
theory VerificationType
  imports Klasses
begin

text \<open>
  The verifier's types (\<^verbatim>\<open>classfile/verificationType.hpp\<close>, \<^verbatim>\<open>verificationType.cpp\<close>). In the VM a
  \<^verbatim>\<open>VerificationType\<close> is one machine word: a pointer to the class name when its two low bits
  are zero, and packed tag bits otherwise. The theory has both views. The word view
  (\<open>raw_\<close> functions) is the mask arithmetic of the header; the datatype \<open>vtype\<close> names the
  values that arithmetic distinguishes. \<open>raw_of\<close> encodes the datatype, given where the name
  handles live, and the refinement lemmas show that every mask test computes what the
  corresponding datatype predicate says. The rest of the development uses the datatype.
\<close>

section \<open>The packed representation\<close>

type_synonym uintptr = "64 word"

abbreviation (input) ITEM_Integer :: uintptr where "ITEM_Integer \<equiv> 1"
abbreviation (input) ITEM_Float :: uintptr where "ITEM_Float \<equiv> 2"
abbreviation (input) ITEM_Double :: uintptr where "ITEM_Double \<equiv> 3"
abbreviation (input) ITEM_Long :: uintptr where "ITEM_Long \<equiv> 4"
abbreviation (input) ITEM_Boolean :: uintptr where "ITEM_Boolean \<equiv> 9"
abbreviation (input) ITEM_Byte :: uintptr where "ITEM_Byte \<equiv> 10"
abbreviation (input) ITEM_Short :: uintptr where "ITEM_Short \<equiv> 11"
abbreviation (input) ITEM_Char :: uintptr where "ITEM_Char \<equiv> 12"
abbreviation (input) ITEM_Long_2nd :: uintptr where "ITEM_Long_2nd \<equiv> 13"
abbreviation (input) ITEM_Double_2nd :: uintptr where "ITEM_Double_2nd \<equiv> 14"

abbreviation (input) TypeMask :: uintptr where "TypeMask \<equiv> 3"
abbreviation (input) ReferenceBits :: uintptr where "ReferenceBits \<equiv> 0"
abbreviation (input) Primitive :: uintptr where "Primitive \<equiv> 1"
abbreviation (input) UninitializedBits :: uintptr where "UninitializedBits \<equiv> 2"
abbreviation (input) TypeQuery :: uintptr where "TypeQuery \<equiv> 3"

definition Category1 :: uintptr where "Category1 = push_bit 8 1 OR Primitive"
definition Category2 :: uintptr where "Category2 = push_bit 8 2 OR Primitive"
definition Category2_2nd :: uintptr where "Category2_2nd = push_bit 8 4 OR Primitive"

text \<open>
  \<^verbatim>\<open>ITEM_Bogus\<close> is \<open>(uint)-1\<close>, so the shift that packs it is a shift of a 32-bit value.
\<close>

definition BogusRaw :: uintptr where
  "BogusRaw = ucast (push_bit 16 (4294967295 :: u4)) OR Category1"

definition packed :: "uintptr \<Rightarrow> uintptr \<Rightarrow> uintptr" where
  "packed item category = push_bit 16 item OR category"

definition BciMask :: uintptr where "BciMask = push_bit 8 65535"

definition BciForThis :: nat where "BciForThis = 65535"

definition ReferenceQueryRaw :: uintptr where "ReferenceQueryRaw = push_bit 8 0 OR TypeQuery"
definition Category1QueryRaw :: uintptr where "Category1QueryRaw = push_bit 8 1 OR TypeQuery"
definition Category2QueryRaw :: uintptr where "Category2QueryRaw = push_bit 8 2 OR TypeQuery"
definition Category2_2ndQueryRaw :: uintptr where "Category2_2ndQueryRaw = push_bit 8 4 OR TypeQuery"

definition raw_is_reference :: "uintptr \<Rightarrow> bool" where
  "raw_is_reference d \<longleftrightarrow> d AND TypeMask = ReferenceBits"

definition raw_is_category1 :: "uintptr \<Rightarrow> bool" where
  "raw_is_category1 d \<longleftrightarrow> d AND Category1 \<noteq> Primitive"

definition raw_is_category2 :: "uintptr \<Rightarrow> bool" where
  "raw_is_category2 d \<longleftrightarrow> d AND Category2 = Category2"

definition raw_is_category2_2nd :: "uintptr \<Rightarrow> bool" where
  "raw_is_category2_2nd d \<longleftrightarrow> d AND Category2_2nd = Category2_2nd"

definition raw_is_check :: "uintptr \<Rightarrow> bool" where
  "raw_is_check d \<longleftrightarrow> d AND TypeQuery = TypeQuery"

definition raw_is_uninitialized :: "uintptr \<Rightarrow> bool" where
  "raw_is_uninitialized d \<longleftrightarrow> d AND UninitializedBits = UninitializedBits"

definition raw_bci :: "uintptr \<Rightarrow> nat" where
  "raw_bci d = unat (drop_bit 8 (d AND BciMask))"

definition raw_uninitialized_type :: "nat \<Rightarrow> uintptr" where
  "raw_uninitialized_type bci = push_bit 8 (of_nat bci) OR UninitializedBits"

section \<open>The datatype view\<close>

datatype vtype =
    Bogus | Boolean | Byte | Short | Char | Integer | Float
  | Long | Double | Long_2nd | Double_2nd
  | Null | Reference string | Uninitialized nat
  | ReferenceQuery | Category1Query | Category2Query | Category2_2ndQuery

text \<open>
  The packed word of each value that is not a class name. A class name is the address of
  the handle that holds it; such an address is aligned to words and not null.
\<close>

fun raw_of :: "vtype \<Rightarrow> uintptr" where
  "raw_of Bogus = BogusRaw"
| "raw_of Boolean = packed ITEM_Boolean Category1"
| "raw_of Byte = packed ITEM_Byte Category1"
| "raw_of Short = packed ITEM_Short Category1"
| "raw_of Char = packed ITEM_Char Category1"
| "raw_of Integer = packed ITEM_Integer Category1"
| "raw_of Float = packed ITEM_Float Category1"
| "raw_of Long = packed ITEM_Long Category2"
| "raw_of Double = packed ITEM_Double Category2"
| "raw_of Long_2nd = packed ITEM_Long_2nd Category2_2nd"
| "raw_of Double_2nd = packed ITEM_Double_2nd Category2_2nd"
| "raw_of Null = 0"
| "raw_of (Reference n) = 0"
| "raw_of (Uninitialized bci) = raw_uninitialized_type bci"
| "raw_of ReferenceQuery = ReferenceQueryRaw"
| "raw_of Category1Query = Category1QueryRaw"
| "raw_of Category2Query = Category2QueryRaw"
| "raw_of Category2_2ndQuery = Category2_2ndQueryRaw"

text \<open>\<open>name\<close> is what the handle at an address holds.\<close>

fun represents :: "(uintptr \<Rightarrow> string) \<Rightarrow> uintptr \<Rightarrow> vtype \<Rightarrow> bool" where
  "represents name d (Reference n) = (d AND TypeMask = ReferenceBits \<and> d \<noteq> 0 \<and> name d = n)"
| "represents name d t = (d = raw_of t)"

definition raw_equals :: "(uintptr \<Rightarrow> string) \<Rightarrow> uintptr \<Rightarrow> uintptr \<Rightarrow> bool" where
  "raw_equals name d e \<longleftrightarrow> d = e \<or>
     (raw_is_reference d \<and> raw_is_reference e \<and> d \<noteq> 0 \<and> e \<noteq> 0 \<and> name d = name e)"

text \<open>A bci is a \<open>u2\<close>.\<close>

fun vtype_ok :: "vtype \<Rightarrow> bool" where
  "vtype_ok (Uninitialized bci) = (bci < 65536)"
| "vtype_ok t = True"

abbreviation uninitialized_this_type :: vtype where
  "uninitialized_this_type \<equiv> Uninitialized BciForThis"

definition is_reference :: "vtype \<Rightarrow> bool" where
  "is_reference t = (case t of Null \<Rightarrow> True | Reference n \<Rightarrow> True | _ \<Rightarrow> False)"

definition is_category1 :: "vtype \<Rightarrow> bool" where
  "is_category1 t = (case t of
       Long \<Rightarrow> False | Double \<Rightarrow> False | Long_2nd \<Rightarrow> False | Double_2nd \<Rightarrow> False
     | ReferenceQuery \<Rightarrow> False | Category2Query \<Rightarrow> False | Category2_2ndQuery \<Rightarrow> False
     | _ \<Rightarrow> True)"

definition is_category2 :: "vtype \<Rightarrow> bool" where
  "is_category2 t = (case t of Long \<Rightarrow> True | Double \<Rightarrow> True | Category2Query \<Rightarrow> True | _ \<Rightarrow> False)"

definition is_category2_2nd :: "vtype \<Rightarrow> bool" where
  "is_category2_2nd t =
     (case t of Long_2nd \<Rightarrow> True | Double_2nd \<Rightarrow> True | Category2_2ndQuery \<Rightarrow> True | _ \<Rightarrow> False)"

definition is_check :: "vtype \<Rightarrow> bool" where
  "is_check t = (case t of ReferenceQuery \<Rightarrow> True | Category1Query \<Rightarrow> True
     | Category2Query \<Rightarrow> True | Category2_2ndQuery \<Rightarrow> True | _ \<Rightarrow> False)"

definition is_uninitialized :: "vtype \<Rightarrow> bool" where
  "is_uninitialized t = (case t of Uninitialized bci \<Rightarrow> True | ReferenceQuery \<Rightarrow> True
     | Category1Query \<Rightarrow> True | Category2Query \<Rightarrow> True | Category2_2ndQuery \<Rightarrow> True | _ \<Rightarrow> False)"

lemmas vtype_pred_defs = is_reference_def is_category1_def is_category2_def
  is_category2_2nd_def is_check_def is_uninitialized_def

lemmas raw_defs = raw_is_reference_def raw_is_category1_def raw_is_category2_def
  raw_is_category2_2nd_def raw_is_check_def raw_is_uninitialized_def
  Category1_def Category2_def Category2_2nd_def BogusRaw_def packed_def
  ReferenceQueryRaw_def Category1QueryRaw_def Category2QueryRaw_def Category2_2ndQueryRaw_def

section \<open>Names, arrays and components\<close>

definition is_uninitialized_this :: "vtype \<Rightarrow> bool" where
  "is_uninitialized_this t = (t = uninitialized_this_type)"

fun name_of :: "vtype \<Rightarrow> string" where
  "name_of (Reference n) = n"
| "name_of t = []"

definition is_object :: "vtype \<Rightarrow> bool" where
  "is_object t = (case t of Reference n \<Rightarrow> length n \<ge> 1 \<and> n ! 0 \<noteq> CHR ''['' | _ \<Rightarrow> False)"

definition is_array :: "vtype \<Rightarrow> bool" where
  "is_array t = (case t of Reference n \<Rightarrow> length n \<ge> 2 \<and> n ! 0 = CHR ''['' | _ \<Rightarrow> False)"

definition is_x_array :: "char \<Rightarrow> vtype \<Rightarrow> bool" where
  "is_x_array sig t = (t = Null \<or> (is_array t \<and> name_of t ! 1 = sig))"

definition is_reference_array :: "vtype \<Rightarrow> bool" where
  "is_reference_array t = (is_x_array CHR ''L'' t \<or> is_x_array CHR ''['' t)"

definition to_category2_2nd :: "vtype \<Rightarrow> vtype" where
  "to_category2_2nd t = (if t = Long then Long_2nd else Double_2nd)"

text \<open>\<^verbatim>\<open>bci()\<close> is asked of uninitialized types only.\<close>

definition bci_of :: "vtype \<Rightarrow> nat" where
  "bci_of t = (case t of Uninitialized b \<Rightarrow> b | _ \<Rightarrow> 0)"

definition from_tag :: "nat \<Rightarrow> vtype res" where
  "from_tag tag =
     (if tag = 0 then Inr Bogus else if tag = 1 then Inr Integer else if tag = 2 then Inr Float
      else if tag = 3 then Inr Double else if tag = 4 then Inr Long else if tag = 5 then Inr Null
      else Inl (Fault ''ShouldNotReachHere''))"

text \<open>
  The loop of \<^verbatim>\<open>dimensions\<close>: the index is incremented by the test that ends the loop too, so
  the result is one more than the number of leading brackets.
\<close>

fun dimensions_loop :: "string \<Rightarrow> nat \<Rightarrow> nat res" where
  "dimensions_loop [] index = Inl (Fault ''byte_at'')"
| "dimensions_loop (c # cs) index =
     (if c = CHR ''['' then dimensions_loop cs (index + 1) else Inr (index + 1))"

definition dimensions :: "vtype \<Rightarrow> nat res" where
  "dimensions t = dimensions_loop (name_of t) 0"

definition get_component :: "vtype \<Rightarrow> vtype res" where
  "get_component t =
     (let n = name_of t in
      rbind (arr_get n 1) (\<lambda>c.
        if c = CHR ''Z'' then Inr Boolean
        else if c = CHR ''B'' then Inr Byte
        else if c = CHR ''C'' then Inr Char
        else if c = CHR ''S'' then Inr Short
        else if c = CHR ''I'' then Inr Integer
        else if c = CHR ''J'' then Inr Long
        else if c = CHR ''F'' then Inr Float
        else if c = CHR ''D'' then Inr Double
        else if c = CHR ''['' then Inr (Reference (drop 1 n))
        else if c = CHR ''L'' then
          (if length n < 3 then Inl (Fault ''SymbolTable::lookup'')
           else Inr (Reference (take (length n - 1 - 2) (drop 2 n))))
        else Inl (Fault ''ShouldNotReachHere'')))"

lemma get_component_shorter:
  assumes "is_array this" and "get_component this = Inr c"
  shows "length (name_of c) < length (name_of this)"
  using assms by (auto simp: get_component_def is_array_def arr_get_def Let_def
      split: vtype.splits if_splits)

section \<open>Assignability\<close>

text \<open>
  \<open>resolve\<close> is \<^verbatim>\<open>SystemDictionary::resolve_or_fail\<close> for the loader and protection domain of the
  class under verification: it may run a class loader written in Java, so it is a parameter.
\<close>

declare rbind_cong [fundef_cong]

function is_assignable_from :: "(string \<Rightarrow> klass res) \<Rightarrow> vtype \<Rightarrow> vtype \<Rightarrow> bool res"
  and is_reference_assignable_from :: "(string \<Rightarrow> klass res) \<Rightarrow> vtype \<Rightarrow> vtype \<Rightarrow> bool res"
where
  "is_assignable_from resolve this from =
     (if this = from \<or> this = Bogus then Inr True
      else
        (case this of
           Category1Query \<Rightarrow> Inr (is_category1 from)
         | Category2Query \<Rightarrow> Inr (is_category2 from)
         | Category2_2ndQuery \<Rightarrow> Inr (is_category2_2nd from)
         | ReferenceQuery \<Rightarrow> Inr (is_reference from \<or> is_uninitialized from)
         | Boolean \<Rightarrow> Inr (from = Integer)
         | Byte \<Rightarrow> Inr (from = Integer)
         | Char \<Rightarrow> Inr (from = Integer)
         | Short \<Rightarrow> Inr (from = Integer)
         | _ \<Rightarrow>
             (if is_reference this \<and> is_reference from
              then is_reference_assignable_from resolve this from
              else Inr False)))"
| "is_reference_assignable_from resolve this from =
     (if from = Null then Inr True
      else if this = Null then Inr False
      else if name_of this = name_of from then Inr True
      else if is_object this then
        (if name_of this = ''java/lang/Object'' then Inr True
         else
           rbind (resolve (name_of this)) (\<lambda>this_class.
             if k_is_interface this_class then Inr True
             else if is_object from then
               rbind (resolve (name_of from)) (\<lambda>from_class.
                 Inr (is_subclass_of from_class this_class))
             else Inr False))
      else if is_array this \<and> is_array from then
        rbind (get_component this) (\<lambda>comp_this.
          rbind (get_component from) (\<lambda>comp_from.
            is_assignable_from resolve comp_this comp_from))
      else Inr False)"
  by pat_completeness auto
termination
  by (relation "measure (case_sum (\<lambda>(r, this, from). 2 * length (name_of this) + 1)
                                  (\<lambda>(r, this, from). 2 * length (name_of this)))")
    (auto dest: get_component_shorter)

declare is_assignable_from.simps [simp del] is_reference_assignable_from.simps [simp del]

section \<open>The packed representation implements the datatype\<close>

lemma and_ne_clear: "\<not> bit d n \<Longrightarrow> bit v n \<Longrightarrow> d AND m \<noteq> (v :: uintptr)"
  by (auto simp: bit_and_iff)

lemma and_ne_set: "bit d n \<Longrightarrow> bit m n \<Longrightarrow> \<not> bit v n \<Longrightarrow> d AND m \<noteq> (v :: uintptr)"
  by (auto simp: bit_and_iff)

lemma handle_bits:
  assumes "(d :: uintptr) AND 3 = 0"
  shows "\<not> bit d 0" and "\<not> bit d 1"
  using assms and_ne_set [of d 0 3 0] and_ne_set [of d 1 3 0] by (auto simp: bit_numeral_rec)

lemma uninitialized_bits:
  "\<not> bit (raw_uninitialized_type bci) 0" "bit (raw_uninitialized_type bci) 1"
  by (auto simp: raw_uninitialized_type_def bit_or_iff bit_push_bit_iff bit_numeral_rec)

lemma raw_tests_of_bits:
  "\<not> bit d 0 \<Longrightarrow> raw_is_category1 d"
  "\<not> bit d 0 \<Longrightarrow> \<not> raw_is_category2 d"
  "\<not> bit d 0 \<Longrightarrow> \<not> raw_is_category2_2nd d"
  "\<not> bit d 0 \<Longrightarrow> \<not> raw_is_check d"
  "\<not> bit d 1 \<Longrightarrow> \<not> raw_is_uninitialized d"
  "bit d 1 \<Longrightarrow> raw_is_uninitialized d"
  "bit d 1 \<Longrightarrow> \<not> raw_is_reference d"
proof -
  show "\<not> bit d 0 \<Longrightarrow> raw_is_category1 d"
    unfolding raw_defs by (rule and_ne_clear [of _ 0]) (simp_all add: bit_0)
  show "\<not> bit d 0 \<Longrightarrow> \<not> raw_is_category2 d"
    unfolding raw_defs by (rule and_ne_clear [of _ 0]) (simp_all add: bit_0)
  show "\<not> bit d 0 \<Longrightarrow> \<not> raw_is_category2_2nd d"
    unfolding raw_defs by (rule and_ne_clear [of _ 0]) (simp_all add: bit_0)
  show "\<not> bit d 0 \<Longrightarrow> \<not> raw_is_check d"
    unfolding raw_defs by (rule and_ne_clear [of _ 0]) (simp_all add: bit_0)
  show "\<not> bit d 1 \<Longrightarrow> \<not> raw_is_uninitialized d"
    unfolding raw_defs by (rule and_ne_clear [of _ 1]) (simp_all add: bit_2_iff)
  show "bit d 1 \<Longrightarrow> \<not> raw_is_reference d"
    unfolding raw_defs by (rule and_ne_set [of _ 1]) (simp_all add: bit_numeral_rec)
  show "bit d 1 \<Longrightarrow> raw_is_uninitialized d"
    unfolding raw_defs by (rule bit_word_eqI) (auto simp: bit_and_iff bit_2_iff)
qed

lemmas raw_bits = raw_tests_of_bits handle_bits uninitialized_bits

lemma raw_bci_uninitialized_type:
  assumes "bci < 65536"
  shows "raw_bci (raw_uninitialized_type bci) = bci"
proof -
  have m: "(65535 :: uintptr) = mask 16" by (simp add: mask_eq_exp_minus_1)
  have "drop_bit 8 (raw_uninitialized_type bci AND BciMask) = (of_nat bci AND mask 16 :: uintptr)"
    unfolding raw_uninitialized_type_def BciMask_def m
    by (rule bit_word_eqI)
      (auto simp: bit_and_iff bit_or_iff bit_push_bit_iff bit_drop_bit_eq bit_2_iff bit_mask_iff)
  also have "\<dots> = of_nat bci"
    using assms by (simp add: word_unat_eq_iff take_bit_eq_mask [symmetric] unsigned_take_bit_eq unat_of_nat take_bit_nat_eq_self)
  finally show ?thesis using assms by (simp add: raw_bci_def unat_of_nat)
qed

fun decode :: "(uintptr \<Rightarrow> string) \<Rightarrow> uintptr \<Rightarrow> vtype" where
  "decode name d =
     (if d AND 3 = 0 then (if d = 0 then Null else Reference (name d))
      else if \<not> bit d 0 then Uninitialized (raw_bci d)
      else the (map_of (map (\<lambda>t. (raw_of t, t))
        [Bogus, Boolean, Byte, Short, Char, Integer, Float, Long, Double, Long_2nd, Double_2nd,
         ReferenceQuery, Category1Query, Category2Query, Category2_2ndQuery]) d))"

lemma raw_values:
  "raw_of Bogus = 4294902017" "raw_of Boolean = 590081" "raw_of Byte = 655617"
  "raw_of Short = 721153" "raw_of Char = 786689" "raw_of Integer = 65793" "raw_of Float = 131329"
  "raw_of Long = 262657" "raw_of Double = 197121" "raw_of Long_2nd = 852993"
  "raw_of Double_2nd = 918529" "raw_of ReferenceQuery = 3"
  "raw_of Category1Query = 259" "raw_of Category2Query = 515" "raw_of Category2_2ndQuery = 1027"
  by code_simp+

lemma raw_masks: "Category1 = 257" "Category2 = 513" "Category2_2nd = 1025"
  by code_simp+

lemmas raw_test_defs = raw_is_reference_def raw_is_category1_def raw_is_category2_def
  raw_is_category2_2nd_def raw_is_check_def raw_is_uninitialized_def raw_masks

lemma decode_represents:
  assumes "represents name d t" and "vtype_ok t"
  shows "decode name d = t"
proof (cases t)
  case (Uninitialized bci)
  with assms raw_bits show ?thesis
    by (auto simp: raw_bci_uninitialized_type raw_is_reference_def)
next
  case Null
  with assms show ?thesis by simp
qed (use assms in \<open>simp_all add: raw_values bit_0 del: raw_of.simps\<close>)

lemma raw_equals_eq:
  assumes "represents name d t" "vtype_ok t" "represents name e u" "vtype_ok u"
  shows "raw_equals name d e \<longleftrightarrow> t = u"
proof
  assume "raw_equals name d e"
  then consider "d = e" | "d AND 3 = 0" "e AND 3 = 0" "d \<noteq> 0" "e \<noteq> 0" "name d = name e"
    unfolding raw_equals_def raw_is_reference_def by blast
  then have "decode name d = decode name e" by cases simp_all
  with assms show "t = u" by (simp only: decode_represents)
next
  assume "t = u"
  with assms(1) have "represents name d u" by simp
  with assms(3) show "raw_equals name d e"
    by (cases u) (simp_all add: raw_equals_def raw_is_reference_def del: raw_of.simps)
qed

lemma raw_predicates:
  assumes "represents name d t"
  shows "raw_is_reference d = is_reference t \<and> raw_is_category1 d = is_category1 t \<and>
         raw_is_category2 d = is_category2 t \<and> raw_is_category2_2nd d = is_category2_2nd t \<and>
         raw_is_check d = is_check t \<and> raw_is_uninitialized d = is_uninitialized t"
proof (cases t)
  case (Reference n)
  with assms raw_bits show ?thesis
    by (simp add: vtype_pred_defs raw_is_reference_def)
next
  case (Uninitialized bci)
  with assms raw_bits show ?thesis by (simp add: vtype_pred_defs)
next
  case Null
  with assms show ?thesis by (simp add: raw_test_defs vtype_pred_defs)
qed (use assms in \<open>simp_all add: raw_values raw_test_defs vtype_pred_defs del: raw_of.simps\<close>)

section \<open>Assignability is a partial order up to mutual assignability\<close>

text \<open>
  What the class hierarchy guarantees: a resolved class has the name it was resolved by,
  \<^verbatim>\<open>java/lang/Object\<close> has no superclass, and it is the only proper superclass of an interface.
\<close>

definition resolve_wf :: "(string \<Rightarrow> klass res) \<Rightarrow> bool" where
  "resolve_wf resolve \<longleftrightarrow>
     (\<forall>n k. resolve n = Inr k \<longrightarrow>
        k_name k = n \<and> (n = ''java/lang/Object'' \<longrightarrow> k_super k = None) \<and>
        (k_is_interface k \<longrightarrow>
           (\<exists>ob. k_super k = Some ob \<and> k_name ob = ''java/lang/Object'' \<and> k_super ob = None)))"

definition assignable :: "(string \<Rightarrow> klass res) \<Rightarrow> vtype \<Rightarrow> vtype \<Rightarrow> bool" where
  "assignable resolve from this \<longleftrightarrow> is_assignable_from resolve this from = Inr True"

lemma assignable_refl [simp]: "assignable r t t"
  by (simp add: assignable_def is_assignable_from.simps)

lemma assignable_bogus [simp]: "assignable r t Bogus"
  by (simp add: assignable_def is_assignable_from.simps)

lemma assignable_unfold:
  assumes "assignable r a b" and "\<not> is_check b"
  shows "a = b \<or> b = Bogus \<or> b \<in> {Boolean, Byte, Char, Short} \<and> a = Integer \<or>
    is_reference b \<and> is_reference a \<and> is_reference_assignable_from r b a = Inr True"
  using assms is_assignable_from.simps [of r b a]
  by (cases b) (simp_all add: assignable_def is_check_def split: if_splits)

lemma reference_forms: "is_reference t \<Longrightarrow> t = Null \<or> (\<exists>n. t = Reference n)"
  by (cases t) (simp_all add: is_reference_def)

lemma assignable_cases:
  assumes "assignable r a b" and "\<not> is_check b"
  obtains "a = b" | "b = Bogus" | "b \<in> {Boolean, Byte, Char, Short}" "a = Integer"
    | n where "b = Reference n" "a = Null"
    | n m where "b = Reference n" "a = Reference m" "n \<noteq> m"
proof -
  from assignable_unfold [OF assms] reference_forms [of a] reference_forms [of b]
  have "a = b \<or> b = Bogus \<or> b \<in> {Boolean, Byte, Char, Short} \<and> a = Integer \<or>
    (\<exists>n. b = Reference n \<and> a = Null) \<or> (\<exists>n m. b = Reference n \<and> a = Reference m \<and> n \<noteq> m)"
    by (auto simp: is_reference_assignable_from.simps [of r Null])
  with that show thesis by blast
qed

lemma assignable_Integer_Null:
  "assignable r a Integer \<Longrightarrow> a = Integer" "assignable r a Null \<Longrightarrow> a = Null"
  by (erule assignable_cases, simp_all add: is_check_def)+

lemma assignable_null [simp]: "assignable r Null (Reference n)"
  by (simp add: assignable_def is_assignable_from.simps is_reference_assignable_from.simps
      is_reference_def)

lemma assignable_Reference:
  assumes "n \<noteq> m"
  shows "assignable r (Reference m) (Reference n) \<longleftrightarrow>
    (if is_object (Reference n) then
       n = ''java/lang/Object'' \<or>
       (\<exists>k. r n = Inr k \<and>
          (k_is_interface k \<or>
           is_object (Reference m) \<and> (\<exists>j. r m = Inr j \<and> is_subclass_of j k)))
     else
       is_array (Reference n) \<and> is_array (Reference m) \<and>
       (\<exists>cn cm. get_component (Reference n) = Inr cn \<and> get_component (Reference m) = Inr cm \<and>
          assignable r cm cn))"
  using assms
  by (auto simp: assignable_def is_assignable_from.simps [of _ "Reference _"]
      is_reference_assignable_from.simps is_reference_def)

lemma object_not_array: "is_object t \<Longrightarrow> \<not> is_array t"
  by (auto simp: is_object_def is_array_def split: vtype.splits)

lemma get_component_not_check: "get_component t = Inr c \<Longrightarrow> \<not> is_check c"
  by (auto simp: get_component_def is_check_def Let_def split: if_splits)

lemma subclass_class_class:
  assumes "resolve_wf r" and "r b = Inr kb" and "r c = Inr kc" and "b \<noteq> c"
    and "is_subclass_of kb kc"
  shows "b \<noteq> ''java/lang/Object'' \<and> (k_is_interface kb \<longrightarrow> c = ''java/lang/Object'')"
proof -
  from assms(1-3) have names: "k_name kb = b" "k_name kc = c" by (auto simp: resolve_wf_def)
  with assms(4,5) obtain t where t: "k_super kb = Some t" "is_subclass_of t kc"
    by (auto simp: is_subclass_of_unfold [of kb])
  with assms(1,2) have "b \<noteq> ''java/lang/Object''" by (auto simp: resolve_wf_def)
  moreover have "c = ''java/lang/Object''" if "k_is_interface kb"
  proof -
    from assms(1) [unfolded resolve_wf_def, rule_format, OF assms(2)] that t
    have "k_name t = ''java/lang/Object''" "k_super t = None" by auto
    with t(2) names show ?thesis by (auto simp: is_subclass_of_unfold [of t])
  qed
  ultimately show ?thesis by simp
qed

lemma assignable_trans_object:
  assumes wf: "resolve_wf r" and obj: "is_object (Reference c)"
    and neq: "b \<noteq> c" "a \<noteq> b" "a \<noteq> c"
    and ab: "assignable r (Reference a) (Reference b)"
    and bc: "assignable r (Reference b) (Reference c)"
  shows "assignable r (Reference a) (Reference c)"
proof (cases "c = ''java/lang/Object'' \<or> (\<exists>k. r c = Inr k \<and> k_is_interface k)")
  case True
  with obj neq show ?thesis by (auto simp: assignable_Reference)
next
  case False
  with bc obj neq obtain kc kb where k: "r c = Inr kc" "r b = Inr kb" "is_object (Reference b)"
    and sub: "is_subclass_of kb kc"
    by (auto simp: assignable_Reference)
  from subclass_class_class [OF wf k(2,1) neq(1) sub] False
  have nb: "b \<noteq> ''java/lang/Object''" "\<not> k_is_interface kb" by auto
  with ab k neq obtain ka where "r a = Inr ka" "is_object (Reference a)" "is_subclass_of ka kb"
    by (auto simp: assignable_Reference)
  with sub k obj neq show ?thesis
    by (auto simp: assignable_Reference intro: is_subclass_of_trans)
qed

lemma assignable_trans:
  assumes "resolve_wf r" and "assignable r a b" and "assignable r b c"
    and "\<not> is_check b" and "\<not> is_check c"
  shows "assignable r a c"
  using assms(2-)
proof (induction "length (name_of c)" arbitrary: a b c rule: less_induct)
  case less
  note bc = assignable_cases [OF less.prems(2,4)]
  note ab = assignable_cases [OF less.prems(1,3)]
  from bc show ?case
  proof cases
    case (5 n m)
    from ab show ?thesis
    proof cases
      case (5 n' m')
      with \<open>b = Reference m\<close> \<open>c = Reference n\<close> \<open>n \<noteq> m\<close>
      have abc: "a = Reference m'" "b = Reference m" "c = Reference n" "n \<noteq> m" "m \<noteq> m'" by auto
      show ?thesis
      proof (cases "m' = n")
        case False
        show ?thesis
        proof (cases "is_object c")
          case True
          with abc False less.prems assms(1) show ?thesis
            using assignable_trans_object [of r n m m'] by auto
        next
          case no: False
          with less.prems abc obtain cn cm where c: "is_array c" "is_array b"
              "get_component c = Inr cn" "get_component b = Inr cm" "assignable r cm cn"
            by (auto simp: assignable_Reference)
          from c(2) have "\<not> is_object b" using object_not_array by blast
          with c less.prems abc obtain ca where a: "is_array a" "get_component a = Inr ca"
              "assignable r ca cm"
            by (auto simp: assignable_Reference)
          have "assignable r ca cn"
            by (rule less.hyps [of cn ca cm])
              (use c a get_component_shorter get_component_not_check in auto)
          with c a no abc False show ?thesis by (auto simp: assignable_Reference)
        qed
      qed (use abc in simp)
    qed (use \<open>b = Reference m\<close> less.prems \<open>c = Reference n\<close> in simp_all)
  next
    case 3
    with less.prems(1,2) assignable_Integer_Null(1) show ?thesis by blast
  next
    case 4
    with less.prems(1) assignable_Integer_Null(2) [of r a] show ?thesis by simp
  qed (use less.prems in simp_all)
qed
section \<open>Arrays\<close>

lemma is_assignable_from_array:
  assumes "n \<noteq> m" and "is_array (Reference n)" and "is_array (Reference m)"
    and "get_component (Reference n) = Inr c" and "get_component (Reference m) = Inr d"
  shows "is_assignable_from r (Reference n) (Reference m) = is_assignable_from r c d"
proof -
  from assms(2) have "\<not> is_object (Reference n)" using object_not_array by blast
  with assms have "is_reference_assignable_from r (Reference n) (Reference m) = is_assignable_from r c d"
    by (subst is_reference_assignable_from.simps) simp
  with assms(1) show ?thesis
    by (subst is_assignable_from.simps) (simp add: is_reference_def)
qed

lemma small_from_int: "t \<in> {Boolean, Byte, Char, Short} \<Longrightarrow> is_assignable_from r t Integer = Inr True"
  by (subst is_assignable_from.simps) auto

lemma small_array_from_int:
  assumes "c \<in> set ''ZBCS''"
  shows "is_assignable_from resolve (Reference (replicate (Suc k) CHR ''['' @ [c]))
     (Reference (replicate (Suc k) CHR ''['' @ ''I'')) = Inr True"
proof (induction k)
  case 0
  obtain t where "get_component (Reference (''['' @ [c])) = Inr t" and "t \<in> {Boolean, Byte, Char, Short}"
    using assms by (auto simp: get_component_def)
  then show ?case
    using assms is_assignable_from_array [of "''['' @ [c]" "''[I''" t Integer resolve]
    by (auto simp: small_from_int is_array_def get_component_def [of "Reference ''[I''"])
next
  case (Suc k)
  have "replicate (Suc (Suc k)) CHR ''['' @ [c] \<noteq> replicate (Suc (Suc k)) CHR ''['' @ ''I''"
    using assms by auto
  from is_assignable_from_array [OF this] Suc show ?case
    by (simp add: is_array_def get_component_def)
qed

lemma dimensions_loop_replicate:
  "c \<noteq> CHR ''['' \<Longrightarrow> dimensions_loop (replicate k CHR ''['' @ c # rest) i = Inr (i + k + 1)"
  by (induction k arbitrary: i) auto

section \<open>A small class hierarchy\<close>

text \<open>\<open>B\<close> extends \<open>A\<close>, which extends \<open>Object\<close>; \<open>I\<close> is an interface.\<close>

definition ex_object :: klass where
  "ex_object = Klass ''java/lang/Object'' None None [] False [] []"

definition ex_a :: klass where
  "ex_a = Klass ''A'' (Some 1) (Some ex_object) [] False [Member ''x'' ''I'' True] []"

definition ex_b :: klass where
  "ex_b = Klass ''B'' (Some 1) (Some ex_a) [] False [] []"

definition ex_i :: klass where
  "ex_i = Klass ''I'' (Some 1) (Some ex_object) [] True [] []"

definition ex_resolve :: "string \<Rightarrow> klass res" where
  "ex_resolve n =
     (if n = ''java/lang/Object'' then Inr ex_object else if n = ''A'' then Inr ex_a
      else if n = ''B'' then Inr ex_b else if n = ''I'' then Inr ex_i
      else Inl (Pending ''NoClassDefFoundError''))"

lemma ex_resolve_wf: "resolve_wf ex_resolve"
  by (auto simp: resolve_wf_def ex_resolve_def ex_object_def ex_a_def ex_b_def ex_i_def
      split: if_splits)

section \<open>Properties\<close>

text \<open>
  C13. The mask tests of the packed representation compute the predicates of the datatype, for
  every value the representation has, and two words are equal as types exactly when they
  represent the same type.
\<close>

theorem packed_types_refine:
  assumes "represents name d t" and "vtype_ok t" and "represents name e u" and "vtype_ok u"
  shows "raw_is_reference d = is_reference t \<and> raw_is_category1 d = is_category1 t \<and>
         raw_is_category2 d = is_category2 t \<and> raw_is_category2_2nd d = is_category2_2nd t \<and>
         raw_is_check d = is_check t \<and> raw_is_uninitialized d = is_uninitialized t \<and>
         (raw_equals name d e \<longleftrightarrow> t = u)"
  using raw_predicates [OF assms(1)] raw_equals_eq [OF assms] by blast

theorem packed_types_refine_witness:
  "raw_is_reference 64 = is_reference (Reference ''A'') \<and>
   raw_is_category2 262657 = is_category2 Long \<and>
   (raw_equals (\<lambda>_. ''A'') 64 128 \<longleftrightarrow> Reference ''A'' = Reference ''A'')"
  using packed_types_refine [of "\<lambda>_. ''A''" 64 "Reference ''A''" 128 "Reference ''A''"]
    packed_types_refine [of "\<lambda>_. ''A''" 262657 Long 262657 Long]
  by (simp add: raw_values del: raw_of.simps)

text \<open>
  C10. Over a class hierarchy that is well formed, assignability between types that are not
  queries is reflexive and transitive: a value that may flow through an intermediate type may
  flow directly.
\<close>

theorem is_assignable_from_preorder:
  assumes "resolve_wf resolve" and "\<not> is_check b" and "\<not> is_check c"
  shows "is_assignable_from resolve a a = Inr True \<and>
    (is_assignable_from resolve b a = Inr True \<longrightarrow>
     is_assignable_from resolve c b = Inr True \<longrightarrow> is_assignable_from resolve c a = Inr True)"
  using assignable_refl [unfolded assignable_def, of resolve a]
    assignable_trans [unfolded assignable_def, OF assms(1) _ _ assms(2,3), of a]
  by blast

theorem is_assignable_from_preorder_witness:
  "is_assignable_from ex_resolve (Reference ''[Ljava/lang/Object;'') (Reference ''[LB;'') = Inr True"
proof -
  have "is_assignable_from ex_resolve (Reference ''[LA;'') (Reference ''[LB;'') = Inr True"
    and "is_assignable_from ex_resolve (Reference ''[Ljava/lang/Object;'') (Reference ''[LA;'') = Inr True"
    by code_simp+
  then show ?thesis
    using is_assignable_from_preorder [OF ex_resolve_wf,
        of "Reference ''[LA;''" "Reference ''[Ljava/lang/Object;''" "Reference ''[LB;''"]
    by (simp add: is_check_def)
qed

text \<open>
  C34. The component rule of arrays goes through the rule for single values, where an \<open>int\<close> may
  be stored into a \<open>boolean\<close>, \<open>byte\<close>, \<open>char\<close> or \<open>short\<close> slot. So the verifier takes an array of
  \<open>int\<close> for an array of any of the four smaller types, at every nesting of the array, whose
  elements have another size.
\<close>

theorem int_array_assignable_to_small_arrays:
  "c \<in> set ''ZBCS'' \<longrightarrow>
   is_assignable_from resolve (Reference (replicate (Suc k) CHR ''['' @ [c]))
     (Reference (replicate (Suc k) CHR ''['' @ ''I'')) = Inr True"
  using small_array_from_int by blast

theorem int_array_assignable_to_small_arrays_witness:
  "is_assignable_from ex_resolve (Reference ''[[B'') (Reference ''[[I'') = Inr True"
  using int_array_assignable_to_small_arrays [of "CHR ''B''" ex_resolve 1] by (simp add: numeral_2_eq_2)

text \<open>
  C35. \<^verbatim>\<open>dimensions()\<close> of an array type returns one more than the number of its dimensions.
\<close>

theorem dimensions_off_by_one:
  "c \<noteq> CHR ''['' \<Longrightarrow> dimensions (Reference (replicate k CHR ''['' @ c # rest)) = Inr (k + 1)"
  by (simp add: dimensions_def dimensions_loop_replicate)

theorem dimensions_off_by_one_witness:
  "dimensions (Reference ''[[I'') = Inr 3"
  using dimensions_off_by_one [of "CHR ''I''" 2 "[]"] by (simp add: numeral_2_eq_2)

end
