(* ===== verification/Bytecodes.thy ===== *)
theory Bytecodes
  imports Prelude
begin

text \<open>
  The bytecodes and their attributes (\<^verbatim>\<open>interpreter/bytecodes.hpp\<close>, \<^verbatim>\<open>bytecodes.cpp\<close>): the enumeration of
  the codes, the tables that \<^verbatim>\<open>Bytecodes::initialize()\<close> fills by one call of \<^verbatim>\<open>def\<close> for each code,
  the accessors, and the length of the instructions whose length the code alone does not
  determine. A code is an \<open>int\<close>, as the enumeration is, with \<open>- 1\<close> for \<^verbatim>\<open>_illegal\<close>. There are no
  platform specific codes (\<^verbatim>\<open>bytecodes_x86.hpp\<close>, \<^verbatim>\<open>bytecodes_sparc.hpp\<close>), so the tables have 231 entries.
\<close>

section \<open>The codes\<close>

abbreviation (input) bc_illegal :: int where "bc_illegal \<equiv> - 1"
abbreviation (input) bc_nop :: int where "bc_nop \<equiv> 0"
abbreviation (input) bc_aconst_null :: int where "bc_aconst_null \<equiv> 1"
abbreviation (input) bc_iconst_m1 :: int where "bc_iconst_m1 \<equiv> 2"
abbreviation (input) bc_iconst_0 :: int where "bc_iconst_0 \<equiv> 3"
abbreviation (input) bc_iconst_1 :: int where "bc_iconst_1 \<equiv> 4"
abbreviation (input) bc_iconst_2 :: int where "bc_iconst_2 \<equiv> 5"
abbreviation (input) bc_iconst_3 :: int where "bc_iconst_3 \<equiv> 6"
abbreviation (input) bc_iconst_4 :: int where "bc_iconst_4 \<equiv> 7"
abbreviation (input) bc_iconst_5 :: int where "bc_iconst_5 \<equiv> 8"
abbreviation (input) bc_lconst_0 :: int where "bc_lconst_0 \<equiv> 9"
abbreviation (input) bc_lconst_1 :: int where "bc_lconst_1 \<equiv> 10"
abbreviation (input) bc_fconst_0 :: int where "bc_fconst_0 \<equiv> 11"
abbreviation (input) bc_fconst_1 :: int where "bc_fconst_1 \<equiv> 12"
abbreviation (input) bc_fconst_2 :: int where "bc_fconst_2 \<equiv> 13"
abbreviation (input) bc_dconst_0 :: int where "bc_dconst_0 \<equiv> 14"
abbreviation (input) bc_dconst_1 :: int where "bc_dconst_1 \<equiv> 15"
abbreviation (input) bc_bipush :: int where "bc_bipush \<equiv> 16"
abbreviation (input) bc_sipush :: int where "bc_sipush \<equiv> 17"
abbreviation (input) bc_ldc :: int where "bc_ldc \<equiv> 18"
abbreviation (input) bc_ldc_w :: int where "bc_ldc_w \<equiv> 19"
abbreviation (input) bc_ldc2_w :: int where "bc_ldc2_w \<equiv> 20"
abbreviation (input) bc_iload :: int where "bc_iload \<equiv> 21"
abbreviation (input) bc_lload :: int where "bc_lload \<equiv> 22"
abbreviation (input) bc_fload :: int where "bc_fload \<equiv> 23"
abbreviation (input) bc_dload :: int where "bc_dload \<equiv> 24"
abbreviation (input) bc_aload :: int where "bc_aload \<equiv> 25"
abbreviation (input) bc_iload_0 :: int where "bc_iload_0 \<equiv> 26"
abbreviation (input) bc_iload_1 :: int where "bc_iload_1 \<equiv> 27"
abbreviation (input) bc_iload_2 :: int where "bc_iload_2 \<equiv> 28"
abbreviation (input) bc_iload_3 :: int where "bc_iload_3 \<equiv> 29"
abbreviation (input) bc_lload_0 :: int where "bc_lload_0 \<equiv> 30"
abbreviation (input) bc_lload_1 :: int where "bc_lload_1 \<equiv> 31"
abbreviation (input) bc_lload_2 :: int where "bc_lload_2 \<equiv> 32"
abbreviation (input) bc_lload_3 :: int where "bc_lload_3 \<equiv> 33"
abbreviation (input) bc_fload_0 :: int where "bc_fload_0 \<equiv> 34"
abbreviation (input) bc_fload_1 :: int where "bc_fload_1 \<equiv> 35"
abbreviation (input) bc_fload_2 :: int where "bc_fload_2 \<equiv> 36"
abbreviation (input) bc_fload_3 :: int where "bc_fload_3 \<equiv> 37"
abbreviation (input) bc_dload_0 :: int where "bc_dload_0 \<equiv> 38"
abbreviation (input) bc_dload_1 :: int where "bc_dload_1 \<equiv> 39"
abbreviation (input) bc_dload_2 :: int where "bc_dload_2 \<equiv> 40"
abbreviation (input) bc_dload_3 :: int where "bc_dload_3 \<equiv> 41"
abbreviation (input) bc_aload_0 :: int where "bc_aload_0 \<equiv> 42"
abbreviation (input) bc_aload_1 :: int where "bc_aload_1 \<equiv> 43"
abbreviation (input) bc_aload_2 :: int where "bc_aload_2 \<equiv> 44"
abbreviation (input) bc_aload_3 :: int where "bc_aload_3 \<equiv> 45"
abbreviation (input) bc_iaload :: int where "bc_iaload \<equiv> 46"
abbreviation (input) bc_laload :: int where "bc_laload \<equiv> 47"
abbreviation (input) bc_faload :: int where "bc_faload \<equiv> 48"
abbreviation (input) bc_daload :: int where "bc_daload \<equiv> 49"
abbreviation (input) bc_aaload :: int where "bc_aaload \<equiv> 50"
abbreviation (input) bc_baload :: int where "bc_baload \<equiv> 51"
abbreviation (input) bc_caload :: int where "bc_caload \<equiv> 52"
abbreviation (input) bc_saload :: int where "bc_saload \<equiv> 53"
abbreviation (input) bc_istore :: int where "bc_istore \<equiv> 54"
abbreviation (input) bc_lstore :: int where "bc_lstore \<equiv> 55"
abbreviation (input) bc_fstore :: int where "bc_fstore \<equiv> 56"
abbreviation (input) bc_dstore :: int where "bc_dstore \<equiv> 57"
abbreviation (input) bc_astore :: int where "bc_astore \<equiv> 58"
abbreviation (input) bc_istore_0 :: int where "bc_istore_0 \<equiv> 59"
abbreviation (input) bc_istore_1 :: int where "bc_istore_1 \<equiv> 60"
abbreviation (input) bc_istore_2 :: int where "bc_istore_2 \<equiv> 61"
abbreviation (input) bc_istore_3 :: int where "bc_istore_3 \<equiv> 62"
abbreviation (input) bc_lstore_0 :: int where "bc_lstore_0 \<equiv> 63"
abbreviation (input) bc_lstore_1 :: int where "bc_lstore_1 \<equiv> 64"
abbreviation (input) bc_lstore_2 :: int where "bc_lstore_2 \<equiv> 65"
abbreviation (input) bc_lstore_3 :: int where "bc_lstore_3 \<equiv> 66"
abbreviation (input) bc_fstore_0 :: int where "bc_fstore_0 \<equiv> 67"
abbreviation (input) bc_fstore_1 :: int where "bc_fstore_1 \<equiv> 68"
abbreviation (input) bc_fstore_2 :: int where "bc_fstore_2 \<equiv> 69"
abbreviation (input) bc_fstore_3 :: int where "bc_fstore_3 \<equiv> 70"
abbreviation (input) bc_dstore_0 :: int where "bc_dstore_0 \<equiv> 71"
abbreviation (input) bc_dstore_1 :: int where "bc_dstore_1 \<equiv> 72"
abbreviation (input) bc_dstore_2 :: int where "bc_dstore_2 \<equiv> 73"
abbreviation (input) bc_dstore_3 :: int where "bc_dstore_3 \<equiv> 74"
abbreviation (input) bc_astore_0 :: int where "bc_astore_0 \<equiv> 75"
abbreviation (input) bc_astore_1 :: int where "bc_astore_1 \<equiv> 76"
abbreviation (input) bc_astore_2 :: int where "bc_astore_2 \<equiv> 77"
abbreviation (input) bc_astore_3 :: int where "bc_astore_3 \<equiv> 78"
abbreviation (input) bc_iastore :: int where "bc_iastore \<equiv> 79"
abbreviation (input) bc_lastore :: int where "bc_lastore \<equiv> 80"
abbreviation (input) bc_fastore :: int where "bc_fastore \<equiv> 81"
abbreviation (input) bc_dastore :: int where "bc_dastore \<equiv> 82"
abbreviation (input) bc_aastore :: int where "bc_aastore \<equiv> 83"
abbreviation (input) bc_bastore :: int where "bc_bastore \<equiv> 84"
abbreviation (input) bc_castore :: int where "bc_castore \<equiv> 85"
abbreviation (input) bc_sastore :: int where "bc_sastore \<equiv> 86"
abbreviation (input) bc_pop :: int where "bc_pop \<equiv> 87"
abbreviation (input) bc_pop2 :: int where "bc_pop2 \<equiv> 88"
abbreviation (input) bc_dup :: int where "bc_dup \<equiv> 89"
abbreviation (input) bc_dup_x1 :: int where "bc_dup_x1 \<equiv> 90"
abbreviation (input) bc_dup_x2 :: int where "bc_dup_x2 \<equiv> 91"
abbreviation (input) bc_dup2 :: int where "bc_dup2 \<equiv> 92"
abbreviation (input) bc_dup2_x1 :: int where "bc_dup2_x1 \<equiv> 93"
abbreviation (input) bc_dup2_x2 :: int where "bc_dup2_x2 \<equiv> 94"
abbreviation (input) bc_swap :: int where "bc_swap \<equiv> 95"
abbreviation (input) bc_iadd :: int where "bc_iadd \<equiv> 96"
abbreviation (input) bc_ladd :: int where "bc_ladd \<equiv> 97"
abbreviation (input) bc_fadd :: int where "bc_fadd \<equiv> 98"
abbreviation (input) bc_dadd :: int where "bc_dadd \<equiv> 99"
abbreviation (input) bc_isub :: int where "bc_isub \<equiv> 100"
abbreviation (input) bc_lsub :: int where "bc_lsub \<equiv> 101"
abbreviation (input) bc_fsub :: int where "bc_fsub \<equiv> 102"
abbreviation (input) bc_dsub :: int where "bc_dsub \<equiv> 103"
abbreviation (input) bc_imul :: int where "bc_imul \<equiv> 104"
abbreviation (input) bc_lmul :: int where "bc_lmul \<equiv> 105"
abbreviation (input) bc_fmul :: int where "bc_fmul \<equiv> 106"
abbreviation (input) bc_dmul :: int where "bc_dmul \<equiv> 107"
abbreviation (input) bc_idiv :: int where "bc_idiv \<equiv> 108"
abbreviation (input) bc_ldiv :: int where "bc_ldiv \<equiv> 109"
abbreviation (input) bc_fdiv :: int where "bc_fdiv \<equiv> 110"
abbreviation (input) bc_ddiv :: int where "bc_ddiv \<equiv> 111"
abbreviation (input) bc_irem :: int where "bc_irem \<equiv> 112"
abbreviation (input) bc_lrem :: int where "bc_lrem \<equiv> 113"
abbreviation (input) bc_frem :: int where "bc_frem \<equiv> 114"
abbreviation (input) bc_drem :: int where "bc_drem \<equiv> 115"
abbreviation (input) bc_ineg :: int where "bc_ineg \<equiv> 116"
abbreviation (input) bc_lneg :: int where "bc_lneg \<equiv> 117"
abbreviation (input) bc_fneg :: int where "bc_fneg \<equiv> 118"
abbreviation (input) bc_dneg :: int where "bc_dneg \<equiv> 119"
abbreviation (input) bc_ishl :: int where "bc_ishl \<equiv> 120"
abbreviation (input) bc_lshl :: int where "bc_lshl \<equiv> 121"
abbreviation (input) bc_ishr :: int where "bc_ishr \<equiv> 122"
abbreviation (input) bc_lshr :: int where "bc_lshr \<equiv> 123"
abbreviation (input) bc_iushr :: int where "bc_iushr \<equiv> 124"
abbreviation (input) bc_lushr :: int where "bc_lushr \<equiv> 125"
abbreviation (input) bc_iand :: int where "bc_iand \<equiv> 126"
abbreviation (input) bc_land :: int where "bc_land \<equiv> 127"
abbreviation (input) bc_ior :: int where "bc_ior \<equiv> 128"
abbreviation (input) bc_lor :: int where "bc_lor \<equiv> 129"
abbreviation (input) bc_ixor :: int where "bc_ixor \<equiv> 130"
abbreviation (input) bc_lxor :: int where "bc_lxor \<equiv> 131"
abbreviation (input) bc_iinc :: int where "bc_iinc \<equiv> 132"
abbreviation (input) bc_i2l :: int where "bc_i2l \<equiv> 133"
abbreviation (input) bc_i2f :: int where "bc_i2f \<equiv> 134"
abbreviation (input) bc_i2d :: int where "bc_i2d \<equiv> 135"
abbreviation (input) bc_l2i :: int where "bc_l2i \<equiv> 136"
abbreviation (input) bc_l2f :: int where "bc_l2f \<equiv> 137"
abbreviation (input) bc_l2d :: int where "bc_l2d \<equiv> 138"
abbreviation (input) bc_f2i :: int where "bc_f2i \<equiv> 139"
abbreviation (input) bc_f2l :: int where "bc_f2l \<equiv> 140"
abbreviation (input) bc_f2d :: int where "bc_f2d \<equiv> 141"
abbreviation (input) bc_d2i :: int where "bc_d2i \<equiv> 142"
abbreviation (input) bc_d2l :: int where "bc_d2l \<equiv> 143"
abbreviation (input) bc_d2f :: int where "bc_d2f \<equiv> 144"
abbreviation (input) bc_i2b :: int where "bc_i2b \<equiv> 145"
abbreviation (input) bc_i2c :: int where "bc_i2c \<equiv> 146"
abbreviation (input) bc_i2s :: int where "bc_i2s \<equiv> 147"
abbreviation (input) bc_lcmp :: int where "bc_lcmp \<equiv> 148"
abbreviation (input) bc_fcmpl :: int where "bc_fcmpl \<equiv> 149"
abbreviation (input) bc_fcmpg :: int where "bc_fcmpg \<equiv> 150"
abbreviation (input) bc_dcmpl :: int where "bc_dcmpl \<equiv> 151"
abbreviation (input) bc_dcmpg :: int where "bc_dcmpg \<equiv> 152"
abbreviation (input) bc_ifeq :: int where "bc_ifeq \<equiv> 153"
abbreviation (input) bc_ifne :: int where "bc_ifne \<equiv> 154"
abbreviation (input) bc_iflt :: int where "bc_iflt \<equiv> 155"
abbreviation (input) bc_ifge :: int where "bc_ifge \<equiv> 156"
abbreviation (input) bc_ifgt :: int where "bc_ifgt \<equiv> 157"
abbreviation (input) bc_ifle :: int where "bc_ifle \<equiv> 158"
abbreviation (input) bc_if_icmpeq :: int where "bc_if_icmpeq \<equiv> 159"
abbreviation (input) bc_if_icmpne :: int where "bc_if_icmpne \<equiv> 160"
abbreviation (input) bc_if_icmplt :: int where "bc_if_icmplt \<equiv> 161"
abbreviation (input) bc_if_icmpge :: int where "bc_if_icmpge \<equiv> 162"
abbreviation (input) bc_if_icmpgt :: int where "bc_if_icmpgt \<equiv> 163"
abbreviation (input) bc_if_icmple :: int where "bc_if_icmple \<equiv> 164"
abbreviation (input) bc_if_acmpeq :: int where "bc_if_acmpeq \<equiv> 165"
abbreviation (input) bc_if_acmpne :: int where "bc_if_acmpne \<equiv> 166"
abbreviation (input) bc_goto :: int where "bc_goto \<equiv> 167"
abbreviation (input) bc_jsr :: int where "bc_jsr \<equiv> 168"
abbreviation (input) bc_ret :: int where "bc_ret \<equiv> 169"
abbreviation (input) bc_tableswitch :: int where "bc_tableswitch \<equiv> 170"
abbreviation (input) bc_lookupswitch :: int where "bc_lookupswitch \<equiv> 171"
abbreviation (input) bc_ireturn :: int where "bc_ireturn \<equiv> 172"
abbreviation (input) bc_lreturn :: int where "bc_lreturn \<equiv> 173"
abbreviation (input) bc_freturn :: int where "bc_freturn \<equiv> 174"
abbreviation (input) bc_dreturn :: int where "bc_dreturn \<equiv> 175"
abbreviation (input) bc_areturn :: int where "bc_areturn \<equiv> 176"
abbreviation (input) bc_return :: int where "bc_return \<equiv> 177"
abbreviation (input) bc_getstatic :: int where "bc_getstatic \<equiv> 178"
abbreviation (input) bc_putstatic :: int where "bc_putstatic \<equiv> 179"
abbreviation (input) bc_getfield :: int where "bc_getfield \<equiv> 180"
abbreviation (input) bc_putfield :: int where "bc_putfield \<equiv> 181"
abbreviation (input) bc_invokevirtual :: int where "bc_invokevirtual \<equiv> 182"
abbreviation (input) bc_invokespecial :: int where "bc_invokespecial \<equiv> 183"
abbreviation (input) bc_invokestatic :: int where "bc_invokestatic \<equiv> 184"
abbreviation (input) bc_invokeinterface :: int where "bc_invokeinterface \<equiv> 185"
abbreviation (input) bc_xxxunusedxxx :: int where "bc_xxxunusedxxx \<equiv> 186"
abbreviation (input) bc_new :: int where "bc_new \<equiv> 187"
abbreviation (input) bc_newarray :: int where "bc_newarray \<equiv> 188"
abbreviation (input) bc_anewarray :: int where "bc_anewarray \<equiv> 189"
abbreviation (input) bc_arraylength :: int where "bc_arraylength \<equiv> 190"
abbreviation (input) bc_athrow :: int where "bc_athrow \<equiv> 191"
abbreviation (input) bc_checkcast :: int where "bc_checkcast \<equiv> 192"
abbreviation (input) bc_instanceof :: int where "bc_instanceof \<equiv> 193"
abbreviation (input) bc_monitorenter :: int where "bc_monitorenter \<equiv> 194"
abbreviation (input) bc_monitorexit :: int where "bc_monitorexit \<equiv> 195"
abbreviation (input) bc_wide :: int where "bc_wide \<equiv> 196"
abbreviation (input) bc_multianewarray :: int where "bc_multianewarray \<equiv> 197"
abbreviation (input) bc_ifnull :: int where "bc_ifnull \<equiv> 198"
abbreviation (input) bc_ifnonnull :: int where "bc_ifnonnull \<equiv> 199"
abbreviation (input) bc_goto_w :: int where "bc_goto_w \<equiv> 200"
abbreviation (input) bc_jsr_w :: int where "bc_jsr_w \<equiv> 201"
abbreviation (input) bc_breakpoint :: int where "bc_breakpoint \<equiv> 202"
abbreviation (input) number_of_java_codes :: int where "number_of_java_codes \<equiv> 203"
abbreviation (input) bc_fast_agetfield :: int where "bc_fast_agetfield \<equiv> 203"
abbreviation (input) bc_fast_bgetfield :: int where "bc_fast_bgetfield \<equiv> 204"
abbreviation (input) bc_fast_cgetfield :: int where "bc_fast_cgetfield \<equiv> 205"
abbreviation (input) bc_fast_dgetfield :: int where "bc_fast_dgetfield \<equiv> 206"
abbreviation (input) bc_fast_fgetfield :: int where "bc_fast_fgetfield \<equiv> 207"
abbreviation (input) bc_fast_igetfield :: int where "bc_fast_igetfield \<equiv> 208"
abbreviation (input) bc_fast_lgetfield :: int where "bc_fast_lgetfield \<equiv> 209"
abbreviation (input) bc_fast_sgetfield :: int where "bc_fast_sgetfield \<equiv> 210"
abbreviation (input) bc_fast_aputfield :: int where "bc_fast_aputfield \<equiv> 211"
abbreviation (input) bc_fast_bputfield :: int where "bc_fast_bputfield \<equiv> 212"
abbreviation (input) bc_fast_cputfield :: int where "bc_fast_cputfield \<equiv> 213"
abbreviation (input) bc_fast_dputfield :: int where "bc_fast_dputfield \<equiv> 214"
abbreviation (input) bc_fast_fputfield :: int where "bc_fast_fputfield \<equiv> 215"
abbreviation (input) bc_fast_iputfield :: int where "bc_fast_iputfield \<equiv> 216"
abbreviation (input) bc_fast_lputfield :: int where "bc_fast_lputfield \<equiv> 217"
abbreviation (input) bc_fast_sputfield :: int where "bc_fast_sputfield \<equiv> 218"
abbreviation (input) bc_fast_aload_0 :: int where "bc_fast_aload_0 \<equiv> 219"
abbreviation (input) bc_fast_iaccess_0 :: int where "bc_fast_iaccess_0 \<equiv> 220"
abbreviation (input) bc_fast_aaccess_0 :: int where "bc_fast_aaccess_0 \<equiv> 221"
abbreviation (input) bc_fast_faccess_0 :: int where "bc_fast_faccess_0 \<equiv> 222"
abbreviation (input) bc_fast_iload :: int where "bc_fast_iload \<equiv> 223"
abbreviation (input) bc_fast_iload2 :: int where "bc_fast_iload2 \<equiv> 224"
abbreviation (input) bc_fast_icaload :: int where "bc_fast_icaload \<equiv> 225"
abbreviation (input) bc_fast_invokevfinal :: int where "bc_fast_invokevfinal \<equiv> 226"
abbreviation (input) bc_fast_linearswitch :: int where "bc_fast_linearswitch \<equiv> 227"
abbreviation (input) bc_fast_binaryswitch :: int where "bc_fast_binaryswitch \<equiv> 228"
abbreviation (input) bc_return_register_finalizer :: int where "bc_return_register_finalizer \<equiv> 229"
abbreviation (input) bc_shouldnotreachhere :: int where "bc_shouldnotreachhere \<equiv> 230"
abbreviation (input) number_of_codes :: int where "number_of_codes \<equiv> 231"

section \<open>The table of attributes\<close>

datatype BasicType =
    T_BOOLEAN | T_CHAR | T_FLOAT | T_DOUBLE | T_BYTE | T_SHORT | T_INT | T_LONG
  | T_OBJECT | T_ARRAY | T_VOID | T_ADDRESS | T_NARROWOOP | T_CONFLICT | T_ILLEGAL

text \<open>The arguments of one call of \<^verbatim>\<open>def\<close>; the form with seven arguments passes the code itself as the last.\<close>

datatype bc_def = Def
  (d_code: int) (d_name: string) (d_format: "string option") (d_wide_format: "string option")
  (d_result_type: BasicType) (d_depth: int) (d_can_trap: bool) (d_java_code: int)

definition java_defs_1 :: "bc_def list" where
  "java_defs_1 =
    [Def bc_nop ''nop'' (Some ''b'') None T_VOID 0 False bc_nop,
     Def bc_aconst_null ''aconst_null'' (Some ''b'') None T_OBJECT 1 False bc_aconst_null,
     Def bc_iconst_m1 ''iconst_m1'' (Some ''b'') None T_INT 1 False bc_iconst_m1,
     Def bc_iconst_0 ''iconst_0'' (Some ''b'') None T_INT 1 False bc_iconst_0,
     Def bc_iconst_1 ''iconst_1'' (Some ''b'') None T_INT 1 False bc_iconst_1,
     Def bc_iconst_2 ''iconst_2'' (Some ''b'') None T_INT 1 False bc_iconst_2,
     Def bc_iconst_3 ''iconst_3'' (Some ''b'') None T_INT 1 False bc_iconst_3,
     Def bc_iconst_4 ''iconst_4'' (Some ''b'') None T_INT 1 False bc_iconst_4,
     Def bc_iconst_5 ''iconst_5'' (Some ''b'') None T_INT 1 False bc_iconst_5,
     Def bc_lconst_0 ''lconst_0'' (Some ''b'') None T_LONG 2 False bc_lconst_0,
     Def bc_lconst_1 ''lconst_1'' (Some ''b'') None T_LONG 2 False bc_lconst_1,
     Def bc_fconst_0 ''fconst_0'' (Some ''b'') None T_FLOAT 1 False bc_fconst_0,
     Def bc_fconst_1 ''fconst_1'' (Some ''b'') None T_FLOAT 1 False bc_fconst_1,
     Def bc_fconst_2 ''fconst_2'' (Some ''b'') None T_FLOAT 1 False bc_fconst_2,
     Def bc_dconst_0 ''dconst_0'' (Some ''b'') None T_DOUBLE 2 False bc_dconst_0,
     Def bc_dconst_1 ''dconst_1'' (Some ''b'') None T_DOUBLE 2 False bc_dconst_1,
     Def bc_bipush ''bipush'' (Some ''bc'') None T_INT 1 False bc_bipush,
     Def bc_sipush ''sipush'' (Some ''bcc'') None T_INT 1 False bc_sipush,
     Def bc_ldc ''ldc'' (Some ''bi'') None T_ILLEGAL 1 True bc_ldc,
     Def bc_ldc_w ''ldc_w'' (Some ''bii'') None T_ILLEGAL 1 True bc_ldc_w,
     Def bc_ldc2_w ''ldc2_w'' (Some ''bii'') None T_ILLEGAL 2 True bc_ldc2_w,
     Def bc_iload ''iload'' (Some ''bi'') (Some ''wbii'') T_INT 1 False bc_iload,
     Def bc_lload ''lload'' (Some ''bi'') (Some ''wbii'') T_LONG 2 False bc_lload,
     Def bc_fload ''fload'' (Some ''bi'') (Some ''wbii'') T_FLOAT 1 False bc_fload,
     Def bc_dload ''dload'' (Some ''bi'') (Some ''wbii'') T_DOUBLE 2 False bc_dload,
     Def bc_aload ''aload'' (Some ''bi'') (Some ''wbii'') T_OBJECT 1 False bc_aload,
     Def bc_iload_0 ''iload_0'' (Some ''b'') None T_INT 1 False bc_iload_0,
     Def bc_iload_1 ''iload_1'' (Some ''b'') None T_INT 1 False bc_iload_1,
     Def bc_iload_2 ''iload_2'' (Some ''b'') None T_INT 1 False bc_iload_2,
     Def bc_iload_3 ''iload_3'' (Some ''b'') None T_INT 1 False bc_iload_3,
     Def bc_lload_0 ''lload_0'' (Some ''b'') None T_LONG 2 False bc_lload_0,
     Def bc_lload_1 ''lload_1'' (Some ''b'') None T_LONG 2 False bc_lload_1,
     Def bc_lload_2 ''lload_2'' (Some ''b'') None T_LONG 2 False bc_lload_2,
     Def bc_lload_3 ''lload_3'' (Some ''b'') None T_LONG 2 False bc_lload_3,
     Def bc_fload_0 ''fload_0'' (Some ''b'') None T_FLOAT 1 False bc_fload_0,
     Def bc_fload_1 ''fload_1'' (Some ''b'') None T_FLOAT 1 False bc_fload_1,
     Def bc_fload_2 ''fload_2'' (Some ''b'') None T_FLOAT 1 False bc_fload_2,
     Def bc_fload_3 ''fload_3'' (Some ''b'') None T_FLOAT 1 False bc_fload_3,
     Def bc_dload_0 ''dload_0'' (Some ''b'') None T_DOUBLE 2 False bc_dload_0,
     Def bc_dload_1 ''dload_1'' (Some ''b'') None T_DOUBLE 2 False bc_dload_1,
     Def bc_dload_2 ''dload_2'' (Some ''b'') None T_DOUBLE 2 False bc_dload_2,
     Def bc_dload_3 ''dload_3'' (Some ''b'') None T_DOUBLE 2 False bc_dload_3,
     Def bc_aload_0 ''aload_0'' (Some ''b'') None T_OBJECT 1 True bc_aload_0,
     Def bc_aload_1 ''aload_1'' (Some ''b'') None T_OBJECT 1 False bc_aload_1,
     Def bc_aload_2 ''aload_2'' (Some ''b'') None T_OBJECT 1 False bc_aload_2,
     Def bc_aload_3 ''aload_3'' (Some ''b'') None T_OBJECT 1 False bc_aload_3,
     Def bc_iaload ''iaload'' (Some ''b'') None T_INT (-1) True bc_iaload,
     Def bc_laload ''laload'' (Some ''b'') None T_LONG 0 True bc_laload,
     Def bc_faload ''faload'' (Some ''b'') None T_FLOAT (-1) True bc_faload,
     Def bc_daload ''daload'' (Some ''b'') None T_DOUBLE 0 True bc_daload,
     Def bc_aaload ''aaload'' (Some ''b'') None T_OBJECT (-1) True bc_aaload,
     Def bc_baload ''baload'' (Some ''b'') None T_INT (-1) True bc_baload,
     Def bc_caload ''caload'' (Some ''b'') None T_INT (-1) True bc_caload,
     Def bc_saload ''saload'' (Some ''b'') None T_INT (-1) True bc_saload,
     Def bc_istore ''istore'' (Some ''bi'') (Some ''wbii'') T_VOID (-1) False bc_istore,
     Def bc_lstore ''lstore'' (Some ''bi'') (Some ''wbii'') T_VOID (-2) False bc_lstore,
     Def bc_fstore ''fstore'' (Some ''bi'') (Some ''wbii'') T_VOID (-1) False bc_fstore,
     Def bc_dstore ''dstore'' (Some ''bi'') (Some ''wbii'') T_VOID (-2) False bc_dstore,
     Def bc_astore ''astore'' (Some ''bi'') (Some ''wbii'') T_VOID (-1) False bc_astore,
     Def bc_istore_0 ''istore_0'' (Some ''b'') None T_VOID (-1) False bc_istore_0,
     Def bc_istore_1 ''istore_1'' (Some ''b'') None T_VOID (-1) False bc_istore_1,
     Def bc_istore_2 ''istore_2'' (Some ''b'') None T_VOID (-1) False bc_istore_2,
     Def bc_istore_3 ''istore_3'' (Some ''b'') None T_VOID (-1) False bc_istore_3,
     Def bc_lstore_0 ''lstore_0'' (Some ''b'') None T_VOID (-2) False bc_lstore_0,
     Def bc_lstore_1 ''lstore_1'' (Some ''b'') None T_VOID (-2) False bc_lstore_1,
     Def bc_lstore_2 ''lstore_2'' (Some ''b'') None T_VOID (-2) False bc_lstore_2,
     Def bc_lstore_3 ''lstore_3'' (Some ''b'') None T_VOID (-2) False bc_lstore_3,
     Def bc_fstore_0 ''fstore_0'' (Some ''b'') None T_VOID (-1) False bc_fstore_0,
     Def bc_fstore_1 ''fstore_1'' (Some ''b'') None T_VOID (-1) False bc_fstore_1,
     Def bc_fstore_2 ''fstore_2'' (Some ''b'') None T_VOID (-1) False bc_fstore_2,
     Def bc_fstore_3 ''fstore_3'' (Some ''b'') None T_VOID (-1) False bc_fstore_3,
     Def bc_dstore_0 ''dstore_0'' (Some ''b'') None T_VOID (-2) False bc_dstore_0,
     Def bc_dstore_1 ''dstore_1'' (Some ''b'') None T_VOID (-2) False bc_dstore_1,
     Def bc_dstore_2 ''dstore_2'' (Some ''b'') None T_VOID (-2) False bc_dstore_2,
     Def bc_dstore_3 ''dstore_3'' (Some ''b'') None T_VOID (-2) False bc_dstore_3,
     Def bc_astore_0 ''astore_0'' (Some ''b'') None T_VOID (-1) False bc_astore_0,
     Def bc_astore_1 ''astore_1'' (Some ''b'') None T_VOID (-1) False bc_astore_1,
     Def bc_astore_2 ''astore_2'' (Some ''b'') None T_VOID (-1) False bc_astore_2,
     Def bc_astore_3 ''astore_3'' (Some ''b'') None T_VOID (-1) False bc_astore_3,
     Def bc_iastore ''iastore'' (Some ''b'') None T_VOID (-3) True bc_iastore,
     Def bc_lastore ''lastore'' (Some ''b'') None T_VOID (-4) True bc_lastore,
     Def bc_fastore ''fastore'' (Some ''b'') None T_VOID (-3) True bc_fastore,
     Def bc_dastore ''dastore'' (Some ''b'') None T_VOID (-4) True bc_dastore,
     Def bc_aastore ''aastore'' (Some ''b'') None T_VOID (-3) True bc_aastore,
     Def bc_bastore ''bastore'' (Some ''b'') None T_VOID (-3) True bc_bastore,
     Def bc_castore ''castore'' (Some ''b'') None T_VOID (-3) True bc_castore,
     Def bc_sastore ''sastore'' (Some ''b'') None T_VOID (-3) True bc_sastore,
     Def bc_pop ''pop'' (Some ''b'') None T_VOID (-1) False bc_pop,
     Def bc_pop2 ''pop2'' (Some ''b'') None T_VOID (-2) False bc_pop2,
     Def bc_dup ''dup'' (Some ''b'') None T_VOID 1 False bc_dup,
     Def bc_dup_x1 ''dup_x1'' (Some ''b'') None T_VOID 1 False bc_dup_x1,
     Def bc_dup_x2 ''dup_x2'' (Some ''b'') None T_VOID 1 False bc_dup_x2,
     Def bc_dup2 ''dup2'' (Some ''b'') None T_VOID 2 False bc_dup2,
     Def bc_dup2_x1 ''dup2_x1'' (Some ''b'') None T_VOID 2 False bc_dup2_x1,
     Def bc_dup2_x2 ''dup2_x2'' (Some ''b'') None T_VOID 2 False bc_dup2_x2,
     Def bc_swap ''swap'' (Some ''b'') None T_VOID 0 False bc_swap,
     Def bc_iadd ''iadd'' (Some ''b'') None T_INT (-1) False bc_iadd,
     Def bc_ladd ''ladd'' (Some ''b'') None T_LONG (-2) False bc_ladd,
     Def bc_fadd ''fadd'' (Some ''b'') None T_FLOAT (-1) False bc_fadd,
     Def bc_dadd ''dadd'' (Some ''b'') None T_DOUBLE (-2) False bc_dadd,
     Def bc_isub ''isub'' (Some ''b'') None T_INT (-1) False bc_isub,
     Def bc_lsub ''lsub'' (Some ''b'') None T_LONG (-2) False bc_lsub]"

definition java_defs_2 :: "bc_def list" where
  "java_defs_2 =
    [Def bc_fsub ''fsub'' (Some ''b'') None T_FLOAT (-1) False bc_fsub,
     Def bc_dsub ''dsub'' (Some ''b'') None T_DOUBLE (-2) False bc_dsub,
     Def bc_imul ''imul'' (Some ''b'') None T_INT (-1) False bc_imul,
     Def bc_lmul ''lmul'' (Some ''b'') None T_LONG (-2) False bc_lmul,
     Def bc_fmul ''fmul'' (Some ''b'') None T_FLOAT (-1) False bc_fmul,
     Def bc_dmul ''dmul'' (Some ''b'') None T_DOUBLE (-2) False bc_dmul,
     Def bc_idiv ''idiv'' (Some ''b'') None T_INT (-1) True bc_idiv,
     Def bc_ldiv ''ldiv'' (Some ''b'') None T_LONG (-2) True bc_ldiv,
     Def bc_fdiv ''fdiv'' (Some ''b'') None T_FLOAT (-1) False bc_fdiv,
     Def bc_ddiv ''ddiv'' (Some ''b'') None T_DOUBLE (-2) False bc_ddiv,
     Def bc_irem ''irem'' (Some ''b'') None T_INT (-1) True bc_irem,
     Def bc_lrem ''lrem'' (Some ''b'') None T_LONG (-2) True bc_lrem,
     Def bc_frem ''frem'' (Some ''b'') None T_FLOAT (-1) False bc_frem,
     Def bc_drem ''drem'' (Some ''b'') None T_DOUBLE (-2) False bc_drem,
     Def bc_ineg ''ineg'' (Some ''b'') None T_INT 0 False bc_ineg,
     Def bc_lneg ''lneg'' (Some ''b'') None T_LONG 0 False bc_lneg,
     Def bc_fneg ''fneg'' (Some ''b'') None T_FLOAT 0 False bc_fneg,
     Def bc_dneg ''dneg'' (Some ''b'') None T_DOUBLE 0 False bc_dneg,
     Def bc_ishl ''ishl'' (Some ''b'') None T_INT (-1) False bc_ishl,
     Def bc_lshl ''lshl'' (Some ''b'') None T_LONG (-1) False bc_lshl,
     Def bc_ishr ''ishr'' (Some ''b'') None T_INT (-1) False bc_ishr,
     Def bc_lshr ''lshr'' (Some ''b'') None T_LONG (-1) False bc_lshr,
     Def bc_iushr ''iushr'' (Some ''b'') None T_INT (-1) False bc_iushr,
     Def bc_lushr ''lushr'' (Some ''b'') None T_LONG (-1) False bc_lushr,
     Def bc_iand ''iand'' (Some ''b'') None T_INT (-1) False bc_iand,
     Def bc_land ''land'' (Some ''b'') None T_LONG (-2) False bc_land,
     Def bc_ior ''ior'' (Some ''b'') None T_INT (-1) False bc_ior,
     Def bc_lor ''lor'' (Some ''b'') None T_LONG (-2) False bc_lor,
     Def bc_ixor ''ixor'' (Some ''b'') None T_INT (-1) False bc_ixor,
     Def bc_lxor ''lxor'' (Some ''b'') None T_LONG (-2) False bc_lxor,
     Def bc_iinc ''iinc'' (Some ''bic'') (Some ''wbiicc'') T_VOID 0 False bc_iinc,
     Def bc_i2l ''i2l'' (Some ''b'') None T_LONG 1 False bc_i2l,
     Def bc_i2f ''i2f'' (Some ''b'') None T_FLOAT 0 False bc_i2f,
     Def bc_i2d ''i2d'' (Some ''b'') None T_DOUBLE 1 False bc_i2d,
     Def bc_l2i ''l2i'' (Some ''b'') None T_INT (-1) False bc_l2i,
     Def bc_l2f ''l2f'' (Some ''b'') None T_FLOAT (-1) False bc_l2f,
     Def bc_l2d ''l2d'' (Some ''b'') None T_DOUBLE 0 False bc_l2d,
     Def bc_f2i ''f2i'' (Some ''b'') None T_INT 0 False bc_f2i,
     Def bc_f2l ''f2l'' (Some ''b'') None T_LONG 1 False bc_f2l,
     Def bc_f2d ''f2d'' (Some ''b'') None T_DOUBLE 1 False bc_f2d,
     Def bc_d2i ''d2i'' (Some ''b'') None T_INT (-1) False bc_d2i,
     Def bc_d2l ''d2l'' (Some ''b'') None T_LONG 0 False bc_d2l,
     Def bc_d2f ''d2f'' (Some ''b'') None T_FLOAT (-1) False bc_d2f,
     Def bc_i2b ''i2b'' (Some ''b'') None T_BYTE 0 False bc_i2b,
     Def bc_i2c ''i2c'' (Some ''b'') None T_CHAR 0 False bc_i2c,
     Def bc_i2s ''i2s'' (Some ''b'') None T_SHORT 0 False bc_i2s,
     Def bc_lcmp ''lcmp'' (Some ''b'') None T_VOID (-3) False bc_lcmp,
     Def bc_fcmpl ''fcmpl'' (Some ''b'') None T_VOID (-1) False bc_fcmpl,
     Def bc_fcmpg ''fcmpg'' (Some ''b'') None T_VOID (-1) False bc_fcmpg,
     Def bc_dcmpl ''dcmpl'' (Some ''b'') None T_VOID (-3) False bc_dcmpl,
     Def bc_dcmpg ''dcmpg'' (Some ''b'') None T_VOID (-3) False bc_dcmpg,
     Def bc_ifeq ''ifeq'' (Some ''boo'') None T_VOID (-1) False bc_ifeq,
     Def bc_ifne ''ifne'' (Some ''boo'') None T_VOID (-1) False bc_ifne,
     Def bc_iflt ''iflt'' (Some ''boo'') None T_VOID (-1) False bc_iflt,
     Def bc_ifge ''ifge'' (Some ''boo'') None T_VOID (-1) False bc_ifge,
     Def bc_ifgt ''ifgt'' (Some ''boo'') None T_VOID (-1) False bc_ifgt,
     Def bc_ifle ''ifle'' (Some ''boo'') None T_VOID (-1) False bc_ifle,
     Def bc_if_icmpeq ''if_icmpeq'' (Some ''boo'') None T_VOID (-2) False bc_if_icmpeq,
     Def bc_if_icmpne ''if_icmpne'' (Some ''boo'') None T_VOID (-2) False bc_if_icmpne,
     Def bc_if_icmplt ''if_icmplt'' (Some ''boo'') None T_VOID (-2) False bc_if_icmplt,
     Def bc_if_icmpge ''if_icmpge'' (Some ''boo'') None T_VOID (-2) False bc_if_icmpge,
     Def bc_if_icmpgt ''if_icmpgt'' (Some ''boo'') None T_VOID (-2) False bc_if_icmpgt,
     Def bc_if_icmple ''if_icmple'' (Some ''boo'') None T_VOID (-2) False bc_if_icmple,
     Def bc_if_acmpeq ''if_acmpeq'' (Some ''boo'') None T_VOID (-2) False bc_if_acmpeq,
     Def bc_if_acmpne ''if_acmpne'' (Some ''boo'') None T_VOID (-2) False bc_if_acmpne,
     Def bc_goto ''goto'' (Some ''boo'') None T_VOID 0 False bc_goto,
     Def bc_jsr ''jsr'' (Some ''boo'') None T_INT 0 False bc_jsr,
     Def bc_ret ''ret'' (Some ''bi'') (Some ''wbii'') T_VOID 0 False bc_ret,
     Def bc_tableswitch ''tableswitch'' (Some '''') None T_VOID (-1) False bc_tableswitch,
     Def bc_lookupswitch ''lookupswitch'' (Some '''') None T_VOID (-1) False bc_lookupswitch,
     Def bc_ireturn ''ireturn'' (Some ''b'') None T_INT (-1) True bc_ireturn,
     Def bc_lreturn ''lreturn'' (Some ''b'') None T_LONG (-2) True bc_lreturn,
     Def bc_freturn ''freturn'' (Some ''b'') None T_FLOAT (-1) True bc_freturn,
     Def bc_dreturn ''dreturn'' (Some ''b'') None T_DOUBLE (-2) True bc_dreturn,
     Def bc_areturn ''areturn'' (Some ''b'') None T_OBJECT (-1) True bc_areturn,
     Def bc_return ''return'' (Some ''b'') None T_VOID 0 True bc_return,
     Def bc_getstatic ''getstatic'' (Some ''bjj'') None T_ILLEGAL 1 True bc_getstatic,
     Def bc_putstatic ''putstatic'' (Some ''bjj'') None T_ILLEGAL (-1) True bc_putstatic,
     Def bc_getfield ''getfield'' (Some ''bjj'') None T_ILLEGAL 0 True bc_getfield,
     Def bc_putfield ''putfield'' (Some ''bjj'') None T_ILLEGAL (-2) True bc_putfield,
     Def bc_invokevirtual ''invokevirtual'' (Some ''bjj'') None T_ILLEGAL (-1) True bc_invokevirtual,
     Def bc_invokespecial ''invokespecial'' (Some ''bjj'') None T_ILLEGAL (-1) True bc_invokespecial,
     Def bc_invokestatic ''invokestatic'' (Some ''bjj'') None T_ILLEGAL 0 True bc_invokestatic,
     Def bc_invokeinterface ''invokeinterface'' (Some ''bjj__'') None T_ILLEGAL (-1) True bc_invokeinterface,
     Def bc_xxxunusedxxx ''xxxunusedxxx'' None None T_VOID 0 False bc_xxxunusedxxx,
     Def bc_new ''new'' (Some ''bii'') None T_OBJECT 1 True bc_new,
     Def bc_newarray ''newarray'' (Some ''bc'') None T_OBJECT 0 True bc_newarray,
     Def bc_anewarray ''anewarray'' (Some ''bii'') None T_OBJECT 0 True bc_anewarray,
     Def bc_arraylength ''arraylength'' (Some ''b'') None T_VOID 0 True bc_arraylength,
     Def bc_athrow ''athrow'' (Some ''b'') None T_VOID (-1) True bc_athrow,
     Def bc_checkcast ''checkcast'' (Some ''bii'') None T_OBJECT 0 True bc_checkcast,
     Def bc_instanceof ''instanceof'' (Some ''bii'') None T_INT 0 True bc_instanceof,
     Def bc_monitorenter ''monitorenter'' (Some ''b'') None T_VOID (-1) True bc_monitorenter,
     Def bc_monitorexit ''monitorexit'' (Some ''b'') None T_VOID (-1) True bc_monitorexit,
     Def bc_wide ''wide'' (Some '''') None T_VOID 0 False bc_wide,
     Def bc_multianewarray ''multianewarray'' (Some ''biic'') None T_OBJECT 1 True bc_multianewarray,
     Def bc_ifnull ''ifnull'' (Some ''boo'') None T_VOID (-1) False bc_ifnull,
     Def bc_ifnonnull ''ifnonnull'' (Some ''boo'') None T_VOID (-1) False bc_ifnonnull,
     Def bc_goto_w ''goto_w'' (Some ''boooo'') None T_VOID 0 False bc_goto_w,
     Def bc_jsr_w ''jsr_w'' (Some ''boooo'') None T_INT 0 False bc_jsr_w,
     Def bc_breakpoint ''breakpoint'' (Some '''') None T_VOID 0 True bc_breakpoint]"

definition jvm_defs :: "bc_def list" where
  "jvm_defs =
    [Def bc_fast_agetfield ''fast_agetfield'' (Some ''bjj'') None T_OBJECT 0 True bc_getfield,
     Def bc_fast_bgetfield ''fast_bgetfield'' (Some ''bjj'') None T_INT 0 True bc_getfield,
     Def bc_fast_cgetfield ''fast_cgetfield'' (Some ''bjj'') None T_CHAR 0 True bc_getfield,
     Def bc_fast_dgetfield ''fast_dgetfield'' (Some ''bjj'') None T_DOUBLE 0 True bc_getfield,
     Def bc_fast_fgetfield ''fast_fgetfield'' (Some ''bjj'') None T_FLOAT 0 True bc_getfield,
     Def bc_fast_igetfield ''fast_igetfield'' (Some ''bjj'') None T_INT 0 True bc_getfield,
     Def bc_fast_lgetfield ''fast_lgetfield'' (Some ''bjj'') None T_LONG 0 True bc_getfield,
     Def bc_fast_sgetfield ''fast_sgetfield'' (Some ''bjj'') None T_SHORT 0 True bc_getfield,
     Def bc_fast_aputfield ''fast_aputfield'' (Some ''bjj'') None T_OBJECT 0 True bc_putfield,
     Def bc_fast_bputfield ''fast_bputfield'' (Some ''bjj'') None T_INT 0 True bc_putfield,
     Def bc_fast_cputfield ''fast_cputfield'' (Some ''bjj'') None T_CHAR 0 True bc_putfield,
     Def bc_fast_dputfield ''fast_dputfield'' (Some ''bjj'') None T_DOUBLE 0 True bc_putfield,
     Def bc_fast_fputfield ''fast_fputfield'' (Some ''bjj'') None T_FLOAT 0 True bc_putfield,
     Def bc_fast_iputfield ''fast_iputfield'' (Some ''bjj'') None T_INT 0 True bc_putfield,
     Def bc_fast_lputfield ''fast_lputfield'' (Some ''bjj'') None T_LONG 0 True bc_putfield,
     Def bc_fast_sputfield ''fast_sputfield'' (Some ''bjj'') None T_SHORT 0 True bc_putfield,
     Def bc_fast_aload_0 ''fast_aload_0'' (Some ''b'') None T_OBJECT 1 True bc_aload_0,
     Def bc_fast_iaccess_0 ''fast_iaccess_0'' (Some ''b_jj'') None T_INT 1 True bc_aload_0,
     Def bc_fast_aaccess_0 ''fast_aaccess_0'' (Some ''b_jj'') None T_OBJECT 1 True bc_aload_0,
     Def bc_fast_faccess_0 ''fast_faccess_0'' (Some ''b_jj'') None T_OBJECT 1 True bc_aload_0,
     Def bc_fast_iload ''fast_iload'' (Some ''bi'') None T_INT 1 False bc_iload,
     Def bc_fast_iload2 ''fast_iload2'' (Some ''bi_i'') None T_INT 2 False bc_iload,
     Def bc_fast_icaload ''fast_icaload'' (Some ''bi_'') None T_INT 0 False bc_iload,
     Def bc_fast_invokevfinal ''fast_invokevfinal'' (Some ''bjj'') None T_ILLEGAL (-1) True bc_invokevirtual,
     Def bc_fast_linearswitch ''fast_linearswitch'' (Some '''') None T_VOID (-1) False bc_lookupswitch,
     Def bc_fast_binaryswitch ''fast_binaryswitch'' (Some '''') None T_VOID (-1) False bc_lookupswitch,
     Def bc_return_register_finalizer ''return_register_finalizer'' (Some ''b'') None T_VOID 0 True bc_return,
     Def bc_shouldnotreachhere ''_shouldnotreachhere'' (Some ''b'') None T_VOID 0 False bc_shouldnotreachhere]"

text \<open>The arrays that \<^verbatim>\<open>def\<close> writes, by index.\<close>

record bc_tables =
  t_name :: "int \<Rightarrow> string option"
  t_format :: "int \<Rightarrow> string option"
  t_wide_format :: "int \<Rightarrow> string option"
  t_result_type :: "int \<Rightarrow> BasicType option"
  t_depth :: "int \<Rightarrow> int"
  t_length :: "int \<Rightarrow> int"
  t_can_trap :: "int \<Rightarrow> bool"
  t_java_code :: "int \<Rightarrow> int"
  t_can_rewrite :: "int \<Rightarrow> bool"

definition zero_tables :: bc_tables where
  "zero_tables = \<lparr> t_name = (\<lambda>_. None), t_format = (\<lambda>_. None), t_wide_format = (\<lambda>_. None),
     t_result_type = (\<lambda>_. None), t_depth = (\<lambda>_. 0), t_length = (\<lambda>_. 0),
     t_can_trap = (\<lambda>_. False), t_java_code = (\<lambda>_. 0), t_can_rewrite = (\<lambda>_. False) \<rparr>"

definition def_bc :: "bc_def \<Rightarrow> bc_tables \<Rightarrow> bc_tables" where
  "def_bc d t =
     (let c = d_code d;
          t = t\<lparr> t_name := (t_name t)(c := Some (d_name d)),
                 t_format := (t_format t)(c := d_format d),
                 t_wide_format := (t_wide_format t)(c := d_wide_format d),
                 t_result_type := (t_result_type t)(c := Some (d_result_type d)),
                 t_depth := (t_depth t)(c := d_depth d),
                 t_can_trap := (t_can_trap t)(c := d_can_trap d),
                 t_length := (t_length t)(c :=
                   (case d_format d of None \<Rightarrow> 0 | Some f \<Rightarrow> int (length f) mod 256)),
                 t_java_code := (t_java_code t)(c := d_java_code d) \<rparr>
      in if d_java_code d \<noteq> c
         then t\<lparr> t_can_rewrite := (t_can_rewrite t)(d_java_code d := True) \<rparr>
         else t)"

definition all_defs :: "bc_def list" where
  "all_defs = java_defs_1 @ java_defs_2 @ jvm_defs"

definition initialize :: bc_tables where
  "initialize = fold def_bc all_defs zero_tables"

section \<open>Accessors\<close>

definition is_defined :: "int \<Rightarrow> bool" where
  "is_defined code \<longleftrightarrow> 0 \<le> code \<and> code < number_of_codes \<and> t_format initialize code \<noteq> None"

definition wide_is_defined :: "int \<Rightarrow> bool" where
  "wide_is_defined code \<longleftrightarrow> is_defined code \<and> t_wide_format initialize code \<noteq> None"

definition is_java_code :: "int \<Rightarrow> bool" where
  "is_java_code code \<longleftrightarrow> 0 \<le> code \<and> code < number_of_java_codes"

text \<open>
  \<^verbatim>\<open>length_for\<close> does not check its argument and the callers pass any byte. \<open>beyond\<close> is what
  memory holds after the array \<^verbatim>\<open>_length\<close>, whose elements are \<open>u_char\<close>.
\<close>

definition length_for :: "(int \<Rightarrow> u1) \<Rightarrow> int \<Rightarrow> int" where
  "length_for beyond code =
     (if code < number_of_codes then t_length initialize code else uint (beyond code))"

definition depth :: "int \<Rightarrow> int" where
  "depth code = t_depth initialize code"

definition wide_length_for :: "int \<Rightarrow> int" where
  "wide_length_for code =
     (if \<not> is_defined code then 0
      else (case t_wide_format initialize code of None \<Rightarrow> 0 | Some f \<Rightarrow> int (length f)))"

definition is_aload :: "int \<Rightarrow> bool" where
  "is_aload code \<longleftrightarrow> code = bc_aload \<or> code = bc_aload_0 \<or> code = bc_aload_1 \<or> code = bc_aload_2 \<or>
     code = bc_aload_3"

definition is_astore :: "int \<Rightarrow> bool" where
  "is_astore code \<longleftrightarrow> code = bc_astore \<or> code = bc_astore_0 \<or> code = bc_astore_1 \<or>
     code = bc_astore_2 \<or> code = bc_astore_3"

definition is_zero_const :: "int \<Rightarrow> bool" where
  "is_zero_const code \<longleftrightarrow> code = bc_aconst_null \<or> code = bc_iconst_0 \<or> code = bc_fconst_0 \<or>
     code = bc_dconst_0"

section \<open>Reading the tables\<close>

lemmas all_defs_unfold = all_defs_def java_defs_1_def java_defs_2_def jvm_defs_def

fun numbered :: "int \<Rightarrow> bc_def list \<Rightarrow> bool" where
  "numbered i [] = True"
| "numbered i (d # ds) = (d_code d = i \<and> numbered (i + 1) ds)"

lemma numbered_nth: "numbered i ds \<Longrightarrow> n < length ds \<Longrightarrow> d_code (ds ! n) = i + int n"
  by (induction ds arbitrary: i n) (auto simp: nth_Cons split: nat.splits)

lemma numbered_distinct: "numbered i ds \<Longrightarrow> distinct (map d_code ds)"
  by (auto simp: distinct_conv_nth numbered_nth)

lemma codes_in_order: "numbered 0 all_defs"
  by (simp add: all_defs_unfold)

lemma all_defs_length: "length all_defs = 231"
  by (simp add: all_defs_unfold)

lemma entry_code: "n < 231 \<Longrightarrow> d_code (all_defs ! n) = int n"
  using numbered_nth [OF codes_in_order, of n] by (simp add: all_defs_length)

lemmas distinct_codes = numbered_distinct [OF codes_in_order]

lemma def_bc_fields [simp]:
  "t_format (def_bc d t) = (t_format t)(d_code d := d_format d)"
  "t_wide_format (def_bc d t) = (t_wide_format t)(d_code d := d_wide_format d)"
  "t_result_type (def_bc d t) = (t_result_type t)(d_code d := Some (d_result_type d))"
  "t_depth (def_bc d t) = (t_depth t)(d_code d := d_depth d)"
  "t_length (def_bc d t) = (t_length t)(d_code d :=
     (case d_format d of None \<Rightarrow> 0 | Some f \<Rightarrow> int (length f) mod 256))"
  "t_can_trap (def_bc d t) = (t_can_trap t)(d_code d := d_can_trap d)"
  "t_java_code (def_bc d t) = (t_java_code t)(d_code d := d_java_code d)"
  "t_can_rewrite (def_bc d t) c \<longleftrightarrow>
     t_can_rewrite t c \<or> d_java_code d \<noteq> d_code d \<and> d_java_code d = c"
  by (auto simp: def_bc_def Let_def)

text \<open>A field that each \<open>def\<close> sets at its own code holds, at the end, what the entry of the code says.\<close>

lemma fold_field:
  assumes "\<And>d t. g (def_bc d t) = (g t)(d_code d := v d)"
    and "distinct (map d_code ds)" and "d \<in> set ds"
  shows "g (fold def_bc ds t) (d_code d) = v d"
proof -
  have other: "g (fold def_bc es t) c = g t c" if "c \<notin> d_code ` set es" for es t c
    using that by (induction es arbitrary: t) (auto simp: assms(1))
  from assms(2,3) show ?thesis
    by (induction ds arbitrary: t) (auto simp: other assms(1))
qed

lemma initialize_entry:
  assumes "0 \<le> c" and "c < number_of_codes"
  defines "d \<equiv> all_defs ! nat c"
  shows "t_format initialize c = d_format d" "t_wide_format initialize c = d_wide_format d"
    "t_result_type initialize c = Some (d_result_type d)" "t_depth initialize c = d_depth d"
    "t_length initialize c = (case d_format d of None \<Rightarrow> 0 | Some f \<Rightarrow> int (length f) mod 256)"
    "t_can_trap initialize c = d_can_trap d" "t_java_code initialize c = d_java_code d"
proof -
  from assms have c: "d_code d = c" and d: "d \<in> set all_defs"
    by (auto simp: entry_code all_defs_length)
  note field = fold_field [OF _ distinct_codes d, where t = zero_tables, folded initialize_def]
  show "t_format initialize c = d_format d"
    using field [where g = t_format and v = "d_format"] by (simp add: c)
  show "t_wide_format initialize c = d_wide_format d"
    using field [where g = t_wide_format and v = "d_wide_format"] by (simp add: c)
  show "t_result_type initialize c = Some (d_result_type d)"
    using field [where g = t_result_type and v = "\<lambda>d. Some (d_result_type d)"] by (simp add: c)
  show "t_depth initialize c = d_depth d"
    using field [where g = t_depth and v = "d_depth"] by (simp add: c)
  show "t_length initialize c = (case d_format d of None \<Rightarrow> 0 | Some f \<Rightarrow> int (length f) mod 256)"
    using field [where g = t_length and v = "\<lambda>d. case d_format d of None \<Rightarrow> 0 | Some f \<Rightarrow> int (length f) mod 256"] by (simp add: c)
  show "t_can_trap initialize c = d_can_trap d"
    using field [where g = t_can_trap and v = "d_can_trap"] by (simp add: c)
  show "t_java_code initialize c = d_java_code d"
    using field [where g = t_java_code and v = "d_java_code"] by (simp add: c)
qed

lemma forall_codes:
  assumes "list_all P all_defs" and "0 \<le> c" and "c < number_of_codes"
  shows "P (all_defs ! nat c)"
  using assms by (auto simp: list_all_length all_defs_length)


text \<open>
  The codes whose instructions have no fixed length and those that \<^verbatim>\<open>wide\<close> may precede; and the lengths of the
  instructions by their operands, as the class file format gives them, and for the VM's own codes by what they replace.
\<close>

definition variable_codes :: "int set" where
  "variable_codes = {bc_tableswitch, bc_lookupswitch, bc_wide, bc_breakpoint, bc_fast_linearswitch, bc_fast_binaryswitch}"

definition instruction_length :: "int \<Rightarrow> int" where
  "instruction_length c =
     (if c \<in> variable_codes then 0
      else if c \<in> {bc_bipush, bc_ldc, bc_ret, bc_newarray, bc_fast_iload} \<union> {bc_iload..bc_aload} \<union> {bc_istore..bc_astore}
      then 2
      else if c \<in> {bc_sipush, bc_ldc_w, bc_ldc2_w, bc_iinc, bc_new, bc_anewarray, bc_checkcast, bc_instanceof, bc_ifnull,
          bc_ifnonnull, bc_fast_icaload, bc_fast_invokevfinal} \<union> {bc_ifeq..bc_jsr} \<union> {bc_getstatic..bc_invokestatic} \<union>
          {bc_fast_agetfield..bc_fast_sputfield}
      then 3
      else if c \<in> {bc_multianewarray, bc_fast_iaccess_0, bc_fast_aaccess_0, bc_fast_faccess_0, bc_fast_iload2} then 4
      else if c \<in> {bc_invokeinterface, bc_goto_w, bc_jsr_w} then 5
      else 1)"

definition wide_codes :: "int set" where
  "wide_codes = {bc_iload, bc_lload, bc_fload, bc_dload, bc_aload, bc_istore, bc_lstore, bc_fstore,
     bc_dstore, bc_astore, bc_ret, bc_iinc}"

lemma entry_lengths:
  "list_all (\<lambda>d. case d_format d of
       None \<Rightarrow> d_code d = bc_xxxunusedxxx
     | Some f \<Rightarrow> d_code d \<noteq> bc_xxxunusedxxx \<and> int (length f) = instruction_length (d_code d)) all_defs"
  by (simp add: all_defs_unfold instruction_length_def variable_codes_def)

lemma instruction_length_le: "0 \<le> instruction_length c \<and> instruction_length c \<le> 5"
  by (simp add: instruction_length_def)

lemma entry_wide_lengths:
  "list_all (\<lambda>d. case d_wide_format d of
       None \<Rightarrow> d_code d \<notin> wide_codes
     | Some f \<Rightarrow> d_code d \<in> wide_codes \<and> d_format d \<noteq> None \<and>
         length f = (if d_code d = bc_iinc then 6 else 4)) all_defs"
  by (simp add: all_defs_unfold wide_codes_def)

definition base_codes :: "int set" where
  "base_codes = {bc_getfield, bc_putfield, bc_aload_0, bc_iload, bc_invokevirtual, bc_lookupswitch,
     bc_return}"

lemma entry_base_codes:
  "list_all (\<lambda>d. d_java_code d = d_code d \<or>
     d_code d \<ge> number_of_java_codes \<and> d_java_code d \<in> base_codes \<and>
     (d_can_trap d \<longrightarrow> d_java_code d \<notin> {bc_iload, bc_lookupswitch})) all_defs"
  by (simp add: all_defs_unfold base_codes_def)

lemma base_entries:
  "list_all (\<lambda>d. d_code d \<in> base_codes \<longrightarrow> d_java_code d = d_code d \<and> d_format d \<noteq> None \<and>
     (d_code d \<notin> {bc_iload, bc_lookupswitch} \<longrightarrow> d_can_trap d)) all_defs"
  by (simp add: all_defs_unfold base_codes_def)

lemma code_entry: "0 \<le> c \<Longrightarrow> c < number_of_codes \<Longrightarrow> d_code (all_defs ! nat c) = c"
  by (simp add: entry_code)

lemma length_for_exact:
  assumes "0 \<le> c" and "c < number_of_codes"
  shows "length_for beyond c = (if is_defined c then instruction_length c else 0)"
    and "is_defined c \<longleftrightarrow> c \<noteq> bc_xxxunusedxxx"
  using assms forall_codes [OF entry_lengths assms] instruction_length_le [of c]
  by (auto simp: length_for_def is_defined_def initialize_entry code_entry split: option.splits)

lemma length_for_range:
  assumes "0 \<le> c" and "c < number_of_codes"
  shows "0 \<le> length_for beyond c \<and> length_for beyond c \<le> 5"
  using length_for_exact(1) [OF assms] instruction_length_le by simp

lemma wide_length_for_eq:
  "wide_length_for c = (if c \<in> wide_codes then if c = bc_iinc then 6 else 4 else 0)"
proof (cases "0 \<le> c \<and> c < number_of_codes")
  case True
  with forall_codes [OF entry_wide_lengths, of c] show ?thesis
    by (auto simp: wide_length_for_def is_defined_def initialize_entry code_entry
        split: option.splits)
next
  case False
  then have "c \<notin> wide_codes" by (auto simp: wide_codes_def)
  with False show ?thesis by (auto simp: wide_length_for_def is_defined_def)
qed

text \<open>The lengths by ranges of codes, each range up to its last code. The tables need not be built to evaluate it.\<close>

fun range_length :: "(int \<times> int) list \<Rightarrow> int \<Rightarrow> int" where
  "range_length [] c = 0"
| "range_length ((hi, n) # rs) c = (if c \<le> hi then n else range_length rs c)"

definition length_ranges :: "(int \<times> int) list" where
  "length_ranges = [(-1, 0), (15, 1), (16, 2), (17, 3), (18, 2), (20, 3), (25, 2), (53, 1), (58, 2), (131, 1), (132, 3),
     (152, 1), (168, 3), (169, 2), (171, 0), (177, 1), (184, 3), (185, 5), (186, 0), (187, 3), (188, 2), (189, 3),
     (191, 1), (193, 3), (195, 1), (196, 0), (197, 4), (199, 3), (201, 5), (202, 0), (218, 3), (219, 1), (222, 4),
     (223, 2), (224, 4), (226, 3), (228, 0), (230, 1)]"

lemma entry_ranges:
  "list_all (\<lambda>d. range_length length_ranges (d_code d) =
     (case d_format d of None \<Rightarrow> 0 | Some f \<Rightarrow> int (length f) mod 256)) all_defs"
  by (simp add: all_defs_unfold length_ranges_def)

lemma initialize_negative: "c < 0 \<Longrightarrow> t_length initialize c = 0"
proof -
  assume c: "c < 0"
  have other: "c \<notin> set (map d_code ds) \<Longrightarrow> t_length (fold def_bc ds t) c = t_length t c" for ds t
    by (induction ds arbitrary: t) (auto simp: def_bc_def Let_def)
  have "c \<notin> set (map d_code all_defs)"
    using c numbered_nth [OF codes_in_order] by (auto simp: in_set_conv_nth)
  from other [OF this] show ?thesis by (simp add: initialize_def zero_tables_def)
qed

lemma length_for_ranges [code]:
  "length_for beyond c = (if c < number_of_codes then range_length length_ranges c else uint (beyond c))"
proof (cases "0 \<le> c \<and> c < number_of_codes")
  case True
  with forall_codes [OF entry_ranges, of c] show ?thesis by (simp add: length_for_def initialize_entry code_entry)
next
  case False
  then show ?thesis by (auto simp: length_for_def initialize_negative length_ranges_def)
qed

lemmas wide_length_for_code [code] = wide_length_for_eq

text \<open>The depths of the Java codes, an equation for each code.\<close>

lemma depth_entries: "list_all (\<lambda>d. depth (d_code d) = d_depth d) (java_defs_1 @ java_defs_2)"
proof -
  have "depth (d_code d) = d_depth d" if "d \<in> set all_defs" for d
    using fold_field [OF _ distinct_codes that, where g = t_depth and v = d_depth and t = zero_tables, folded initialize_def]
    by (simp add: depth_def)
  then show ?thesis by (auto simp: list_all_iff all_defs_def)
qed

lemmas depth_values = depth_entries [unfolded java_defs_1_def java_defs_2_def, simplified]

section \<open>Properties\<close>

text \<open>
  C36. The tables have the lengths of the instructions: every code but the unused one exists, and its entry is the number of
  bytes of the instruction, zero for those whose length varies. With \<^verbatim>\<open>wide\<close> in front, exactly the loads and stores
  of local variables, \<^verbatim>\<open>ret\<close> and \<^verbatim>\<open>iinc\<close> have a length, 4 or, for \<^verbatim>\<open>iinc\<close>, 6.
\<close>

theorem code_lengths:
  assumes "0 \<le> c" and "c < number_of_codes"
  shows "(is_defined c \<longleftrightarrow> c \<noteq> bc_xxxunusedxxx) \<and>
    length_for beyond c = (if is_defined c then instruction_length c else 0) \<and>
    wide_length_for c = (if c \<in> wide_codes then if c = bc_iinc then 6 else 4 else 0)"
  using length_for_exact [OF assms] wide_length_for_eq by blast

theorem code_lengths_witness:
  "length_for (\<lambda>_. 0) bc_goto = 3 \<and> wide_length_for bc_goto = 0 \<and> length_for (\<lambda>_. 0) bc_xxxunusedxxx = 0"
  using code_lengths [of bc_goto "\<lambda>_. 0"] code_lengths [of bc_xxxunusedxxx "\<lambda>_. 0"]
  by (simp add: instruction_length_def variable_codes_def wide_codes_def)

text \<open>
  C37. The codes of the VM are bound to Java codes: the Java code of every code is a Java code that
  stands for itself, and it can trap when the code can. The source checks the second part with an
  assertion after the tables have been filled.
\<close>

theorem java_codes_trap:
  assumes "0 \<le> c" and "c < number_of_codes"
  shows "let j = t_java_code initialize c in
    0 \<le> j \<and> j < number_of_codes \<and> t_java_code initialize j = j \<and> (c < number_of_java_codes \<longrightarrow> j = c) \<and>
    (t_can_trap initialize c \<longrightarrow> t_can_trap initialize j)"
proof -
  have b: "0 \<le> j \<and> j < number_of_codes" if "j \<in> base_codes" for j using that by (auto simp: base_codes_def)
  note e = forall_codes [OF entry_base_codes assms]
  show ?thesis
  proof (cases "t_java_code initialize c = c")
    case True
    with assms show ?thesis by simp
  next
    case False
    let ?j = "t_java_code initialize c"
    from False e assms have j: "?j \<in> base_codes" and c: "c \<ge> number_of_java_codes"
      and t: "t_can_trap initialize c \<longrightarrow> ?j \<notin> {bc_iload, bc_lookupswitch}"
      by (simp_all add: initialize_entry code_entry)
    from forall_codes [OF base_entries] b [OF j] j have "t_java_code initialize ?j = ?j"
        "?j \<notin> {bc_iload, bc_lookupswitch} \<longrightarrow> t_can_trap initialize ?j"
      by (simp_all add: initialize_entry code_entry)
    with t c b [OF j] show ?thesis by (simp add: Let_def)
  qed
qed

theorem java_codes_trap_witness:
  "0 \<le> t_java_code initialize bc_fast_agetfield \<and>
   t_java_code initialize (t_java_code initialize bc_fast_agetfield) = t_java_code initialize bc_fast_agetfield"
  using java_codes_trap [of bc_fast_agetfield] by (simp add: Let_def)

end
