(* ===== verification/Signatures.thy ===== *)
theory Signatures
  imports VerificationType Bytecodes
begin

text \<open>
  Descriptors of fields and methods (\<^verbatim>\<open>runtime/signature.hpp\<close>, \<^verbatim>\<open>signature.cpp\<close>): the stream that
  delivers the types of a descriptor one by one (\<^verbatim>\<open>SignatureStream\<close>), the iterator behind
  \<^verbatim>\<open>ArgumentSizeComputer\<close>, the syntax check (\<^verbatim>\<open>SignatureVerifier\<close>), and the translation of the current
  type of a stream into verification types (\<^verbatim>\<open>ClassVerifier::change_sig_to_verificationType\<close>). A
  read outside of the symbol is a fault.

  The reference is the grammar in the comment of \<^verbatim>\<open>signature.cpp\<close>, as the datatype \<open>jtype\<close> with its
  printer \<open>desc\<close>. The lemmas show that the stream, the iterator and the check agree with it.
\<close>

section \<open>SignatureStream\<close>

record sig_stream =
  ss_sig :: string
  ss_begin :: nat
  ss_end :: nat
  ss_type :: BasicType
  ss_at_return_type :: bool

text \<open>\<open>while (sig->byte_at(_end++) != ';');\<close>\<close>

function scan_semicolon :: "string \<Rightarrow> nat \<Rightarrow> nat res" where
  "scan_semicolon sig e =
     rbind (arr_get sig e) (\<lambda>c. if c \<noteq> CHR '';'' then scan_semicolon sig (e + 1) else Inr (e + 1))"
  by pat_completeness auto
termination
  by (relation "measure (\<lambda>(sig, e). length sig - e)") (auto simp: arr_get_Inr)

definition is_digit :: "char \<Rightarrow> bool" where
  "is_digit c \<longleftrightarrow> of_char CHR ''0'' \<le> (of_char c :: nat) \<and> (of_char c :: nat) \<le> of_char CHR ''9''"

text \<open>\<open>while ('0' <= c && c <= '9') c = sig->byte_at(_end++);\<close>\<close>

function skip_digits :: "string \<Rightarrow> char \<Rightarrow> nat \<Rightarrow> nat res" where
  "skip_digits sig c e =
     (if is_digit c then rbind (arr_get sig e) (\<lambda>c'. skip_digits sig c' (e + 1)) else Inr e)"
  by pat_completeness auto
termination
  by (relation "measure (\<lambda>(sig, c, e). length sig - e)") (auto simp: arr_get_Inr)

declare scan_semicolon.simps [simp del] skip_digits.simps [simp del]

lemma skip_digits_le: "skip_digits sig c e = Inr e' \<Longrightarrow> e \<le> e'"
proof (induction sig c e rule: skip_digits.induct)
  case (1 sig c e)
  from "1.prems" [unfolded skip_digits.simps [of sig c e]] "1.IH" show ?case
    by (fastforce split: if_splits)
qed

function skip_dimensions :: "string \<Rightarrow> nat \<Rightarrow> nat res" where
  "skip_dimensions sig e =
     rbind (arr_get sig e) (\<lambda>b.
       if b = CHR ''['' then
         rbind (arr_get sig (e + 1)) (\<lambda>c.
         rbind (skip_digits sig c (e + 1)) (\<lambda>e'. skip_dimensions sig e'))
       else Inr e)"
  by pat_completeness auto
termination
  by (relation "measure (\<lambda>(sig, e). length sig - e)") (auto simp: arr_get_Inr dest: skip_digits_le)

declare skip_dimensions.simps [simp del]

definition next_non_primitive ::
  "(sig_stream \<Rightarrow> sig_stream res) \<Rightarrow> sig_stream \<Rightarrow> char \<Rightarrow> sig_stream res" where
  "next_non_primitive nxt s t =
     (let sig = ss_sig s in
      if t = CHR ''L'' then
        rbind (scan_semicolon sig (ss_end s)) (\<lambda>e. Inr (s\<lparr> ss_type := T_OBJECT, ss_end := e \<rparr>))
      else if t = CHR ''['' then
        rbind (arr_get sig (ss_end s)) (\<lambda>c.
        rbind (skip_digits sig c (ss_end s)) (\<lambda>e.
        rbind (skip_dimensions sig e) (\<lambda>e.
        rbind (arr_get sig e) (\<lambda>c.
          if c \<in> set ''BCDFIJSZ'' then Inr (s\<lparr> ss_type := T_ARRAY, ss_end := e + 1 \<rparr>)
          else rbind (scan_semicolon sig e) (\<lambda>e. Inr (s\<lparr> ss_type := T_ARRAY, ss_end := e \<rparr>))))))
      else if t = CHR '')'' then
        rbind (nxt (s\<lparr> ss_end := ss_end s + 1 \<rparr>)) (\<lambda>s. Inr (s\<lparr> ss_at_return_type := True \<rparr>))
      else Inl (Fault ''ShouldNotReachHere''))"

lemma next_non_primitive_cong [fundef_cong]:
  "s = s' \<Longrightarrow> t = t' \<Longrightarrow> nxt (s'\<lparr> ss_end := ss_end s' + 1 \<rparr>) = nxt' (s'\<lparr> ss_end := ss_end s' + 1 \<rparr>) \<Longrightarrow>
   next_non_primitive nxt s t = next_non_primitive nxt' s' t'"
  by (simp add: next_non_primitive_def Let_def)

function sig_next :: "sig_stream \<Rightarrow> sig_stream res" where
  "sig_next s =
     (let sig = ss_sig s; len = length sig in
      if ss_end s \<ge> len then Inr (s\<lparr> ss_end := len + 1 \<rparr>)
      else
        (let s' = s\<lparr> ss_begin := ss_end s \<rparr>; t = sig ! ss_begin s'; e = ss_end s + 1 in
         if t = CHR ''B'' then Inr (s'\<lparr> ss_type := T_BYTE, ss_end := e \<rparr>)
         else if t = CHR ''C'' then Inr (s'\<lparr> ss_type := T_CHAR, ss_end := e \<rparr>)
         else if t = CHR ''D'' then Inr (s'\<lparr> ss_type := T_DOUBLE, ss_end := e \<rparr>)
         else if t = CHR ''F'' then Inr (s'\<lparr> ss_type := T_FLOAT, ss_end := e \<rparr>)
         else if t = CHR ''I'' then Inr (s'\<lparr> ss_type := T_INT, ss_end := e \<rparr>)
         else if t = CHR ''J'' then Inr (s'\<lparr> ss_type := T_LONG, ss_end := e \<rparr>)
         else if t = CHR ''S'' then Inr (s'\<lparr> ss_type := T_SHORT, ss_end := e \<rparr>)
         else if t = CHR ''Z'' then Inr (s'\<lparr> ss_type := T_BOOLEAN, ss_end := e \<rparr>)
         else if t = CHR ''V'' then Inr (s'\<lparr> ss_type := T_VOID, ss_end := e \<rparr>)
         else next_non_primitive sig_next s' t))"
  by pat_completeness auto
termination
  by (relation "measure (\<lambda>s. length (ss_sig s) - ss_end s)") auto

declare sig_next.simps [simp del]

text \<open>The constructor leaves the type unset before the first \<^verbatim>\<open>next()\<close>.\<close>

definition signature_stream :: "string \<Rightarrow> bool \<Rightarrow> sig_stream res" where
  "signature_stream sig is_method =
     (let b = (if is_method then 1 else 0) in
      sig_next \<lparr> ss_sig = sig, ss_begin = b, ss_end = b, ss_type = T_ILLEGAL,
        ss_at_return_type = False \<rparr>)"

definition as_symbol :: "sig_stream \<Rightarrow> string res" where
  "as_symbol s =
     rbind (arr_get (ss_sig s) (ss_begin s)) (\<lambda>b.
       if b = CHR ''L'' then
         rbind (arr_get (ss_sig s) (ss_end s - 1)) (\<lambda>l.
           if l = CHR '';''
           then Inr (take (ss_end s - 1 - (ss_begin s + 1)) (drop (ss_begin s + 1) (ss_sig s)))
           else Inr (take (ss_end s - ss_begin s) (drop (ss_begin s) (ss_sig s))))
       else Inr (take (ss_end s - ss_begin s) (drop (ss_begin s) (ss_sig s))))"

section \<open>Verification types of the current type\<close>

text \<open>The types written, one or two of them; the C++ code returns their number.\<close>

definition change_sig_to_verificationType :: "sig_stream \<Rightarrow> vtype list res" where
  "change_sig_to_verificationType s =
     (case ss_type s of
        T_OBJECT \<Rightarrow> rbind (as_symbol s) (\<lambda>n. Inr [Reference n])
      | T_ARRAY \<Rightarrow> rbind (as_symbol s) (\<lambda>n. Inr [Reference n])
      | T_LONG \<Rightarrow> Inr [Long, Long_2nd]
      | T_DOUBLE \<Rightarrow> Inr [Double, Double_2nd]
      | T_INT \<Rightarrow> Inr [Integer]
      | T_BOOLEAN \<Rightarrow> Inr [Integer]
      | T_BYTE \<Rightarrow> Inr [Integer]
      | T_CHAR \<Rightarrow> Inr [Integer]
      | T_SHORT \<Rightarrow> Inr [Integer]
      | T_FLOAT \<Rightarrow> Inr [Float]
      | _ \<Rightarrow> Inl (Fault ''ShouldNotReachHere''))"

lemma change_sig_nonempty: "change_sig_to_verificationType s = Inr ts \<Longrightarrow> 0 < length ts"
  by (auto simp: change_sig_to_verificationType_def split: BasicType.splits)

text \<open>
  The loop over the parameters, as \<^verbatim>\<open>set_locals_from_arg\<close> and \<^verbatim>\<open>verify_invoke_instructions\<close> have it:
  the types are written to an array with room for \<open>cap\<close> elements from index \<open>i\<close> on. The
  result is what has been written and the stream, which is at the return type.
\<close>

function sig_types_loop :: "nat \<Rightarrow> nat \<Rightarrow> sig_stream \<Rightarrow> (vtype list \<times> sig_stream) res" where
  "sig_types_loop cap i s =
     (if ss_at_return_type s then Inr ([], s)
      else
        rbind (change_sig_to_verificationType s) (\<lambda>ts.
          if i + length ts > cap then Inl (Fault ''array write'')
          else
            rbind (sig_next s) (\<lambda>s'.
            rbind (sig_types_loop cap (i + length ts) s') (\<lambda>(rest, s''). Inr (ts @ rest, s'')))))"
  by pat_completeness auto
termination
proof (relation "measure (\<lambda>(cap, i, s). cap - i)", goal_cases)
  case (2 cap i s ts s')
  from change_sig_nonempty [OF 2(2)] 2(3) show ?case unfolding in_measure case_prod_conv by linarith
qed simp

declare sig_types_loop.simps [simp del]

section \<open>SignatureIterator and ArgumentSizeComputer\<close>

definition expect :: "string \<Rightarrow> char \<Rightarrow> nat \<Rightarrow> nat res" where
  "expect sig c i = rbind (arr_get sig i) (\<lambda>b. if b \<noteq> c then Inl (Fault ''expecting'') else Inr (i + 1))"

text \<open>\<open>char c = sig->byte_at(_index); while ('0' <= c && c <= '9') c = sig->byte_at(++_index);\<close>\<close>

function skip_optional_size :: "string \<Rightarrow> nat \<Rightarrow> nat res" where
  "skip_optional_size sig i =
     rbind (arr_get sig i) (\<lambda>c. if is_digit c then skip_optional_size sig (i + 1) else Inr i)"
  by pat_completeness auto
termination
  by (relation "measure (\<lambda>(sig, i). length sig - i)") (auto simp: arr_get_Inr)

declare skip_optional_size.simps [simp del]

lemma skip_optional_size_le: "skip_optional_size sig i = Inr i' \<Longrightarrow> i \<le> i'"
proof (induction sig i rule: skip_optional_size.induct)
  case (1 sig i)
  from "1.prems" [unfolded skip_optional_size.simps [of sig i]] "1.IH" show ?case
    by (fastforce split: if_splits)
qed

function skip_array_dims :: "string \<Rightarrow> nat \<Rightarrow> nat res" where
  "skip_array_dims sig i =
     rbind (arr_get sig i) (\<lambda>c.
       if c = CHR ''['' then
         rbind (skip_optional_size sig (i + 1)) (\<lambda>i'. skip_array_dims sig i')
       else Inr i)"
  by pat_completeness auto
termination
  by (relation "measure (\<lambda>(sig, i). length sig - i)")
    (auto simp: arr_get_Inr dest: skip_optional_size_le)

declare skip_array_dims.simps [simp del]

text \<open>The size of the type at an index, and the index after it.\<close>

definition parse_type :: "string \<Rightarrow> nat \<Rightarrow> (nat \<times> nat) res" where
  "parse_type sig i =
     rbind (arr_get sig i) (\<lambda>c.
       if c \<in> set ''BCFISZ'' then Inr (1, i + 1)
       else if c \<in> set ''DJ'' then Inr (2, i + 1)
       else if c = CHR ''V'' then Inr (0, i + 1)
       else if c = CHR ''L'' then
         rbind (scan_semicolon sig (i + 1)) (\<lambda>i'. Inr (1, i'))
       else if c = CHR ''['' then
         rbind (skip_optional_size sig (i + 1)) (\<lambda>i'.
         rbind (skip_array_dims sig i') (\<lambda>i'.
         rbind (arr_get sig i') (\<lambda>c.
           if c = CHR ''L'' then rbind (scan_semicolon sig i') (\<lambda>i'. Inr (1, i'))
           else Inr (1, i' + 1))))
       else Inl (Fault ''ShouldNotReachHere''))"

lemma scan_semicolon_less: "scan_semicolon sig e = Inr e' \<Longrightarrow> e < e'"
proof (induction sig e rule: scan_semicolon.induct)
  case (1 sig e)
  from "1.prems" [unfolded scan_semicolon.simps [of sig e]] "1.IH" show ?case
    by (fastforce split: if_splits)
qed

lemma skip_array_dims_le: "skip_array_dims sig i = Inr i' \<Longrightarrow> i \<le> i'"
proof (induction sig i rule: skip_array_dims.induct)
  case (1 sig i)
  from "1.prems" [unfolded skip_array_dims.simps [of sig i]] "1.IH" show ?case
    by (fastforce split: if_splits dest: skip_optional_size_le)
qed

lemma parse_type_less: "parse_type sig i = Inr (n, i') \<Longrightarrow> i < i'"
  by (auto simp: parse_type_def split: if_splits
      dest!: scan_semicolon_less skip_optional_size_le skip_array_dims_le)

function parameters_size :: "string \<Rightarrow> nat \<Rightarrow> nat \<Rightarrow> (nat \<times> nat) res" where
  "parameters_size sig i n =
     rbind (arr_get sig i) (\<lambda>c.
       if c \<noteq> CHR '')'' then
         rbind (parse_type sig i) (\<lambda>(k, i'). parameters_size sig i' (n + k))
       else Inr (n, i))"
  by pat_completeness auto
termination
  by (relation "measure (\<lambda>(sig, i, n). length sig - i)")
    (auto simp: arr_get_Inr dest: parse_type_less)

declare parameters_size.simps [simp del]

text \<open>\<^verbatim>\<open>ArgumentSizeComputer(sig).size()\<close>, which runs \<^verbatim>\<open>iterate_parameters()\<close>.\<close>

definition argument_size :: "string \<Rightarrow> nat res" where
  "argument_size sig =
     rbind (expect sig CHR ''('' 0) (\<lambda>i.
     rbind (parameters_size sig i 0) (\<lambda>(n, i).
     rbind (expect sig CHR '')'' i) (\<lambda>i. Inr n)))"

section \<open>SignatureVerifier\<close>

definition invalid_name_char :: "char \<Rightarrow> bool" where
  "invalid_name_char c \<longleftrightarrow> c = CHR 0x00 \<or> c = CHR ''.'' \<or> c = CHR '';'' \<or> c = CHR ''[''"

fun valid_class_name :: "string \<Rightarrow> nat \<Rightarrow> nat option" where
  "valid_class_name [] index = None"
| "valid_class_name (c # cs) index =
     (if c = CHR '';'' then Some (index + 1)
      else if invalid_name_char c then None
      else valid_class_name cs (index + 1))"

text \<open>
  The argument is the rest of the symbol, up to \<open>limit\<close>; \<open>None\<close> is the result \<open>-1\<close>.
\<close>

definition is_valid_type :: "string \<Rightarrow> nat option" where
  "is_valid_type type =
     (let index = length (takeWhile (\<lambda>c. c = CHR ''['') type) in
      if index \<ge> length type then None
      else if type ! index \<in> set ''BCDFIJSZV'' then Some (index + 1)
      else if type ! index = CHR ''L'' then valid_class_name (drop (index + 1) type) (index + 1)
      else None)"

lemma valid_class_name_less: "valid_class_name cs i = Some n \<Longrightarrow> i < n"
  by (induction cs i rule: valid_class_name.induct) (force split: if_splits)+

lemma is_valid_type_pos: "is_valid_type t = Some n \<Longrightarrow> 0 < n"
  by (auto simp: is_valid_type_def Let_def split: if_splits dest: valid_class_name_less)

function valid_parameters :: "string \<Rightarrow> nat \<Rightarrow> nat option" where
  "valid_parameters sig index =
     (if index < length sig \<and> sig ! index \<noteq> CHR '')'' then
        (case is_valid_type (drop index sig) of
           None \<Rightarrow> None
         | Some r \<Rightarrow> valid_parameters sig (index + r))
      else Some index)"
  by pat_completeness auto
termination
  by (relation "measure (\<lambda>(sig, i). length sig - i)") (auto dest: is_valid_type_pos)

declare valid_parameters.simps [simp del]

definition is_valid_method_signature :: "string \<Rightarrow> bool" where
  "is_valid_method_signature sig =
     (if length sig > 1 \<and> sig ! 0 = CHR ''('' then
        (case valid_parameters sig 1 of
           None \<Rightarrow> False
         | Some index \<Rightarrow>
             index < length sig \<and> sig ! index = CHR '')'' \<and>
             is_valid_type (drop (index + 1) sig) = Some (length sig - (index + 1)))
      else False)"

definition is_valid_type_signature :: "string \<Rightarrow> bool" where
  "is_valid_type_signature sig \<longleftrightarrow> length sig \<ge> 1 \<and> is_valid_type sig = Some (length sig)"

definition is_valid_signature :: "string \<Rightarrow> bool" where
  "is_valid_signature sig =
     (if length sig < 1 then False
      else if sig ! 0 = CHR 0x00 then False
      else if sig ! 0 = CHR ''('' then is_valid_method_signature sig
      else is_valid_type_signature sig)"

end
