(* ===== verification/SignatureGrammar.thy ===== *)
theory SignatureGrammar
  imports Signatures
begin

text \<open>
  The grammar of descriptors in the comment of \<^verbatim>\<open>runtime/signature.cpp\<close> as a datatype with its printer,
  and the proof that \<^verbatim>\<open>SignatureStream\<close>, \<^verbatim>\<open>ArgumentSizeComputer\<close> and \<^verbatim>\<open>SignatureVerifier\<close> agree with it on
  every descriptor the grammar generates.
\<close>

section \<open>The grammar of descriptors\<close>

datatype jtype = JPrim char | JObj string | JArr jtype

fun desc :: "jtype \<Rightarrow> string" where
  "desc (JPrim c) = [c]"
| "desc (JObj n) = CHR ''L'' # n @ '';''"
| "desc (JArr t) = CHR ''['' # desc t"

fun jtype_ok :: "jtype \<Rightarrow> bool" where
  "jtype_ok (JPrim c) = (c \<in> set ''BCDFIJSZ'')"
| "jtype_ok (JObj n) = (\<forall>c\<in>set n. \<not> invalid_name_char c)"
| "jtype_ok (JArr t) = jtype_ok t"

definition ret_desc :: "jtype option \<Rightarrow> string" where
  "ret_desc r = (case r of None \<Rightarrow> ''V'' | Some t \<Rightarrow> desc t)"

definition method_desc :: "jtype list \<Rightarrow> jtype option \<Rightarrow> string" where
  "method_desc ps r = CHR ''('' # concat (map desc ps) @ CHR '')'' # ret_desc r"

definition ret_ok :: "jtype option \<Rightarrow> bool" where
  "ret_ok r = (case r of None \<Rightarrow> True | Some t \<Rightarrow> jtype_ok t)"

definition basic_of_char :: "char \<Rightarrow> BasicType" where
  "basic_of_char c =
     (if c = CHR ''B'' then T_BYTE else if c = CHR ''C'' then T_CHAR else if c = CHR ''D'' then T_DOUBLE
      else if c = CHR ''F'' then T_FLOAT else if c = CHR ''I'' then T_INT else if c = CHR ''J'' then T_LONG
      else if c = CHR ''S'' then T_SHORT else T_BOOLEAN)"

fun basic_of :: "jtype \<Rightarrow> BasicType" where
  "basic_of (JPrim c) = basic_of_char c"
| "basic_of (JObj n) = T_OBJECT"
| "basic_of (JArr t) = T_ARRAY"

text \<open>The slots that a value of a type takes in a frame.\<close>

fun vtypes_of :: "jtype \<Rightarrow> vtype list" where
  "vtypes_of (JPrim c) =
     (if c = CHR ''J'' then [Long, Long_2nd] else if c = CHR ''D'' then [Double, Double_2nd]
      else if c = CHR ''F'' then [Float] else [Integer])"
| "vtypes_of (JObj n) = [Reference n]"
| "vtypes_of (JArr t) = [Reference (desc (JArr t))]"

definition args_vtypes :: "jtype list \<Rightarrow> vtype list" where
  "args_vtypes ps = concat (map vtypes_of ps)"

fun dims :: "jtype \<Rightarrow> nat" where
  "dims (JArr t) = Suc (dims t)"
| "dims t = 0"

fun base :: "jtype \<Rightarrow> jtype" where
  "base (JArr t) = base t"
| "base t = t"

section \<open>Reading at an offset\<close>

lemma drop_ConsD:
  assumes "drop e sig = c # cs"
  shows "arr_get sig e = Inr c" "e < length sig" "sig ! e = c" "drop (Suc e) sig = cs"
proof -
  show e: "e < length sig" using assms by (metis drop_all not_le list.distinct(1))
  with assms show c: "sig ! e = c" by (metis Cons_nth_drop_Suc list.inject)
  with e show "arr_get sig e = Inr c" by simp
  from assms e show "drop (Suc e) sig = cs" by (metis Cons_nth_drop_Suc list.inject)
qed

lemma drop_appendD: "drop e sig = xs @ ys \<Longrightarrow> drop (e + length xs) sig = ys"
  by (metis add.commute append_eq_conv_conj drop_drop)

lemma take_drop_prefix: "drop e sig = xs @ ys \<Longrightarrow> take (length xs) (drop e sig) = xs"
  by simp

lemma scan_semicolon_name:
  "drop e sig = n @ CHR '';'' # rest \<Longrightarrow> CHR '';'' \<notin> set n \<Longrightarrow>
   scan_semicolon sig e = Inr (e + length n + 1)"
proof (induction n arbitrary: e)
  case Nil
  with drop_ConsD [of e sig] show ?case by (subst scan_semicolon.simps) simp
next
  case (Cons c n)
  then have d: "drop e sig = c # n @ CHR '';'' # rest" by simp
  from Cons.IH [of "Suc e"] drop_ConsD [OF d] Cons.prems show ?case
    by (subst scan_semicolon.simps) auto
qed

lemma skip_digits_none: "\<not> is_digit c \<Longrightarrow> skip_digits sig c e = Inr e"
  by (subst skip_digits.simps) simp

lemma skip_optional_size_none:
  "drop i sig = c # cs \<Longrightarrow> \<not> is_digit c \<Longrightarrow> skip_optional_size sig i = Inr i"
  using drop_ConsD [of i sig] by (subst skip_optional_size.simps) simp

lemma desc_first: "jtype_ok t \<Longrightarrow> \<exists>c cs. desc t = c # cs \<and> \<not> is_digit c \<and> c \<noteq> CHR '')'' \<and> c \<noteq> CHR ''V''"
  by (cases t) (auto simp: is_digit_def)

lemma base_cases:
  assumes "jtype_ok t"
  obtains c where "base t = JPrim c" "c \<in> set ''BCDFIJSZ''"
    | n where "base t = JObj n" "\<forall>c\<in>set n. \<not> invalid_name_char c"
  using assms by (induction t) auto

lemma desc_base: "desc t = replicate (dims t) CHR ''['' @ desc (base t)"
  by (induction t) auto

lemma base_ok: "jtype_ok t \<Longrightarrow> jtype_ok (base t)"
  by (induction t) auto

lemma base_not_bracket: "jtype_ok t \<Longrightarrow> \<exists>c cs. desc (base t) = c # cs \<and> c \<noteq> CHR ''[''"
  by (erule base_cases) auto

lemma name_no_semicolon: "\<forall>c\<in>set n. \<not> invalid_name_char c \<Longrightarrow> CHR '';'' \<notin> set n"
  by (auto simp: invalid_name_char_def)

lemma skip_dimensions_desc:
  "drop e sig = desc t @ rest \<Longrightarrow> jtype_ok t \<Longrightarrow> skip_dimensions sig e = Inr (e + dims t)"
proof (induction t arbitrary: e)
  case (JPrim c)
  with drop_ConsD [of e sig c rest] show ?case by (subst skip_dimensions.simps) auto
next
  case (JObj n)
  with drop_ConsD(1) [of e sig] show ?case by (subst skip_dimensions.simps) auto
next
  case (JArr t)
  then have d: "drop e sig = CHR ''['' # desc t @ rest" by simp
  note e = drop_ConsD [OF d]
  obtain c cs where c: "desc t = c # cs" "\<not> is_digit c" using desc_first JArr.prems by force
  with e(4) have "arr_get sig (Suc e) = Inr c" using drop_ConsD(1) [of "Suc e" sig c] by simp
  with JArr.IH [OF e(4)] JArr.prems e(1) c show ?case
    by (subst skip_dimensions.simps) (simp add: skip_digits_none)
qed

lemma skip_array_dims_desc:
  "drop e sig = desc t @ rest \<Longrightarrow> jtype_ok t \<Longrightarrow> skip_array_dims sig e = Inr (e + dims t)"
proof (induction t arbitrary: e)
  case (JPrim c)
  with drop_ConsD [of e sig c rest] show ?case by (subst skip_array_dims.simps) auto
next
  case (JObj n)
  with drop_ConsD(1) [of e sig] show ?case by (subst skip_array_dims.simps) auto
next
  case (JArr t)
  then have d: "drop e sig = CHR ''['' # desc t @ rest" by simp
  note e = drop_ConsD [OF d]
  obtain c cs where c: "desc t = c # cs" "\<not> is_digit c" using desc_first JArr.prems by force
  with e(4) have "skip_optional_size sig (Suc e) = Inr (Suc e)"
    by (intro skip_optional_size_none [of _ _ c "cs @ rest"]) auto
  with JArr.IH [OF e(4)] JArr.prems e(1) show ?case
    by (subst skip_array_dims.simps) simp
qed

lemma drop_base:
  assumes "drop e sig = desc t @ rest"
  shows "drop (e + dims t) sig = desc (base t) @ rest"
  using drop_appendD [of e sig "replicate (dims t) CHR ''[''" "desc (base t) @ rest"] assms
  by (subst (asm) desc_base) simp

section \<open>The stream follows the grammar\<close>

lemma sig_next_desc:
  assumes "drop (ss_end s) (ss_sig s) = desc t @ rest" and "jtype_ok t"
  shows "sig_next s = Inr (s\<lparr> ss_begin := ss_end s, ss_type := basic_of t,
    ss_end := ss_end s + length (desc t) \<rparr>)"
proof (cases t)
  case (JPrim c)
  with assms have "drop (ss_end s) (ss_sig s) = c # rest" "c \<in> set ''BCDFIJSZ''" by auto
  with JPrim drop_ConsD(2,3) [of "ss_end s" "ss_sig s" c rest] show ?thesis
    by (subst sig_next.simps) (auto simp: Let_def basic_of_char_def)
next
  case (JObj n)
  let ?e = "ss_end s"
  from assms JObj have d: "drop ?e (ss_sig s) = CHR ''L'' # n @ CHR '';'' # rest"
    and n: "CHR '';'' \<notin> set n" by (auto dest: name_no_semicolon)
  have "scan_semicolon (ss_sig s) ?e = Inr (?e + length (CHR ''L'' # n) + 1)"
    using scan_semicolon_name [of ?e "ss_sig s" "CHR ''L'' # n" rest] d n by simp
  with JObj drop_ConsD(2,3) [OF d] show ?thesis
    by (subst sig_next.simps) (simp add: Let_def next_non_primitive_def)
next
  case (JArr u)
  let ?e = "ss_end s" and ?sig = "ss_sig s"
  from assms JArr have d: "drop ?e ?sig = CHR ''['' # desc u @ rest" and u: "jtype_ok u" by auto
  note e = drop_ConsD [OF d]
  have sd: "skip_dimensions ?sig ?e = Inr (?e + dims t)"
    by (rule skip_dimensions_desc [OF assms])
  have nd: "skip_digits ?sig CHR ''['' ?e = Inr ?e" by (simp add: skip_digits_none is_digit_def)
  note b = drop_base [OF assms(1)]
  have len: "length (desc t) = dims t + length (desc (base t))" by (subst desc_base) simp
  from base_cases [OF assms(2)] show ?thesis
  proof cases
    case (1 c)
    with b have "arr_get ?sig (?e + dims t) = Inr c" using drop_ConsD(1) by simp
    with 1 JArr e sd nd len show ?thesis
      by (subst sig_next.simps) (simp add: Let_def next_non_primitive_def)
  next
    case (2 n)
    from b 2 have d': "drop (?e + dims t) ?sig = (CHR ''L'' # n) @ CHR '';'' # rest" by simp
    then have "arr_get ?sig (?e + dims t) = Inr CHR ''L''" using drop_ConsD(1) by simp
    moreover have "scan_semicolon ?sig (?e + dims t) = Inr (?e + dims t + length (CHR ''L'' # n) + 1)"
      using scan_semicolon_name [OF d'] name_no_semicolon [OF 2(2)] by simp
    ultimately show ?thesis using 2 JArr e sd nd len
      by (subst sig_next.simps) (simp add: Let_def next_non_primitive_def)
  qed
qed

lemma sig_next_return:
  assumes "drop (ss_end s) (ss_sig s) = CHR '')'' # ret_desc r" and "ret_ok r"
  shows "sig_next s = Inr (s\<lparr> ss_begin := ss_end s + 1,
    ss_type := (case r of None \<Rightarrow> T_VOID | Some t \<Rightarrow> basic_of t),
    ss_end := ss_end s + 1 + length (ret_desc r), ss_at_return_type := True \<rparr>)"
proof -
  note e = drop_ConsD [OF assms(1)]
  let ?s = "s\<lparr> ss_begin := ss_end s, ss_end := ss_end s + 1 \<rparr>"
  have "sig_next ?s = Inr (?s\<lparr> ss_begin := ss_end s + 1,
      ss_type := (case r of None \<Rightarrow> T_VOID | Some t \<Rightarrow> basic_of t),
      ss_end := ss_end s + 1 + length (ret_desc r) \<rparr>)"
  proof (cases r)
    case None
    with e(4) have "drop (ss_end s + 1) (ss_sig s) = CHR ''V'' # []" by (simp add: ret_desc_def)
    with None drop_ConsD(2,3) [OF this] show ?thesis
      by (subst sig_next.simps) (simp add: Let_def ret_desc_def)
  next
    case (Some t)
    with e(4) assms(2) sig_next_desc [of ?s t "[]"] show ?thesis
      by (simp add: ret_desc_def ret_ok_def)
  qed
  with e show ?thesis
    by (subst sig_next.simps) (simp add: Let_def next_non_primitive_def)
qed

lemma change_sig_desc:
  assumes "drop (ss_begin s) (ss_sig s) = desc t @ rest" and "jtype_ok t"
    and "ss_end s = ss_begin s + length (desc t)" and "ss_type s = basic_of t"
  shows "change_sig_to_verificationType s = Inr (vtypes_of t)"
proof (cases t)
  case (JPrim c)
  with assms(2,4) show ?thesis
    by (auto simp: change_sig_to_verificationType_def basic_of_char_def)
next
  case (JObj n)
  let ?sig = "ss_sig s" and ?b = "ss_begin s"
  from assms(1) JObj have d: "drop ?b ?sig = CHR ''L'' # n @ CHR '';'' # rest" by simp
  note b = drop_ConsD [OF d]
  have "drop (Suc ?b + length n) ?sig = CHR '';'' # rest" using drop_appendD [OF b(4)] .
  with drop_ConsD(1) have "arr_get ?sig (ss_end s - 1) = Inr CHR '';''"
    using assms(3) JObj by simp
  with b assms(3,4) JObj show ?thesis
    by (simp add: change_sig_to_verificationType_def as_symbol_def)
next
  case (JArr u)
  let ?sig = "ss_sig s" and ?b = "ss_begin s"
  from assms(1) JArr have d: "drop ?b ?sig = CHR ''['' # desc u @ rest" by simp
  note b = drop_ConsD [OF d]
  have "take (length (desc t)) (drop ?b ?sig) = desc t" using assms(1) by (rule take_drop_prefix)
  with b assms(3,4) JArr show ?thesis
    by (simp add: change_sig_to_verificationType_def as_symbol_def)
qed

lemma args_vtypes_simps [simp]:
  "args_vtypes [] = []" "args_vtypes (t # ts) = vtypes_of t @ args_vtypes ts"
  by (simp_all add: args_vtypes_def)

text \<open>
  From a stream in front of the rest of a descriptor: the next type and the loop over the
  remaining parameters deliver the slots of the grammar and end at the return type.
\<close>

lemma sig_types_loop_desc:
  assumes "drop (ss_end s) (ss_sig s) = concat (map desc ps) @ CHR '')'' # ret_desc r"
    and "list_all jtype_ok ps" and "ret_ok r" and "\<not> ss_at_return_type s"
    and "i + length (args_vtypes ps) \<le> cap"
  shows "\<exists>s1 s2. sig_next s = Inr s1 \<and> sig_types_loop cap i s1 = Inr (args_vtypes ps, s2) \<and>
    ss_at_return_type s2 \<and> ss_sig s2 = ss_sig s \<and>
    drop (ss_begin s2) (ss_sig s) = ret_desc r \<and> ss_end s2 = ss_begin s2 + length (ret_desc r) \<and>
    ss_type s2 = (case r of None \<Rightarrow> T_VOID | Some t \<Rightarrow> basic_of t)"
  using assms
proof (induction ps arbitrary: s i)
  case Nil
  then have d: "drop (ss_end s) (ss_sig s) = CHR '')'' # ret_desc r" by simp
  from sig_next_return [OF d] Nil.prems(3) drop_ConsD(4) [OF d] show ?case
    by (simp add: sig_types_loop.simps)
next
  case (Cons t ps)
  let ?s1 = "s\<lparr> ss_begin := ss_end s, ss_type := basic_of t, ss_end := ss_end s + length (desc t) \<rparr>"
  from Cons.prems have d: "drop (ss_end s) (ss_sig s) =
      desc t @ concat (map desc ps) @ CHR '')'' # ret_desc r" and t: "jtype_ok t" by auto
  have n: "sig_next s = Inr ?s1" by (rule sig_next_desc [OF d t])
  have c: "change_sig_to_verificationType ?s1 = Inr (vtypes_of t)"
    by (rule change_sig_desc [of _ t]) (use d t in simp_all)
  have "drop (ss_end ?s1) (ss_sig ?s1) = concat (map desc ps) @ CHR '')'' # ret_desc r"
    using drop_appendD [OF d] by simp
  from Cons.IH [OF this, of "i + length (vtypes_of t)"] Cons.prems n c show ?case
    by (fastforce simp: sig_types_loop.simps [of _ i])
qed

text \<open>The return type of a stream at the end of a descriptor, as the verifier reads it.\<close>

lemma method_stream:
  assumes "list_all jtype_ok ps" and "ret_ok r" and "i + length (args_vtypes ps) \<le> cap"
  shows "\<exists>s1 s2. signature_stream (method_desc ps r) True = Inr s1 \<and>
    sig_types_loop cap i s1 = Inr (args_vtypes ps, s2) \<and>
    (case r of
       None \<Rightarrow> ss_type s2 = T_VOID
     | Some t \<Rightarrow> ss_type s2 = basic_of t \<and> change_sig_to_verificationType s2 = Inr (vtypes_of t))"
proof -
  let ?s = "\<lparr> ss_sig = method_desc ps r, ss_begin = 1, ss_end = 1, ss_type = T_ILLEGAL,
    ss_at_return_type = False \<rparr>"
  have "drop (ss_end ?s) (ss_sig ?s) = concat (map desc ps) @ CHR '')'' # ret_desc r"
    by (simp add: method_desc_def)
  from sig_types_loop_desc [OF this assms(1,2) _ assms(3)] obtain s1 s2 where
    s: "sig_next ?s = Inr s1" "sig_types_loop cap i s1 = Inr (args_vtypes ps, s2)"
    and r: "ss_sig s2 = method_desc ps r" "drop (ss_begin s2) (method_desc ps r) = ret_desc r"
      "ss_end s2 = ss_begin s2 + length (ret_desc r)"
      "ss_type s2 = (case r of None \<Rightarrow> T_VOID | Some t \<Rightarrow> basic_of t)"
    by auto
  have "change_sig_to_verificationType s2 = Inr (vtypes_of t)" if "r = Some t" for t
    using change_sig_desc [of s2 t "[]"] r that assms(2) by (simp add: ret_desc_def ret_ok_def)
  with s r show ?thesis
    by (auto simp: signature_stream_def split: option.splits)
qed

lemma field_stream:
  assumes "jtype_ok t"
  shows "\<exists>s. signature_stream (desc t) False = Inr s \<and>
    change_sig_to_verificationType s = Inr (vtypes_of t)"
proof -
  let ?s = "\<lparr> ss_sig = desc t, ss_begin = 0, ss_end = 0, ss_type = T_ILLEGAL,
    ss_at_return_type = False \<rparr>"
  have "sig_next ?s = Inr (?s\<lparr> ss_begin := 0, ss_type := basic_of t, ss_end := length (desc t) \<rparr>)"
    using sig_next_desc [of ?s t "[]"] assms by simp
  moreover have "change_sig_to_verificationType
      (?s\<lparr> ss_begin := 0, ss_type := basic_of t, ss_end := length (desc t) \<rparr>) = Inr (vtypes_of t)"
    by (rule change_sig_desc [of _ t "[]"]) (use assms in simp_all)
  ultimately show ?thesis by (simp add: signature_stream_def)
qed

section \<open>The iterator follows the grammar\<close>

lemma parse_type_desc:
  assumes "drop i sig = desc t @ rest" and "jtype_ok t"
  shows "parse_type sig i = Inr (length (vtypes_of t), i + length (desc t))"
proof (cases t)
  case (JPrim c)
  with assms drop_ConsD(1) [of i sig c rest] show ?thesis by (auto simp: parse_type_def)
next
  case (JObj n)
  with assms have d: "drop i sig = CHR ''L'' # n @ CHR '';'' # rest" and n: "CHR '';'' \<notin> set n"
    by (auto dest: name_no_semicolon)
  note i = drop_ConsD [OF d]
  from scan_semicolon_name [OF i(4) n] i(1) JObj show ?thesis by (simp add: parse_type_def)
next
  case (JArr u)
  with assms have d: "drop i sig = CHR ''['' # desc u @ rest" and u: "jtype_ok u" by auto
  note i = drop_ConsD [OF d]
  obtain c cs where c: "desc u = c # cs" "\<not> is_digit c" using desc_first [OF u] by auto
  have so: "skip_optional_size sig (Suc i) = Inr (Suc i)"
    using skip_optional_size_none [of "Suc i" sig c "cs @ rest"] i(4) c by simp
  have sd: "skip_array_dims sig (Suc i) = Inr (Suc i + dims u)"
    by (rule skip_array_dims_desc [OF i(4) u])
  note b = drop_base [OF i(4)]
  have len: "length (desc u) = dims u + length (desc (base u))" by (subst desc_base) simp
  from base_cases [OF u] show ?thesis
  proof cases
    case (1 c)
    with b have "arr_get sig (Suc i + dims u) = Inr c" using drop_ConsD(1) by simp
    with 1 JArr i so sd len show ?thesis by (auto simp: parse_type_def)
  next
    case (2 n)
    from b 2 have d': "drop (Suc i + dims u) sig = (CHR ''L'' # n) @ CHR '';'' # rest" by simp
    then have "arr_get sig (Suc i + dims u) = Inr CHR ''L''" using drop_ConsD(1) by simp
    moreover have "scan_semicolon sig (Suc i + dims u) = Inr (Suc i + dims u + length (CHR ''L'' # n) + 1)"
      using scan_semicolon_name [OF d'] name_no_semicolon [OF 2(2)] by simp
    ultimately show ?thesis using 2 JArr i so sd len by (simp add: parse_type_def)
  qed
qed

lemma parameters_size_desc:
  "drop i sig = concat (map desc ps) @ CHR '')'' # rest \<Longrightarrow> list_all jtype_ok ps \<Longrightarrow>
   parameters_size sig i n = Inr (n + length (args_vtypes ps), i + length (concat (map desc ps)))"
proof (induction ps arbitrary: i n)
  case Nil
  with drop_ConsD(1) [of i sig] show ?case by (subst parameters_size.simps) simp
next
  case (Cons t ps)
  then have d: "drop i sig = desc t @ concat (map desc ps) @ CHR '')'' # rest" and t: "jtype_ok t"
    by auto
  obtain c cs where c: "desc t = c # cs" "c \<noteq> CHR '')''" using desc_first [OF t] by auto
  with d have "arr_get sig i = Inr c" using drop_ConsD(1) [of i sig c] by simp
  with parse_type_desc [OF d t] Cons.IH [OF drop_appendD [OF d]] Cons.prems c show ?case
    by (subst parameters_size.simps) (simp add: add_ac)
qed

lemma argument_size_desc:
  assumes "list_all jtype_ok ps"
  shows "argument_size (method_desc ps r) = Inr (length (args_vtypes ps))"
proof -
  let ?sig = "method_desc ps r"
  have d: "drop 0 ?sig = CHR ''('' # concat (map desc ps) @ CHR '')'' # ret_desc r"
    by (simp add: method_desc_def)
  note e = drop_ConsD [OF d]
  have "arr_get ?sig (Suc 0 + length (concat (map desc ps))) = Inr CHR '')''"
    using drop_ConsD(1) [OF drop_appendD [OF e(4)]] .
  with e(1) parameters_size_desc [OF e(4) assms] show ?thesis
    by (simp add: argument_size_def expect_def)
qed

section \<open>The syntax check follows the grammar\<close>

lemma valid_class_name_ok:
  "\<forall>c\<in>set n. \<not> invalid_name_char c \<Longrightarrow>
   valid_class_name (n @ CHR '';'' # rest) i = Some (i + length n + 1)"
  by (induction n arbitrary: i) (auto simp: invalid_name_char_def)

lemma takeWhile_replicate:
  "c \<noteq> b \<Longrightarrow> takeWhile (\<lambda>x. x = b) (replicate n b @ c # xs) = replicate n b"
  by (induction n) auto

lemma is_valid_type_desc:
  assumes "jtype_ok t"
  shows "is_valid_type (desc t @ rest) = Some (length (desc t))"
proof -
  obtain c cs where c: "desc (base t) = c # cs" "c \<noteq> CHR ''[''" using base_not_bracket [OF assms] by auto
  have eq: "desc t @ rest = replicate (dims t) CHR ''['' @ c # cs @ rest"
    by (subst desc_base) (simp add: c)
  have tw: "takeWhile (\<lambda>c. c = CHR ''['') (desc t @ rest) = replicate (dims t) CHR ''[''"
    unfolding eq using c by (simp add: takeWhile_replicate)
  have len: "length (desc t) = dims t + Suc (length cs)" by (subst desc_base) (simp add: c)
  have nth: "(desc t @ rest) ! dims t = c" unfolding eq by (simp add: nth_append)
  have dr: "drop (Suc (dims t)) (desc t @ rest) = cs @ rest" unfolding eq by simp
  from base_cases [OF assms] show ?thesis
  proof cases
    case (1 d)
    with c nth tw len show ?thesis by (auto simp: is_valid_type_def Let_def)
  next
    case (2 n)
    then have "c = CHR ''L''" and "cs = n @ '';''" using c by auto
    with nth tw len dr valid_class_name_ok [OF 2(2), of rest "Suc (dims t)"] show ?thesis
      by (simp add: is_valid_type_def)
  qed
qed

text \<open>Parameters as strings each of which the check of a type reads to its end, whatever follows.\<close>

definition param_ok :: "string \<Rightarrow> bool" where
  "param_ok d \<longleftrightarrow> d \<noteq> [] \<and> hd d \<noteq> CHR '')'' \<and> (\<forall>rest. is_valid_type (d @ rest) = Some (length d))"

lemma valid_parameters_ok:
  "drop i sig = concat ds @ CHR '')'' # rest \<Longrightarrow> list_all param_ok ds \<Longrightarrow> valid_parameters sig i = Some (i + length (concat ds))"
proof (induction ds arbitrary: i)
  case Nil
  with drop_ConsD(2,3) [of i sig] show ?case by (subst valid_parameters.simps) simp
next
  case (Cons d ds)
  then have e: "drop i sig = d @ concat ds @ CHR '')'' # rest" and d: "param_ok d" by auto
  obtain c cs where c: "d = c # cs" "c \<noteq> CHR '')''" using d by (cases d) (auto simp: param_ok_def)
  with e have "i < length sig" "sig ! i = c" using drop_ConsD(2,3) [of i sig c] by simp_all
  with e c d Cons.IH [OF drop_appendD [OF e]] Cons.prems show ?case
    by (subst valid_parameters.simps) (simp add: param_ok_def)
qed

lemma param_ok_desc: "jtype_ok t \<Longrightarrow> param_ok (desc t)"
  using desc_first [of t] is_valid_type_desc [of t] by (auto simp: param_ok_def)

lemma param_ok_void: "param_ok (replicate k CHR ''['' @ ''V'')"
  by (cases k) (auto simp: param_ok_def is_valid_type_def takeWhile_replicate nth_append)

lemma valid_signature_ok:
  assumes "list_all param_ok ds" and "ret_ok r"
  shows "is_valid_method_signature (CHR ''('' # concat ds @ CHR '')'' # ret_desc r)"
proof -
  let ?sig = "CHR ''('' # concat ds @ CHR '')'' # ret_desc r" and ?i = "Suc (length (concat ds))"
  have d: "drop 1 ?sig = concat ds @ CHR '')'' # ret_desc r" by simp
  note e = drop_ConsD [OF drop_appendD [OF d]]
  have "is_valid_type (ret_desc r) = Some (length (ret_desc r))"
    using assms(2) is_valid_type_desc [of _ "[]"]
    by (auto simp: ret_desc_def ret_ok_def is_valid_type_def split: option.splits)
  moreover have "length ?sig - Suc ?i = length (ret_desc r)" by simp
  ultimately show ?thesis
    using valid_parameters_ok [OF d assms(1)] e by (simp add: is_valid_method_signature_def)
qed

lemma void_parameter_valid:
  assumes "list_all jtype_ok ps" and "list_all jtype_ok qs" and "ret_ok r"
  shows "is_valid_method_signature
    (CHR ''('' # concat (map desc ps) @ replicate k CHR ''['' @ CHR ''V'' # concat (map desc qs) @ CHR '')'' # ret_desc r)"
proof -
  have "list_all param_ok (map desc ps @ (replicate k CHR ''['' @ ''V'') # map desc qs)"
    using assms param_ok_void by (auto simp: list_all_iff param_ok_desc)
  from valid_signature_ok [OF this assms(3)] show ?thesis by simp
qed

text \<open>Descriptors are prefix free.\<close>

lemma param_ok_prefix:
  assumes "param_ok d" and "param_ok d'" and "d @ xs = d' @ ys"
  shows "d = d' \<and> xs = ys"
proof -
  have "length d = length d'" using assms unfolding param_ok_def by (metis option.inject)
  with assms(3) show ?thesis by simp
qed

lemma desc_not_void:
  assumes "jtype_ok t"
  shows "desc t \<noteq> replicate k CHR ''['' @ ''V''"
proof
  assume v: "desc t = replicate k CHR ''['' @ ''V''"
  obtain c cs where c: "desc (base t) = c # cs" using base_not_bracket [OF assms] by auto
  have "desc t = replicate (dims t) CHR ''['' @ desc (base t)" by (rule desc_base)
  with c have "last (desc t) = last (desc (base t))" by (simp only: last_append) simp
  moreover have "last (desc (base t)) \<noteq> CHR ''V''" using base_cases [OF assms] by cases auto
  ultimately show False by (simp add: v)
qed

lemma void_not_in_grammar:
  assumes "list_all jtype_ok ps" and "list_all jtype_ok ps'"
  shows "concat (map desc ps) @ replicate k CHR ''['' @ CHR ''V'' # xs \<noteq> concat (map desc ps') @ CHR '')'' # ys"
  using assms
proof (induction ps arbitrary: ps')
  case Nil
  show ?case
  proof (cases ps')
    case Nil
    then show ?thesis by (cases k) simp_all
  next
    case (Cons t ts)
    show ?thesis
    proof
      assume "concat (map desc []) @ replicate k CHR ''['' @ CHR ''V'' # xs = concat (map desc ps') @ CHR '')'' # ys"
      then have "(replicate k CHR ''['' @ ''V'') @ xs = desc t @ concat (map desc ts) @ CHR '')'' # ys" by (simp add: Cons)
      moreover have t: "jtype_ok t" using Cons Nil.prems(2) by simp
      ultimately show False
        using param_ok_prefix [OF param_ok_void param_ok_desc [OF t]] desc_not_void [OF t, of k] by metis
    qed
  qed
next
  case (Cons t ts)
  then have t: "jtype_ok t" and ts: "list_all jtype_ok ts" by simp_all
  show ?case
  proof
    assume e: "concat (map desc (t # ts)) @ replicate k CHR ''['' @ CHR ''V'' # xs = concat (map desc ps') @ CHR '')'' # ys"
    obtain c cs where c: "desc t = c # cs" "c \<noteq> CHR '')''" using desc_first [OF t] by blast
    with e obtain t' ts' where p: "ps' = t' # ts'" by (cases ps') auto
    then have t': "jtype_ok t'" and ts': "list_all jtype_ok ts'" using Cons.prems(2) by simp_all
    from e p have "desc t @ concat (map desc ts) @ replicate k CHR ''['' @ CHR ''V'' # xs =
        desc t' @ concat (map desc ts') @ CHR '')'' # ys" by simp
    from param_ok_prefix [OF param_ok_desc [OF t] param_ok_desc [OF t'] this] Cons.IH [OF ts ts'] show False by simp
  qed
qed

lemma is_valid_method_signature_desc:
  assumes "list_all jtype_ok ps" and "ret_ok r"
  shows "is_valid_method_signature (method_desc ps r)"
proof -
  have "list_all param_ok (map desc ps)" using assms(1) by (auto simp: list_all_iff param_ok_desc)
  from valid_signature_ok [OF this assms(2)] show ?thesis by (simp add: method_desc_def)
qed

lemma is_valid_type_signature_desc: "jtype_ok t \<Longrightarrow> is_valid_type_signature (desc t)"
  using is_valid_type_desc [of t "[]"] desc_first [of t] by (auto simp: is_valid_type_signature_def)

lemma args_bound: "length (args_vtypes ps) \<le> 2 * length (concat (map desc ps))"
proof (induction ps)
  case (Cons t ps)
  have "length (vtypes_of t) \<le> 2 * length (desc t)" by (cases t) auto
  with Cons show ?case by simp
qed simp

lemma args_buffer_bound: "length (args_vtypes ps) \<le> (length (method_desc ps r) - 3) * 2"
proof -
  have "1 \<le> length (ret_desc r)"
    by (auto simp: ret_desc_def Suc_le_eq split: option.splits) (metis desc.elims list.distinct(1))
  with args_bound [of ps] show ?thesis by (simp add: method_desc_def)
qed

section \<open>Legal class names\<close>

text \<open>
  The names that class entries of the constant pool may have: an array class has the
  descriptor of its type as its name.
\<close>

definition legal_class_name :: "string \<Rightarrow> bool" where
  "legal_class_name n =
     (case n of
        [] \<Rightarrow> True
      | c # cs \<Rightarrow>
          if c = CHR ''['' then \<exists>t. jtype_ok t \<and> cs = desc t
          else \<forall>c\<in>set n. \<not> invalid_name_char c)"

definition vtype_wf :: "vtype \<Rightarrow> bool" where
  "vtype_wf t = (case t of Reference n \<Rightarrow> legal_class_name n | Uninitialized b \<Rightarrow> b < 65536 | _ \<Rightarrow> True)"

lemma vtype_wf_simps [simp]:
  "vtype_wf Bogus" "vtype_wf Boolean" "vtype_wf Byte" "vtype_wf Short" "vtype_wf Char"
  "vtype_wf Integer" "vtype_wf Float" "vtype_wf Long" "vtype_wf Double" "vtype_wf Long_2nd"
  "vtype_wf Double_2nd" "vtype_wf Null" "vtype_wf ReferenceQuery" "vtype_wf Category1Query"
  "vtype_wf Category2Query" "vtype_wf Category2_2ndQuery"
  "vtype_wf (Reference n) = legal_class_name n" "vtype_wf (Uninitialized b) = (b < 65536)"
  by (simp_all add: vtype_wf_def)

lemma legal_array_name: "jtype_ok t \<Longrightarrow> legal_class_name (CHR ''['' # desc t)"
  by (auto simp: legal_class_name_def)

lemma legal_object_name: "\<forall>c\<in>set n. \<not> invalid_name_char c \<Longrightarrow> legal_class_name n"
  by (auto simp: legal_class_name_def invalid_name_char_def split: list.splits)

lemma vtypes_of_wf: "jtype_ok t \<Longrightarrow> list_all vtype_wf (vtypes_of t)"
  by (cases t) (auto simp: legal_array_name legal_object_name)

lemma args_vtypes_wf: "list_all jtype_ok ps \<Longrightarrow> list_all vtype_wf (args_vtypes ps)"
  by (induction ps) (auto simp: vtypes_of_wf)

lemma get_component_wf:
  assumes "is_array t" and "vtype_wf t"
  shows "\<exists>c. get_component t = Inr c \<and> vtype_wf c"
proof -
  from assms obtain u where t: "t = Reference (CHR ''['' # desc u)" and u: "jtype_ok u"
    by (auto simp: is_array_def legal_class_name_def split: vtype.splits list.splits if_splits)
  show ?thesis
  proof (cases u)
    case (JPrim c)
    with t u show ?thesis by (auto simp: get_component_def)
  next
    case (JObj n)
    with t u show ?thesis by (auto simp: get_component_def legal_object_name)
  next
    case (JArr w)
    with t u show ?thesis by (auto simp: get_component_def legal_array_name)
  qed
qed

definition resolve_safe :: "(string \<Rightarrow> klass res) \<Rightarrow> bool" where
  "resolve_safe resolve \<longleftrightarrow> (\<forall>n. no_fault (resolve n))"

lemma is_assignable_from_no_fault:
  assumes "resolve_safe r" and "vtype_wf this" and "vtype_wf from"
  shows "no_fault (is_assignable_from r this from)"
  using assms(2,3)
proof (induction "length (name_of this)" arbitrary: this "from" rule: less_induct)
  case less
  have "no_fault (is_reference_assignable_from r this from)"
    if "is_reference this" "is_reference from"
  proof -
    have "no_fault (rbind (get_component this) (\<lambda>c. rbind (get_component from) (is_assignable_from r c)))"
      if arr: "is_array this" "is_array from"
    proof -
      obtain c d where c: "get_component this = Inr c" "vtype_wf c"
        and d: "get_component from = Inr d" "vtype_wf d"
        using get_component_wf arr less.prems by blast
      with less.hyps [of c d] get_component_shorter [OF arr(1) c(1)] show ?thesis by simp
    qed
    moreover have "no_fault (r n)" for n using assms(1) by (simp add: resolve_safe_def)
    ultimately show ?thesis
      by (subst is_reference_assignable_from.simps) (auto intro!: no_fault_rbind)
  qed
  then show ?case
    by (subst is_assignable_from.simps) (auto split: vtype.splits)
qed
section \<open>Properties\<close>

text \<open>
  C23. On every descriptor of the grammar, the syntax check accepts, the stream yields the
  frame slots of the parameters in order and stops at the return type, whose slots it yields
  as well, and nothing is read outside of the symbol or written outside of a buffer that has
  room for the parameters.
\<close>

theorem signature_stream_parses:
  assumes "list_all jtype_ok ps" and "ret_ok r" and "length (args_vtypes ps) \<le> cap"
  shows "is_valid_method_signature (method_desc ps r) \<and>
    (\<exists>s1 s2. signature_stream (method_desc ps r) True = Inr s1 \<and>
       sig_types_loop cap 0 s1 = Inr (args_vtypes ps, s2) \<and>
       (case r of
          None \<Rightarrow> ss_type s2 = T_VOID
        | Some t \<Rightarrow> change_sig_to_verificationType s2 = Inr (vtypes_of t)))"
  using is_valid_method_signature_desc [OF assms(1,2)] method_stream [OF assms(1,2), of 0 cap] assms(3)
  by (auto split: option.splits)

theorem signature_stream_parses_witness:
  "\<exists>s1 s2. signature_stream ''(J[LA;I)D'' True = Inr s1 \<and>
     sig_types_loop 128 0 s1 = Inr ([Long, Long_2nd, Reference ''[LA;'', Integer], s2) \<and>
     change_sig_to_verificationType s2 = Inr [Double, Double_2nd]"
  using signature_stream_parses [of "[JPrim CHR ''J'', JArr (JObj ''A''), JPrim CHR ''I'']"
      "Some (JPrim CHR ''D'')" 128]
  by (simp add: method_desc_def ret_desc_def ret_ok_def invalid_name_char_def)

text \<open>
  C24. \<^verbatim>\<open>ArgumentSizeComputer\<close> computes the number of slots the stream writes, and the estimate from
  the length of the descriptor by which \<^verbatim>\<open>verify_invoke_instructions\<close> chooses its buffer of 128 elements is
  conservative: the two assertions of the debug build hold.
\<close>

theorem argument_size_agrees:
  assumes "list_all jtype_ok ps"
  shows "argument_size (method_desc ps r) = Inr (length (args_vtypes ps)) \<and>
    length (args_vtypes ps) \<le> (length (method_desc ps r) - 3) * 2"
  using argument_size_desc [OF assms] args_buffer_bound by blast

theorem argument_size_agrees_witness:
  "argument_size ''(J[LA;I)D'' = Inr 4 \<and> (4 :: nat) \<le> (length ''(J[LA;I)D'' - 3) * 2"
  using argument_size_agrees [of "[JPrim CHR ''J'', JArr (JObj ''A''), JPrim CHR ''I'']"
      "Some (JPrim CHR ''D'')"]
  by (simp add: method_desc_def ret_desc_def invalid_name_char_def)

text \<open>
  C25. The syntax check is laxer than the grammar in its comment: among legal parameters it accepts \<open>void\<close> and arrays of \<open>void\<close>
  of any number of dimensions, in descriptors that the grammar does not have.
\<close>

theorem void_parameter_accepted:
  assumes "list_all jtype_ok ps" and "list_all jtype_ok qs" and "ret_ok r"
    and "sig = CHR ''('' # concat (map desc ps) @ replicate k CHR ''['' @ CHR ''V'' # concat (map desc qs) @ CHR '')'' # ret_desc r"
  shows "is_valid_method_signature sig \<and> \<not> (\<exists>ps' r'. list_all jtype_ok ps' \<and> ret_ok r' \<and> sig = method_desc ps' r')"
proof -
  have "concat (map desc ps) @ replicate k CHR ''['' @ CHR ''V'' # concat (map desc qs) @ CHR '')'' # ret_desc r \<noteq>
      concat (map desc ps') @ CHR '')'' # ret_desc r'" if "list_all jtype_ok ps'" for ps' r'
    by (rule void_not_in_grammar [OF assms(1) that])
  then have "\<not> (\<exists>ps' r'. list_all jtype_ok ps' \<and> ret_ok r' \<and> sig = method_desc ps' r')"
    by (auto simp: assms(4) method_desc_def)
  with void_parameter_valid [OF assms(1-3), of k] show ?thesis by (simp add: assms(4))
qed

theorem void_parameter_accepted_witness: "is_valid_method_signature ''(I[VJ)V''"
  using void_parameter_accepted [of "[JPrim CHR ''I'']" "[JPrim CHR ''J'']" None "''(I[VJ)V''" 1]
  by (simp add: ret_ok_def ret_desc_def)

end
