(* ===== verification/BytecodeStream.thy ===== *)
theory BytecodeStream
  imports Bytecodes
begin

text \<open>
  Reading a method's bytecode: the raw reads of \<^verbatim>\<open>Bytecodes::special_length_at\<close> and
  \<^verbatim>\<open>raw_special_length_at\<close> (\<^verbatim>\<open>interpreter/bytecodes.cpp\<close>) and \<^verbatim>\<open>RawBytecodeStream\<close>
  (\<^verbatim>\<open>interpreter/bytecodeStream.hpp\<close>, \<^verbatim>\<open>bytecodeStream.cpp\<close>), the iterator of the verifier. Positions are \<open>int\<close>
  with the wrap-around of the machine, since a switch instruction can claim a length for
  which the addition to the current position overflows.
\<close>

section \<open>The code of a method in memory\<close>

text \<open>
  \<open>m_code\<close> is the bytecode of a method as the class file has it. Some routines read past its
  end: \<open>m_after\<close> is what memory holds there, by offset from the code. \<open>m_orig\<close> is the code a
  breakpoint has replaced (\<^verbatim>\<open>orig_bytecode_at\<close>) and \<open>m_beyond\<close> what follows the array \<^verbatim>\<open>_length\<close>.
  A position is an \<open>int\<close>; one in front of the code comes from an overflow.
\<close>

record code_mem =
  m_code :: "u1 list"
  m_after :: "nat \<Rightarrow> u1"
  m_orig :: "int \<Rightarrow> int"
  m_beyond :: "int \<Rightarrow> u1"

definition bcp_u1 :: "code_mem \<Rightarrow> int \<Rightarrow> u1 res" where
  "bcp_u1 m bci =
     (if bci < 0 \<or> bci \<ge> 2147483648 then Inl (Unguarded ''stream position'')
      else if nat bci < length (m_code m) then Inr (m_code m ! nat bci)
      else Inr (m_after m (nat bci)))"

definition get_Java_u2 :: "code_mem \<Rightarrow> int \<Rightarrow> nat res" where
  "get_Java_u2 m bci =
     rbind (bcp_u1 m bci) (\<lambda>b1. rbind (bcp_u1 m (bci + 1)) (\<lambda>b2. Inr (u2_of b1 b2)))"

definition get_Java_u4 :: "code_mem \<Rightarrow> int \<Rightarrow> nat res" where
  "get_Java_u4 m bci =
     rbind (bcp_u1 m bci) (\<lambda>b1. rbind (bcp_u1 m (bci + 1)) (\<lambda>b2.
     rbind (bcp_u1 m (bci + 2)) (\<lambda>b3. rbind (bcp_u1 m (bci + 3)) (\<lambda>b4.
       Inr (u4_of b1 b2 b3 b4)))))"

definition code_or_bp_at :: "code_mem \<Rightarrow> int \<Rightarrow> int res" where
  "code_or_bp_at m bci = rbind (bcp_u1 m bci) (\<lambda>b. Inr (uint b))"

definition code_at :: "code_mem \<Rightarrow> int \<Rightarrow> int res" where
  "code_at m bci =
     rbind (code_or_bp_at m bci) (\<lambda>code. Inr (if code \<noteq> bc_breakpoint then code else m_orig m bci))"

text \<open>The code starts at an aligned address, so an address is aligned when its \<open>bci\<close> is.\<close>

definition round_to :: "int \<Rightarrow> int \<Rightarrow> int" where
  "round_to x s = (let m = s - 1 in (x + m) AND NOT m)"

definition positive_jint :: "int \<Rightarrow> int" where
  "positive_jint len = (if len > 0 \<and> - 2147483648 \<le> len \<and> len < 2147483648 then len else - 1)"

definition special_length_at :: "code_mem \<Rightarrow> int \<Rightarrow> int res" where
  "special_length_at m bci =
     rbind (code_at m bci) (\<lambda>code.
       if code = bc_wide then rbind (bcp_u1 m (bci + 1)) (\<lambda>b. Inr (wide_length_for (uint b)))
       else if code = bc_tableswitch then
         (let aligned = round_to (bci + 1) 4 in
          rbind (get_Java_u4 m (aligned + 1 * 4)) (\<lambda>lo.
          rbind (get_Java_u4 m (aligned + 2 * 4)) (\<lambda>hi.
            Inr (positive_jint (aligned - bci + (3 + s4_of hi - s4_of lo + 1) * 4)))))
       else if code = bc_lookupswitch \<or> code = bc_fast_binaryswitch \<or> code = bc_fast_linearswitch then
         (let aligned = round_to (bci + 1) 4 in
          rbind (get_Java_u4 m (aligned + 4)) (\<lambda>npairs.
            Inr (positive_jint (aligned - bci + (2 + 2 * s4_of npairs) * 4))))
       else Inr 0)"

definition raw_special_length_at :: "code_mem \<Rightarrow> int \<Rightarrow> int res" where
  "raw_special_length_at m bci =
     rbind (code_or_bp_at m bci) (\<lambda>code.
       if code = bc_breakpoint then Inr 1 else special_length_at m bci)"

section \<open>The stream\<close>

text \<open>\<open>int\<close> arithmetic of C++ on the supported machines wraps around.\<close>

definition jint_add :: "int \<Rightarrow> int \<Rightarrow> int" where
  "jint_add a b = (a + b + 2147483648) mod 4294967296 - 2147483648"

record bc_stream =
  s_bci :: int
  s_next_bci :: int
  s_end_bci :: int
  s_code :: int
  s_is_wide :: bool

text \<open>
  The constructor leaves the last code and the flag for \<^verbatim>\<open>wide\<close> unset; \<^verbatim>\<open>raw_next\<close> sets them with
  every code it delivers.
\<close>

definition raw_stream :: "code_mem \<Rightarrow> bc_stream" where
  "raw_stream m = \<lparr> s_bci = 0, s_next_bci = 0, s_end_bci = int (length (m_code m)),
     s_code = bc_illegal, s_is_wide = False \<rparr>"

definition raw_next_special :: "code_mem \<Rightarrow> bc_stream \<Rightarrow> int \<Rightarrow> (int \<times> bc_stream) res" where
  "raw_next_special m s code =
     rbind (raw_special_length_at m (s_bci s)) (\<lambda>l.
       if l \<le> 0 \<or> jint_add (s_bci s) l > s_end_bci s
       then Inr (bc_illegal, s\<lparr> s_code := bc_illegal \<rparr>)
       else
         (let s = s\<lparr> s_next_bci := jint_add (s_next_bci s) l, s_is_wide := False \<rparr> in
          if code = bc_wide then
            rbind (bcp_u1 m (s_bci s + 1)) (\<lambda>b.
              Inr (uint b, s\<lparr> s_is_wide := True, s_code := uint b \<rparr>))
          else Inr (code, s\<lparr> s_code := code \<rparr>)))"

definition raw_next :: "code_mem \<Rightarrow> bc_stream \<Rightarrow> (int \<times> bc_stream) res" where
  "raw_next m s =
     (let s = s\<lparr> s_bci := s_next_bci s \<rparr> in
      rbind (code_or_bp_at m (s_bci s)) (\<lambda>code.
        let l = length_for (m_beyond m) code in
        if l > 0 \<and> jint_add (s_bci s) l \<le> s_end_bci s then
          Inr (code, s\<lparr> s_is_wide := False, s_next_bci := jint_add (s_next_bci s) l, s_code := code \<rparr>)
        else if code = bc_wide \<and> jint_add (s_bci s) 1 \<ge> s_end_bci s then Inr (bc_illegal, s)
        else raw_next_special m s code))"

definition is_last_bytecode :: "bc_stream \<Rightarrow> bool" where
  "is_last_bytecode s \<longleftrightarrow> s_next_bci s \<ge> s_end_bci s"

definition dest :: "code_mem \<Rightarrow> bc_stream \<Rightarrow> int res" where
  "dest m s = rbind (get_Java_u2 m (s_bci s + 1)) (\<lambda>n. Inr (jint_add (s_bci s) (s2_of n)))"

definition dest_w :: "code_mem \<Rightarrow> bc_stream \<Rightarrow> int res" where
  "dest_w m s = rbind (get_Java_u4 m (s_bci s + 1)) (\<lambda>n. Inr (jint_add (s_bci s) (s4_of n)))"

definition get_index :: "code_mem \<Rightarrow> bc_stream \<Rightarrow> nat res" where
  "get_index m s =
     (if s_is_wide s then get_Java_u2 m (s_bci s + 2)
      else rbind (bcp_u1 m (s_bci s + 1)) (\<lambda>b. Inr (unat b)))"

definition get_index_big :: "code_mem \<Rightarrow> bc_stream \<Rightarrow> nat res" where
  "get_index_big m s = get_Java_u2 m (s_bci s + 1)"

section \<open>Reading the code\<close>

lemma bcp_u1_Inr: "0 \<le> i \<Longrightarrow> i < 2147483648 \<Longrightarrow> \<exists>b. bcp_u1 m i = Inr b"
  by (simp add: bcp_u1_def)

lemma bcp_u1_no_fault [simp]: "no_fault (bcp_u1 m i)"
  by (simp add: bcp_u1_def)

lemma get_Java_u2_no_fault [simp]: "no_fault (get_Java_u2 m i)"
  by (auto simp: get_Java_u2_def intro!: no_fault_rbind)

lemma get_Java_u4_no_fault [simp]: "no_fault (get_Java_u4 m i)"
  by (auto simp: get_Java_u4_def intro!: no_fault_rbind)

lemma code_or_bp_at_no_fault [simp]: "no_fault (code_or_bp_at m i)"
  by (auto simp: code_or_bp_at_def intro!: no_fault_rbind)

lemma get_Java_u2_bound: "get_Java_u2 m i = Inr n \<Longrightarrow> n < 65536"
  by (auto simp: get_Java_u2_def)

lemma get_Java_u4_bound: "get_Java_u4 m i = Inr n \<Longrightarrow> n < 4294967296"
  by (auto simp: get_Java_u4_def u4_of_bound)

lemma get_Java_u4_Inr: "0 \<le> i \<Longrightarrow> i < 2147483640 \<Longrightarrow> \<exists>n. get_Java_u4 m i = Inr n"
  using bcp_u1_Inr [of i m] bcp_u1_Inr [of "i + 1" m] bcp_u1_Inr [of "i + 2" m]
    bcp_u1_Inr [of "i + 3" m]
  by (auto simp: get_Java_u4_def)

lemma code_or_bp_at_Inr:
  "0 \<le> i \<Longrightarrow> i < 2147483648 \<Longrightarrow> \<exists>c. code_or_bp_at m i = Inr c \<and> 0 \<le> c \<and> c < 256"
  using bcp_u1_Inr [of i m] uint_bounded [where 'a = 8] by (auto simp: code_or_bp_at_def)

lemma round_to_4: "round_to x 4 = 4 * ((x + 3) div 4)"
proof -
  have "y AND NOT (mask n) = push_bit n (drop_bit n y)" for y :: int and n
    by (rule bit_eqI) (auto simp: bit_simps)
  from this [of _ 2] show ?thesis
    by (simp add: round_to_def mask_eq_exp_minus_1 push_bit_eq_mult drop_bit_eq_div)
qed

lemma positive_jint_less: "positive_jint x < 2147483648"
  by (simp add: positive_jint_def)

lemma wide_length_for_le: "0 \<le> wide_length_for c \<and> wide_length_for c \<le> 6"
  by (simp add: wide_length_for_eq)

lemma wide_length_for_less: "wide_length_for c < 2147483648"
  using wide_length_for_le [of c] by linarith

lemma special_length_at_no_fault [simp]: "no_fault (special_length_at m bci)"
  by (auto simp: special_length_at_def code_at_def Let_def intro!: no_fault_rbind)

lemma raw_special_length_at_no_fault [simp]: "no_fault (raw_special_length_at m bci)"
  by (auto simp: raw_special_length_at_def intro!: no_fault_rbind)

lemma special_length_at_less: "special_length_at m bci = Inr l \<Longrightarrow> l < 2147483648"
  by (auto simp: special_length_at_def Let_def wide_length_for_less positive_jint_less split: if_splits)

lemma raw_special_length_at_less: "raw_special_length_at m bci = Inr l \<Longrightarrow> l < 2147483648"
  by (auto simp: raw_special_length_at_def split: if_splits dest: special_length_at_less)

lemma special_length_at_Inr:
  assumes "0 \<le> bci" and "bci < 1000000"
  shows "\<exists>l. special_length_at m bci = Inr l"
proof -
  have al: "0 \<le> round_to (bci + 1) 4" "round_to (bci + 1) 4 \<le> bci + 4" using assms by (auto simp: round_to_4)
  obtain c b where c: "code_or_bp_at m bci = Inr c" and b: "bcp_u1 m (bci + 1) = Inr b"
    using code_or_bp_at_Inr [of bci m] bcp_u1_Inr [of "bci + 1" m] assms by auto
  obtain p q where p: "get_Java_u4 m (round_to (bci + 1) 4 + 4) = Inr p"
    and q: "get_Java_u4 m (round_to (bci + 1) 4 + 8) = Inr q"
    using get_Java_u4_Inr [of "round_to (bci + 1) 4 + 4" m]
      get_Java_u4_Inr [of "round_to (bci + 1) 4 + 8" m] al assms by auto
  show ?thesis
    by (auto simp: special_length_at_def code_at_def c b p q Let_def)
qed

lemma raw_special_length_at_Inr:
  assumes "0 \<le> bci" and "bci < 1000000"
  shows "\<exists>l. raw_special_length_at m bci = Inr l"
proof -
  obtain l c where "special_length_at m bci = Inr l" "code_or_bp_at m bci = Inr c"
    using special_length_at_Inr [OF assms, of m] code_or_bp_at_Inr [of bci m] assms by auto
  then show ?thesis by (cases "c = bc_breakpoint") (auto simp: raw_special_length_at_def)
qed

section \<open>Progress of the stream\<close>

lemma jint_add_eq: "- 2147483648 \<le> a + b \<Longrightarrow> a + b < 2147483648 \<Longrightarrow> jint_add a b = a + b"
  by (simp add: jint_add_def)

lemma jint_add_positive:
  assumes "0 \<le> a" "a < 2147483648" "0 < l" "l < 2147483648"
  shows "a < jint_add a l \<or> jint_add a l < 0"
proof (cases "a + l < 2147483648")
  case True
  with assms show ?thesis by (simp add: jint_add_eq)
next
  case False
  with assms have "(a + l + 2147483648) mod 4294967296 = a + l - 2147483648"
    using mod_add_self2 [of "a + l - 2147483648" 4294967296] by (simp add: add.commute)
  with assms show ?thesis by (simp add: jint_add_def)
qed

lemma length_for_bounds: "0 \<le> c \<Longrightarrow> 0 \<le> length_for f c \<and> length_for f c < 256"
  using length_for_range [of c f] uint_bounded [of "f c"]
  by (cases "c < number_of_codes") (auto simp: length_for_def)

lemma code_or_bp_at_range: "code_or_bp_at m i = Inr c \<Longrightarrow> 0 \<le> c \<and> c < 256 \<and> 0 \<le> i \<and> i < 2147483648"
  using uint_bounded [where 'a = 8] by (auto simp: code_or_bp_at_def bcp_u1_def split: if_splits)

text \<open>
  A step that delivers a code leaves the position behind the instruction, or negative when
  the addition of its length has overflowed; from there no further step succeeds.
\<close>

lemma raw_next_Inr:
  assumes "raw_next m s = Inr (c, s')" and "c \<noteq> bc_illegal"
  shows "0 \<le> s_next_bci s \<and> s_next_bci s < 2147483648 \<and> s_bci s' = s_next_bci s \<and>
    s_end_bci s' = s_end_bci s \<and> s_code s' = c \<and> 0 \<le> c \<and> c < 256 \<and>
    s_next_bci s' \<le> s_end_bci s \<and> (s_next_bci s < s_next_bci s' \<or> s_next_bci s' < 0)"
proof -
  let ?s = "s\<lparr> s_bci := s_next_bci s \<rparr>" and ?b = "s_next_bci s"
  obtain code where code: "code_or_bp_at m ?b = Inr code" using assms(1) by (auto simp: raw_next_def Let_def)
  note cr = code_or_bp_at_range [OF code]
  let ?l = "length_for (m_beyond m) code"
  show ?thesis
  proof (cases "?l > 0 \<and> jint_add ?b ?l \<le> s_end_bci s")
    case True
    with assms code cr jint_add_positive [of ?b ?l] length_for_bounds [of code "m_beyond m"]
    show ?thesis by (auto simp: raw_next_def Let_def)
  next
    case False
    with assms code have "raw_next_special m ?s code = Inr (c, s')"
      by (auto simp: raw_next_def Let_def split: if_splits)
    then obtain l where l: "raw_special_length_at m ?b = Inr l" "0 < l" "jint_add ?b l \<le> s_end_bci s"
      and s': "s_next_bci s' = jint_add ?b l" "s_bci s' = ?b" "s_end_bci s' = s_end_bci s" "s_code s' = c"
        "c = code \<or> c \<in> range (uint :: u1 \<Rightarrow> int)"
      using assms(2) by (auto simp: raw_next_special_def Let_def split: if_splits)
    from s'(5) cr uint_bounded [where 'a = 8] have "0 \<le> c \<and> c < 256" by auto
    with s' l cr jint_add_positive [of ?b l] raw_special_length_at_less [OF l(1)] show ?thesis by simp
  qed
qed

lemma raw_next_no_fault [simp]: "no_fault (raw_next m s)"
  by (auto simp: raw_next_def raw_next_special_def Let_def intro!: no_fault_rbind)

text \<open>
  The addition of a switch's length to its position does not overflow. Without it the
  position of the next instruction can become negative.
\<close>

definition lengths_fit :: "code_mem \<Rightarrow> bool" where
  "lengths_fit m \<longleftrightarrow>
     list_all (\<lambda>i. case raw_special_length_at m (int i) of
         Inl e \<Rightarrow> True
       | Inr l \<Rightarrow> int i + l < 2147483648) [0..<length (m_code m)]"

text \<open>A position of the stream between two instructions.\<close>

definition stream_ok :: "code_mem \<Rightarrow> bc_stream \<Rightarrow> bool" where
  "stream_ok m s \<longleftrightarrow> s_end_bci s = int (length (m_code m)) \<and> length (m_code m) \<le> 65535 \<and>
     0 \<le> s_next_bci s \<and> s_next_bci s \<le> s_end_bci s"

lemma raw_stream_ok: "length (m_code m) \<le> 65535 \<Longrightarrow> stream_ok m (raw_stream m)"
  by (simp add: stream_ok_def raw_stream_def)

lemma raw_next_special_progress:
  assumes "stream_ok m s" and "lengths_fit m" and "s_bci s = s_next_bci s"
    and "s_next_bci s < s_end_bci s"
  shows "\<exists>c s'. raw_next_special m s code = Inr (c, s') \<and> (c \<noteq> bc_illegal \<longrightarrow> stream_ok m s')"
proof -
  let ?b = "s_next_bci s"
  have b: "0 \<le> ?b" "?b < s_end_bci s" "?b < 65536" and e: "s_end_bci s = int (length (m_code m))"
    using assms by (auto simp: stream_ok_def)
  obtain l where l: "raw_special_length_at m ?b = Inr l"
    using raw_special_length_at_Inr [of ?b m] b by auto
  have "nat ?b \<in> set [0..<length (m_code m)]" using b e by auto
  with assms(2) l b have "?b + l < 2147483648"
    by (auto simp: lengths_fit_def list_all_iff dest!: bspec)
  then have add: "l > 0 \<Longrightarrow> jint_add ?b l = ?b + l" using b by (intro jint_add_eq) auto
  obtain x where x: "bcp_u1 m (?b + 1) = Inr x" using bcp_u1_Inr [of "?b + 1" m] b by auto
  show ?thesis
    using assms b by (cases "code = bc_wide") (auto simp: raw_next_special_def l x add stream_ok_def Let_def)
qed

lemma raw_next_progress:
  assumes "stream_ok m s" and "lengths_fit m" and "\<not> is_last_bytecode s"
  shows "\<exists>c s'. raw_next m s = Inr (c, s') \<and> (c \<noteq> bc_illegal \<longrightarrow> stream_ok m s' \<and> s_next_bci s < s_next_bci s')"
proof -
  let ?s = "s\<lparr> s_bci := s_next_bci s \<rparr>"
  let ?b = "s_next_bci s"
  have b: "0 \<le> ?b" "?b < s_end_bci s" "?b < 65536" using assms
    by (auto simp: stream_ok_def is_last_bytecode_def)
  obtain c where c: "code_or_bp_at m ?b = Inr c" "0 \<le> c" using code_or_bp_at_Inr [of ?b m] b by auto
  let ?l = "length_for (m_beyond m) c"
  have add: "jint_add ?b ?l = ?b + ?l"
    using b length_for_bounds [OF c(2), of "m_beyond m"] by (intro jint_add_eq) auto
  obtain c' s' where sp: "raw_next_special m ?s c = Inr (c', s')" "c' \<noteq> bc_illegal \<longrightarrow> stream_ok m s'"
    using raw_next_special_progress [of m ?s c] assms b by (auto simp: stream_ok_def)
  have "\<exists>c s'. raw_next m s = Inr (c, s') \<and> (c \<noteq> bc_illegal \<longrightarrow> stream_ok m s')"
    using assms b sp by (auto simp: raw_next_def Let_def c add stream_ok_def)
  then show ?thesis using raw_next_Inr [of m s] by (fastforce simp: stream_ok_def)
qed

section \<open>Properties\<close>

text \<open>
  C38. Reading the next instruction always returns, when the lengths of the switches fit: it delivers
  either the illegal code or an instruction behind which the position has moved forward without
  leaving the code. So a loop over the stream ends.
\<close>

theorem raw_next_advances:
  assumes "stream_ok m s" and "lengths_fit m" and "\<not> is_last_bytecode s"
  shows "\<exists>c s'. raw_next m s = Inr (c, s') \<and> (c = bc_illegal \<or> stream_ok m s' \<and> s_next_bci s < s_next_bci s')"
  using raw_next_progress [OF assms] by blast

theorem raw_next_advances_witness:
  "let m = \<lparr> m_code = [0, 177], m_after = (\<lambda>_. 0), m_orig = (\<lambda>_. - 1), m_beyond = (\<lambda>_. 0) \<rparr> in
   \<exists>c s'. raw_next m (raw_stream m) = Inr (c, s') \<and>
     (c = bc_illegal \<or> stream_ok m s' \<and> s_next_bci (raw_stream m) < s_next_bci s')"
  unfolding Let_def
  by (rule raw_next_advances)
    (simp_all add: stream_ok_def raw_stream_def is_last_bytecode_def lengths_fit_def raw_special_length_at_def
      special_length_at_def code_or_bp_at_def code_at_def bcp_u1_def)

lemma same_code_u4:
  assumes "\<And>i. i < n \<Longrightarrow> bcp_u1 m' i = bcp_u1 m i" and "j + 3 < n"
  shows "get_Java_u4 m' j = get_Java_u4 m j"
  using assms by (simp add: get_Java_u4_def)

lemma same_code_length:
  assumes "\<And>i. i < b + 16 \<Longrightarrow> bcp_u1 m' i = bcp_u1 m i" and "m_orig m' = m_orig m" and "0 \<le> b"
  shows "raw_special_length_at m' b = raw_special_length_at m b"
proof -
  have al: "round_to (b + 1) 4 \<le> b + 4" using assms(3) by (simp add: round_to_4)
  then have "get_Java_u4 m' (round_to (b + 1) 4 + 4) = get_Java_u4 m (round_to (b + 1) 4 + 4)"
    "get_Java_u4 m' (round_to (b + 1) 4 + 8) = get_Java_u4 m (round_to (b + 1) 4 + 8)"
    by (intro same_code_u4 [of "b + 16", OF assms(1)]; simp)+
  moreover have "bcp_u1 m' b = bcp_u1 m b" "bcp_u1 m' (b + 1) = bcp_u1 m (b + 1)" by (intro assms(1); simp)+
  ultimately show ?thesis
    using assms(2) by (simp add: raw_special_length_at_def special_length_at_def code_at_def code_or_bp_at_def Let_def cong: if_cong)
qed

text \<open>
  C40. What the stream reads behind the code. To find the length of an instruction that the end of the code cuts off, it reads
  bytes behind the code, but no more than the first 15: when two memories agree on the code and on these, the
  next instruction is the same in both.
\<close>

theorem reads_behind_code:
  assumes "stream_ok m s" and "\<not> is_last_bytecode s"
    and "m_code m' = m_code m" and "m_orig m' = m_orig m" and "m_beyond m' = m_beyond m"
    and "\<forall>i < length (m_code m) + 15. m_after m' i = m_after m i"
  shows "raw_next m' s = raw_next m s"
proof -
  let ?b = "s_next_bci s"
  have b: "0 \<le> ?b" "?b < int (length (m_code m))" using assms(1,2) by (auto simp: stream_ok_def is_last_bytecode_def)
  have u1: "bcp_u1 m' i = bcp_u1 m i" if "i < ?b + 16" for i
    using assms(3,6) that b by (auto simp: bcp_u1_def)
  have "raw_special_length_at m' ?b = raw_special_length_at m ?b"
    by (rule same_code_length [OF u1 assms(4) b(1)])
  moreover have "bcp_u1 m' ?b = bcp_u1 m ?b" "bcp_u1 m' (?b + 1) = bcp_u1 m (?b + 1)" by (intro u1; simp)+
  ultimately show ?thesis
    using assms(5) by (simp add: raw_next_def raw_next_special_def code_or_bp_at_def Let_def cong: if_cong)
qed

theorem reads_behind_code_witness:
  "let m = \<lparr> m_code = [170], m_after = (\<lambda>_. 0), m_orig = (\<lambda>_. - 1), m_beyond = (\<lambda>_. 0) \<rparr> in
   raw_next (m\<lparr> m_after := (\<lambda>i. if i < 16 then 0 else 1) \<rparr>) (raw_stream m) = raw_next m (raw_stream m)"
  unfolding Let_def
  by (rule reads_behind_code) (simp_all add: stream_ok_def raw_stream_def is_last_bytecode_def)

text \<open>A \<^verbatim>\<open>tableswitch\<close> at position 1 that claims a length of \<open>2\<^sup>3\<^sup>1 - 1\<close> bytes.\<close>

definition overflow_code :: code_mem where
  "overflow_code = \<lparr> m_code = [0, 170, 0, 0,  0, 0, 0, 0,  0, 0, 0, 0,  31, 255, 255, 251],
     m_after = (\<lambda>_. 0), m_orig = (\<lambda>_. - 1), m_beyond = (\<lambda>_. 0) \<rparr>"

lemmas stream_eval = raw_next_def raw_next_special_def raw_special_length_at_def special_length_at_def raw_stream_def
  length_for_ranges length_ranges_def code_or_bp_at_def code_at_def bcp_u1_def jint_add_def get_Java_u4_def u4_of_def u2_of_def s4_of_def
  round_to_4 positive_jint_def is_last_bytecode_def Let_def

definition overflow_stream :: "int \<Rightarrow> int \<Rightarrow> int \<Rightarrow> bc_stream" where
  "overflow_stream b n c = \<lparr> s_bci = b, s_next_bci = n, s_end_bci = 16, s_code = c, s_is_wide = False \<rparr>"

lemma jint_add_overflow:
  assumes "0 \<le> a" "a < 2147483648" "l < 2147483648" "2147483648 \<le> a + l"
  shows "jint_add a l = a + l - 4294967296"
proof -
  have "(a + l + 2147483648) mod 4294967296 = a + l - 2147483648"
    using mod_add_self2 [of "a + l - 2147483648" 4294967296] assms by (simp add: add.commute)
  then show ?thesis by (simp add: jint_add_def)
qed

lemma overflow_first:
  "raw_next overflow_code (raw_stream overflow_code) = Inr (bc_nop, overflow_stream 0 1 bc_nop)"
  "code_or_bp_at overflow_code 1 = Inr bc_tableswitch" "raw_special_length_at overflow_code 1 = Inr 2147483647"
  by (simp_all add: stream_eval overflow_code_def overflow_stream_def cong: rbind_weak_cong)

text \<open>
  C39. The lengths of the switches need not fit: for every \<^verbatim>\<open>tableswitch\<close> or \<^verbatim>\<open>lookupswitch\<close> that claims a length whose sum with the
  position is \<open>2\<^sup>3\<^sup>1\<close> or more, the sum overflows, so the comparison with the end of the
  code does not see it. The stream delivers the instruction and moves to a negative position, which
  does not count as the end, and the next step reads in front of the code.
\<close>

theorem raw_next_overflows:
  assumes "0 \<le> s_next_bci s" and "s_next_bci s < 2147483648" and "0 \<le> s_end_bci s"
    and "code_or_bp_at m (s_next_bci s) = Inr code" and "code \<in> {bc_tableswitch, bc_lookupswitch}"
    and "raw_special_length_at m (s_next_bci s) = Inr l" and "2147483648 \<le> s_next_bci s + l"
  shows "\<exists>s'. raw_next m s = Inr (code, s') \<and> s_next_bci s' = s_next_bci s + l - 4294967296 \<and> s_next_bci s' < 0 \<and>
    \<not> is_last_bytecode s' \<and> raw_next m s' = Inl (Unguarded ''stream position'')"
proof -
  let ?n = "s_next_bci s + l - 4294967296"
  let ?s = "s\<lparr> s_bci := s_next_bci s, s_next_bci := ?n, s_is_wide := False, s_code := code \<rparr>"
  note l = raw_special_length_at_less [OF assms(6)]
  have add: "jint_add (s_next_bci s) l = ?n" using assms l by (intro jint_add_overflow) auto
  have len: "length_for f code = 0" for f using assms(5) by (auto simp: length_for_ranges length_ranges_def)
  have "raw_next m s = Inr (code, ?s)"
    using assms add l by (auto simp: raw_next_def raw_next_special_def Let_def len)
  moreover have "raw_next m ?s = Inl (Unguarded ''stream position'')"
    using assms(2) l by (simp add: raw_next_def Let_def code_or_bp_at_def bcp_u1_def)
  ultimately show ?thesis using assms(2,3) l by (intro exI [of _ ?s]) (auto simp: is_last_bytecode_def)
qed

theorem raw_next_overflows_witness:
  "\<exists>s1 s2. raw_next overflow_code (raw_stream overflow_code) = Inr (bc_nop, s1) \<and>
     raw_next overflow_code s1 = Inr (bc_tableswitch, s2) \<and> s_next_bci s2 = - 2147483648 \<and>
     \<not> is_last_bytecode s2 \<and> raw_next overflow_code s2 = Inl (Unguarded ''stream position'')"
  using raw_next_overflows [of "overflow_stream 0 1 bc_nop" overflow_code bc_tableswitch 2147483647] overflow_first
  by (auto simp: overflow_stream_def)

end
