(* ===== verification/ConstantPool.thy ===== *)
theory ConstantPool
  imports SignatureGrammar BytecodeStream
begin

text \<open>
  The constant pool as the verifier reads it (\<^verbatim>\<open>oops/constantPoolOop.hpp\<close>, \<^verbatim>\<open>constantPoolOop.cpp\<close>,
  \<^verbatim>\<open>utilities/constantTag.hpp\<close>), the checks of indices and tags (\<^verbatim>\<open>ClassVerifier::verify_cp_index\<close>,
  \<^verbatim>\<open>verify_cp_type\<close>, \<^verbatim>\<open>verify_cp_class_type\<close>), and the methods of the class.

  A reference to a member is one \<open>jint\<close> that packs two indices, as in the VM. Reading an entry
  as something it is not is a fault: the C++ code would take an integer for a pointer.
\<close>

section \<open>Entries\<close>

datatype cp_entry =
    CP_Invalid
  | CP_Utf8 string
  | CP_Integer | CP_Float | CP_Long | CP_Double
  | CP_Class string | CP_UnresolvedClass string | CP_UnresolvedClassInError string
  | CP_String | CP_UnresolvedString
  | CP_Fieldref u4 | CP_Methodref u4 | CP_InterfaceMethodref u4
  | CP_NameAndType u4
  | CP_ClassIndex nat | CP_StringIndex nat

text \<open>
  \<open>cp_cache\<close> is \<^verbatim>\<open>cache()\<close>: present when the bytecodes have been rewritten already, it gives the
  pool index for each cache index. The machine is little-endian.
\<close>

record constant_pool =
  cp_entries :: "cp_entry list"
  cp_cache :: "nat list option"

fun tag_of :: "cp_entry \<Rightarrow> nat" where
  "tag_of CP_Invalid = 0"
| "tag_of (CP_Utf8 s) = 1"
| "tag_of CP_Integer = 3"
| "tag_of CP_Float = 4"
| "tag_of CP_Long = 5"
| "tag_of CP_Double = 6"
| "tag_of (CP_Class n) = 7"
| "tag_of CP_String = 8"
| "tag_of (CP_Fieldref r) = 9"
| "tag_of (CP_Methodref r) = 10"
| "tag_of (CP_InterfaceMethodref r) = 11"
| "tag_of (CP_NameAndType r) = 12"
| "tag_of (CP_UnresolvedClass n) = 100"
| "tag_of (CP_ClassIndex i) = 101"
| "tag_of CP_UnresolvedString = 102"
| "tag_of (CP_StringIndex i) = 103"
| "tag_of (CP_UnresolvedClassInError n) = 104"

abbreviation (input) JVM_CONSTANT_Integer :: nat where "JVM_CONSTANT_Integer \<equiv> 3"
abbreviation (input) JVM_CONSTANT_Float :: nat where "JVM_CONSTANT_Float \<equiv> 4"
abbreviation (input) JVM_CONSTANT_Long :: nat where "JVM_CONSTANT_Long \<equiv> 5"
abbreviation (input) JVM_CONSTANT_Double :: nat where "JVM_CONSTANT_Double \<equiv> 6"
abbreviation (input) JVM_CONSTANT_Class :: nat where "JVM_CONSTANT_Class \<equiv> 7"
abbreviation (input) JVM_CONSTANT_String :: nat where "JVM_CONSTANT_String \<equiv> 8"
abbreviation (input) JVM_CONSTANT_Fieldref :: nat where "JVM_CONSTANT_Fieldref \<equiv> 9"
abbreviation (input) JVM_CONSTANT_Methodref :: nat where "JVM_CONSTANT_Methodref \<equiv> 10"
abbreviation (input) JVM_CONSTANT_InterfaceMethodref :: nat where "JVM_CONSTANT_InterfaceMethodref \<equiv> 11"

definition is_klass_tag :: "nat \<Rightarrow> bool" where
  "is_klass_tag tag \<longleftrightarrow> tag = JVM_CONSTANT_Class"

definition is_unresolved_klass_tag :: "nat \<Rightarrow> bool" where
  "is_unresolved_klass_tag tag \<longleftrightarrow> tag = 100 \<or> tag = 104"

definition is_string_tag :: "nat \<Rightarrow> bool" where
  "is_string_tag tag \<longleftrightarrow> tag = JVM_CONSTANT_String"

definition is_unresolved_string_tag :: "nat \<Rightarrow> bool" where
  "is_unresolved_string_tag tag \<longleftrightarrow> tag = 102"

section \<open>Access\<close>

definition extract_low_short_from_int :: "u4 \<Rightarrow> nat" where
  "extract_low_short_from_int x = unat (x AND 65535)"

definition extract_high_short_from_int :: "u4 \<Rightarrow> nat" where
  "extract_high_short_from_int x = unat (drop_bit 16 x AND 65535)"

text \<open>\<open>((jint) high << 16) | low\<close>: how \<^verbatim>\<open>field_at_put\<close>, \<^verbatim>\<open>method_at_put\<close> and \<^verbatim>\<open>name_and_type_at_put\<close> store a pair.\<close>

definition pair_of_indices :: "nat \<Rightarrow> nat \<Rightarrow> u4" where
  "pair_of_indices low high = push_bit 16 (of_nat high) OR of_nat low"

definition cp_length :: "constant_pool \<Rightarrow> nat" where
  "cp_length cp = length (cp_entries cp)"

definition tag_at :: "constant_pool \<Rightarrow> nat \<Rightarrow> nat res" where
  "tag_at cp i = rbind (arr_get (cp_entries cp) i) (\<lambda>e. Inr (tag_of e))"

definition klass_name_at :: "constant_pool \<Rightarrow> nat \<Rightarrow> string res" where
  "klass_name_at cp which =
     rbind (arr_get (cp_entries cp) which) (\<lambda>e.
       case e of
         CP_Class n \<Rightarrow> Inr n
       | CP_UnresolvedClass n \<Rightarrow> Inr n
       | CP_UnresolvedClassInError n \<Rightarrow> Inr n
       | _ \<Rightarrow> Inl (Fault ''klass_name_at''))"

definition symbol_at :: "constant_pool \<Rightarrow> nat \<Rightarrow> string res" where
  "symbol_at cp which =
     rbind (arr_get (cp_entries cp) which) (\<lambda>e.
       case e of CP_Utf8 s \<Rightarrow> Inr s | _ \<Rightarrow> Inl (Fault ''symbol_at''))"

definition name_and_type_at :: "constant_pool \<Rightarrow> nat \<Rightarrow> u4 res" where
  "name_and_type_at cp which =
     rbind (arr_get (cp_entries cp) which) (\<lambda>e.
       case e of CP_NameAndType r \<Rightarrow> Inr r | _ \<Rightarrow> Inl (Fault ''name_and_type_at''))"

definition swap_u2 :: "nat \<Rightarrow> nat" where
  "swap_u2 x = (x mod 256) * 256 + x div 256"

definition cache_index :: "constant_pool \<Rightarrow> nat \<Rightarrow> nat res" where
  "cache_index cp which =
     (case cp_cache cp of None \<Rightarrow> Inr which | Some cache \<Rightarrow> arr_get cache (swap_u2 which))"

definition field_or_method_at :: "constant_pool \<Rightarrow> nat \<Rightarrow> u4 res" where
  "field_or_method_at cp which =
     rbind (cache_index cp which) (\<lambda>i.
     rbind (arr_get (cp_entries cp) i) (\<lambda>e.
       case e of
         CP_Fieldref r \<Rightarrow> Inr r
       | CP_Methodref r \<Rightarrow> Inr r
       | CP_InterfaceMethodref r \<Rightarrow> Inr r
       | _ \<Rightarrow> Inl (Fault ''field_or_method_at'')))"

definition klass_ref_index_at :: "constant_pool \<Rightarrow> nat \<Rightarrow> nat res" where
  "klass_ref_index_at cp which =
     rbind (field_or_method_at cp which) (\<lambda>r. Inr (extract_low_short_from_int r))"

definition name_and_type_ref_index_at :: "constant_pool \<Rightarrow> nat \<Rightarrow> nat res" where
  "name_and_type_ref_index_at cp which =
     rbind (field_or_method_at cp which) (\<lambda>r. Inr (extract_high_short_from_int r))"

definition name_ref_at :: "constant_pool \<Rightarrow> nat \<Rightarrow> string res" where
  "name_ref_at cp which =
     rbind (name_and_type_ref_index_at cp which) (\<lambda>nt.
     rbind (name_and_type_at cp nt) (\<lambda>r. symbol_at cp (extract_low_short_from_int r)))"

definition signature_ref_at :: "constant_pool \<Rightarrow> nat \<Rightarrow> string res" where
  "signature_ref_at cp which =
     rbind (name_and_type_ref_index_at cp which) (\<lambda>nt.
     rbind (name_and_type_at cp nt) (\<lambda>r. symbol_at cp (extract_high_short_from_int r)))"

definition cp_index_to_type :: "constant_pool \<Rightarrow> nat \<Rightarrow> vtype res" where
  "cp_index_to_type cp index = rbind (klass_name_at cp index) (\<lambda>n. Inr (Reference n))"

definition cp_ref_index_to_type :: "constant_pool \<Rightarrow> nat \<Rightarrow> vtype res" where
  "cp_ref_index_to_type cp index = rbind (klass_ref_index_at cp index) (cp_index_to_type cp)"

section \<open>The verifier's checks\<close>

definition verify_cp_index :: "constant_pool \<Rightarrow> nat \<Rightarrow> unit res" where
  "verify_cp_index cp index =
     (if index = 0 \<or> index \<ge> cp_length cp
      then Inl (VerifyError ''Illegal constant pool index'') else Inr ())"

text \<open>\<open>1 << n\<close> on a 32-bit \<open>int\<close>: the machines take the shift count modulo 32.\<close>

definition shl1 :: "nat \<Rightarrow> u4" where
  "shl1 n = push_bit (n mod 32) 1"

definition verify_cp_type :: "constant_pool \<Rightarrow> nat \<Rightarrow> u4 \<Rightarrow> unit res" where
  "verify_cp_type cp index types =
     rbind
       (if cp_cache cp \<noteq> None \<and>
           (types = shl1 JVM_CONSTANT_InterfaceMethodref \<or> types = shl1 JVM_CONSTANT_Methodref \<or>
            types = shl1 JVM_CONSTANT_Fieldref)
        then cache_index cp index else Inr index)
       (\<lambda>index.
     rbind (verify_cp_index cp index) (\<lambda>_.
     rbind (tag_at cp index) (\<lambda>tag.
       if types AND shl1 tag = 0
       then Inl (VerifyError ''Illegal type at constant pool entry'') else Inr ())))"

definition verify_cp_class_type :: "constant_pool \<Rightarrow> nat \<Rightarrow> unit res" where
  "verify_cp_class_type cp index =
     rbind (verify_cp_index cp index) (\<lambda>_.
     rbind (tag_at cp index) (\<lambda>tag.
       if \<not> is_klass_tag tag \<and> \<not> is_unresolved_klass_tag tag
       then Inl (VerifyError ''Illegal type at constant pool entry'') else Inr ()))"

section \<open>Methods\<close>

text \<open>
  An entry of the exception table is \<^verbatim>\<open>start_pc\<close>, \<^verbatim>\<open>end_pc\<close>, \<^verbatim>\<open>handler_pc\<close>, \<^verbatim>\<open>catch_type_index\<close>; one of the
  local variable table is \<^verbatim>\<open>start_bci\<close>, \<^verbatim>\<open>length\<close>. A method without a table has an empty list.
\<close>

record meth =
  mt_name :: string
  mt_signature :: string
  mt_is_static :: bool
  mt_is_native :: bool
  mt_is_abstract :: bool
  mt_max_stack :: nat
  mt_max_locals :: nat
  mt_mem :: code_mem
  mt_exception_table :: "(nat \<times> nat \<times> nat \<times> nat) list"
  mt_localvariable_table :: "(nat \<times> nat) list"
  mt_stackmap_data :: "u1 list option"

section \<open>Pairs of indices\<close>

lemma mask_16: "(65535 :: u4) = mask 16"
  by (simp add: mask_eq_exp_minus_1)

lemma extract_low_pair:
  assumes "low < 65536" and "high < 65536"
  shows "extract_low_short_from_int (pair_of_indices low high) = low"
proof -
  have "pair_of_indices low high AND mask 16 = (of_nat low AND mask 16 :: u4)"
    unfolding pair_of_indices_def
    by (rule bit_word_eqI) (auto simp: bit_and_iff bit_or_iff bit_push_bit_iff bit_mask_iff)
  with assms show ?thesis
    by (simp add: extract_low_short_from_int_def mask_16 take_bit_eq_mask [symmetric]
        unsigned_take_bit_eq unat_of_nat take_bit_nat_eq_self)
qed

lemma extract_high_pair:
  assumes "low < 65536" and "high < 65536"
  shows "extract_high_short_from_int (pair_of_indices low high) = high"
proof -
  have "take_bit 16 (of_nat low :: u4) = of_nat low"
    using assms(1) by (simp add: word_unat_eq_iff unsigned_take_bit_eq unat_of_nat take_bit_nat_eq_self)
  then have "\<not> bit (of_nat low :: u4) (16 + n)" for n
    using bit_take_bit_iff [of 16 "of_nat low :: u4" "16 + n"] by simp
  then have "drop_bit 16 (pair_of_indices low high) AND mask 16 = (of_nat high AND mask 16 :: u4)"
    unfolding pair_of_indices_def
    by (intro bit_word_eqI) (auto simp: bit_and_iff bit_or_iff bit_push_bit_iff bit_drop_bit_eq bit_mask_iff)
  with assms show ?thesis
    by (simp add: extract_high_short_from_int_def mask_16 take_bit_eq_mask [symmetric]
        unsigned_take_bit_eq unat_of_nat take_bit_nat_eq_self)
qed

lemma extract_low_bound: "extract_low_short_from_int x < 65536"
proof -
  have "unat (take_bit 16 x) < 2 ^ 16" by (simp only: unsigned_take_bit_eq take_bit_nat_less_exp)
  then show ?thesis by (simp add: extract_low_short_from_int_def mask_16 take_bit_eq_mask [symmetric])
qed

section \<open>What the class file parser guarantees\<close>

definition legal_field_sig :: "string \<Rightarrow> bool" where
  "legal_field_sig sig \<longleftrightarrow> (\<exists>t. jtype_ok t \<and> sig = desc t)"

definition legal_method_sig :: "string \<Rightarrow> bool" where
  "legal_method_sig sig \<longleftrightarrow> (\<exists>ps r. list_all jtype_ok ps \<and> ret_ok r \<and> sig = method_desc ps r)"

definition is_class_entry :: "constant_pool \<Rightarrow> nat \<Rightarrow> bool" where
  "is_class_entry cp i \<longleftrightarrow> (\<exists>n. klass_name_at cp i = Inr n \<and> legal_class_name n)"

definition member_ref_ok :: "(string \<Rightarrow> bool) \<Rightarrow> constant_pool \<Rightarrow> u4 \<Rightarrow> bool" where
  "member_ref_ok legal cp r \<longleftrightarrow>
     is_class_entry cp (extract_low_short_from_int r) \<and>
     (\<exists>nt n sig. name_and_type_at cp (extract_high_short_from_int r) = Inr nt \<and>
        symbol_at cp (extract_low_short_from_int nt) = Inr n \<and> n \<noteq> [] \<and>
        symbol_at cp (extract_high_short_from_int nt) = Inr sig \<and> legal sig)"

fun cp_entry_ok :: "constant_pool \<Rightarrow> cp_entry \<Rightarrow> bool" where
  "cp_entry_ok cp (CP_Class n) = legal_class_name n"
| "cp_entry_ok cp (CP_UnresolvedClass n) = legal_class_name n"
| "cp_entry_ok cp (CP_UnresolvedClassInError n) = legal_class_name n"
| "cp_entry_ok cp (CP_Fieldref r) = member_ref_ok legal_field_sig cp r"
| "cp_entry_ok cp (CP_Methodref r) = member_ref_ok legal_method_sig cp r"
| "cp_entry_ok cp (CP_InterfaceMethodref r) = member_ref_ok legal_method_sig cp r"
| "cp_entry_ok cp (CP_ClassIndex i) = False"
| "cp_entry_ok cp (CP_StringIndex i) = False"
| "cp_entry_ok cp e = True"

text \<open>
  The pool of a class that has been parsed and not yet rewritten: indices point to entries of
  the kind they should, names and descriptors are legal, and the temporary entries of the
  parser are gone. There is no cache: \<^verbatim>\<open>verify_cp_type\<close> has a branch for a pool whose class is rewritten while it is
  verified, and the definitions have this branch, but the theorems that assume \<open>cp_wf\<close> do not cover it.
\<close>

definition cp_wf :: "constant_pool \<Rightarrow> bool" where
  "cp_wf cp \<longleftrightarrow> cp_cache cp = None \<and> length (cp_entries cp) \<le> 65535 \<and>
     list_all (cp_entry_ok cp) (cp_entries cp)"

lemma cp_wf_entry: "cp_wf cp \<Longrightarrow> i < cp_length cp \<Longrightarrow> cp_entry_ok cp (cp_entries cp ! i)"
  by (simp add: cp_wf_def cp_length_def list_all_length)

section \<open>The checks make the accesses safe\<close>

lemma verify_cp_index_no_fault: "no_fault (verify_cp_index cp i)"
  by (simp add: verify_cp_index_def)

lemma verify_cp_index_Inr: "verify_cp_index cp i = Inr u \<Longrightarrow> 0 < i \<and> i < cp_length cp"
  by (auto simp: verify_cp_index_def split: if_splits)

lemma tag_at_Inr: "i < cp_length cp \<Longrightarrow> tag_at cp i = Inr (tag_of (cp_entries cp ! i))"
  by (simp add: tag_at_def cp_length_def)

lemma verify_cp_class_type_no_fault: "no_fault (verify_cp_class_type cp i)"
  unfolding verify_cp_class_type_def
  by (auto intro!: no_fault_rbind simp: verify_cp_index_no_fault tag_at_Inr dest: verify_cp_index_Inr)

lemma verify_cp_type_no_fault: "cp_cache cp = None \<Longrightarrow> no_fault (verify_cp_type cp i types)"
  unfolding verify_cp_type_def
  by (auto intro!: no_fault_rbind simp: verify_cp_index_no_fault tag_at_Inr dest: verify_cp_index_Inr)

lemma tag_of_class:
  "is_klass_tag (tag_of e) \<or> is_unresolved_klass_tag (tag_of e) \<longleftrightarrow>
   (\<exists>n. e = CP_Class n \<or> e = CP_UnresolvedClass n \<or> e = CP_UnresolvedClassInError n)"
  by (cases e) (auto simp: is_klass_tag_def is_unresolved_klass_tag_def)

lemma class_entry:
  assumes "cp_wf cp" and "i < cp_length cp"
    and "is_klass_tag (tag_of (cp_entries cp ! i)) \<or> is_unresolved_klass_tag (tag_of (cp_entries cp ! i))"
  shows "is_class_entry cp i"
  using assms(3) cp_wf_entry [OF assms(1,2)] assms(2)
  by (auto simp: tag_of_class is_class_entry_def klass_name_at_def cp_length_def)

lemma verify_cp_class_type_Inr:
  "cp_wf cp \<Longrightarrow> verify_cp_class_type cp i = Inr u \<Longrightarrow> is_class_entry cp i"
  by (auto simp: verify_cp_class_type_def tag_at_Inr split: if_splits
      dest!: verify_cp_index_Inr intro: class_entry)

lemma class_entry_type:
  "is_class_entry cp i \<Longrightarrow> \<exists>n. cp_index_to_type cp i = Inr (Reference n) \<and> legal_class_name n"
  by (auto simp: is_class_entry_def cp_index_to_type_def)

text \<open>The only entries whose tag passes the test for a kind of member reference are of this kind.\<close>

lemma member_tags:
  "shl1 9 AND shl1 (tag_of e) \<noteq> 0 \<Longrightarrow> \<exists>r. e = CP_Fieldref r"
  "shl1 10 AND shl1 (tag_of e) \<noteq> 0 \<Longrightarrow> \<exists>r. e = CP_Methodref r"
  "shl1 11 AND shl1 (tag_of e) \<noteq> 0 \<Longrightarrow> \<exists>r. e = CP_InterfaceMethodref r"
  by (cases e; simp add: shl1_def)+

lemma verify_cp_type_Inr:
  "cp_cache cp = None \<Longrightarrow> verify_cp_type cp i types = Inr u \<Longrightarrow>
   0 < i \<and> i < cp_length cp \<and> types AND shl1 (tag_of (cp_entries cp ! i)) \<noteq> 0"
  by (auto simp: verify_cp_type_def tag_at_Inr split: if_splits dest!: verify_cp_index_Inr)

text \<open>What a reference that has passed the check delivers.\<close>

definition ref_access_ok :: "(string \<Rightarrow> bool) \<Rightarrow> constant_pool \<Rightarrow> nat \<Rightarrow> bool" where
  "ref_access_ok legal cp i \<longleftrightarrow>
     (\<exists>k c n sig. klass_ref_index_at cp i = Inr k \<and> klass_name_at cp k = Inr c \<and> legal_class_name c \<and>
        name_ref_at cp i = Inr n \<and> n \<noteq> [] \<and> signature_ref_at cp i = Inr sig \<and> legal sig)"

lemma ref_access:
  assumes "cp_cache cp = None" and "i < cp_length cp" and "member_ref_ok legal cp r"
    and "cp_entries cp ! i \<in> {CP_Fieldref r, CP_Methodref r, CP_InterfaceMethodref r}"
  shows "ref_access_ok legal cp i"
proof -
  have f: "field_or_method_at cp i = Inr r"
    using assms(1,2,4) by (auto simp: field_or_method_at_def cache_index_def cp_length_def)
  from assms(3) show ?thesis
    by (auto simp: member_ref_ok_def is_class_entry_def ref_access_ok_def klass_ref_index_at_def f
        name_ref_at_def signature_ref_at_def name_and_type_ref_index_at_def)
qed

lemma verify_cp_type_member:
  assumes "cp_wf cp"
  shows "verify_cp_type cp i (shl1 JVM_CONSTANT_Fieldref) = Inr u \<Longrightarrow> ref_access_ok legal_field_sig cp i"
    and "verify_cp_type cp i (shl1 JVM_CONSTANT_Methodref) = Inr u \<Longrightarrow> ref_access_ok legal_method_sig cp i"
    and "verify_cp_type cp i (shl1 JVM_CONSTANT_InterfaceMethodref) = Inr u \<Longrightarrow>
      ref_access_ok legal_method_sig cp i"
proof -
  have c: "cp_cache cp = None" using assms by (simp add: cp_wf_def)
  show "verify_cp_type cp i (shl1 JVM_CONSTANT_Fieldref) = Inr u \<Longrightarrow> ref_access_ok legal_field_sig cp i"
    using verify_cp_type_Inr [OF c] member_tags(1) cp_wf_entry [OF assms] ref_access [OF c]
    by (metis cp_entry_ok.simps(4) insertI1)
  show "verify_cp_type cp i (shl1 JVM_CONSTANT_Methodref) = Inr u \<Longrightarrow> ref_access_ok legal_method_sig cp i"
    using verify_cp_type_Inr [OF c] member_tags(2) cp_wf_entry [OF assms] ref_access [OF c]
    by (metis cp_entry_ok.simps(5) insertI1 insertI2)
  show "verify_cp_type cp i (shl1 JVM_CONSTANT_InterfaceMethodref) = Inr u \<Longrightarrow>
      ref_access_ok legal_method_sig cp i"
    using verify_cp_type_Inr [OF c] member_tags(3) cp_wf_entry [OF assms] ref_access [OF c]
    by (metis cp_entry_ok.simps(6) insertI1 insertI2)
qed

section \<open>Properties\<close>

text \<open>
  C27. The two indices that a member reference or a name-and-type entry packs into one \<open>jint\<close> are what
  \<^verbatim>\<open>extract_low_short_from_int\<close> and \<^verbatim>\<open>extract_high_short_from_int\<close> read back.
\<close>

theorem pair_of_indices_roundtrip:
  assumes "low < 65536" and "high < 65536"
  shows "extract_low_short_from_int (pair_of_indices low high) = low \<and>
    extract_high_short_from_int (pair_of_indices low high) = high"
  using extract_low_pair [OF assms] extract_high_pair [OF assms] by simp

theorem pair_of_indices_roundtrip_witness:
  "extract_low_short_from_int (pair_of_indices 7 40000) = 7 \<and>
    extract_high_short_from_int (pair_of_indices 7 40000) = 40000"
  by (rule pair_of_indices_roundtrip) simp_all

text \<open>
  C26. A reference to a field, a method or an interface method that has passed the verifier's check of
  its tag delivers a legal class name, a name that is not empty and a descriptor of the right kind; no
  access on the way leaves the pool or mistakes the kind of an entry.
\<close>

theorem checked_reference_safe:
  assumes "cp_wf cp"
    and "verify_cp_type cp i (shl1 tag) = Inr ()"
    and "(tag, legal) \<in> {(JVM_CONSTANT_Fieldref, legal_field_sig), (JVM_CONSTANT_Methodref, legal_method_sig),
      (JVM_CONSTANT_InterfaceMethodref, legal_method_sig)}"
  shows "\<exists>k c n sig. klass_ref_index_at cp i = Inr k \<and> klass_name_at cp k = Inr c \<and> legal_class_name c \<and>
        name_ref_at cp i = Inr n \<and> n \<noteq> [] \<and> signature_ref_at cp i = Inr sig \<and> legal sig"
  using assms(2,3) verify_cp_type_member [OF assms(1), of i "()"] by (auto simp: ref_access_ok_def)

definition ex_field_pool :: constant_pool where
  "ex_field_pool = \<lparr> cp_entries = [CP_Invalid, CP_Fieldref (pair_of_indices 2 3), CP_Class ''A'',
     CP_NameAndType (pair_of_indices 4 5), CP_Utf8 ''x'', CP_Utf8 ''I''], cp_cache = None \<rparr>"

theorem checked_reference_safe_witness:
  "\<exists>k c n sig. klass_ref_index_at ex_field_pool 1 = Inr k \<and> klass_name_at ex_field_pool k = Inr c \<and> legal_class_name c \<and>
        name_ref_at ex_field_pool 1 = Inr n \<and> n \<noteq> [] \<and> signature_ref_at ex_field_pool 1 = Inr sig \<and> legal_field_sig sig"
proof (rule checked_reference_safe)
  have "legal_class_name ''A''" by (simp add: legal_class_name_def invalid_name_char_def)
  moreover have "legal_field_sig ''I''" unfolding legal_field_sig_def by (rule exI [of _ "JPrim CHR ''I''"]) simp
  ultimately show "cp_wf ex_field_pool"
    by (simp add: cp_wf_def ex_field_pool_def member_ref_ok_def is_class_entry_def extract_low_pair extract_high_pair
        klass_name_at_def name_and_type_at_def symbol_at_def)
  show "verify_cp_type ex_field_pool 1 (shl1 JVM_CONSTANT_Fieldref) = Inr ()"
    by (simp add: verify_cp_type_def ex_field_pool_def verify_cp_index_def cp_length_def tag_at_def shl1_def)
qed simp

text \<open>
  C28. The check of a tag shifts 1 by the tag in an \<open>int\<close>, where the machine takes the shift count modulo 32.
  An unresolved string, with tag 102, passes as a \<^verbatim>\<open>CONSTANT_Double\<close>, whose tag is 6.
\<close>

theorem unresolved_string_passes_as_double:
  assumes "0 < i" and "i < cp_length cp" and "cp_entries cp ! i = CP_UnresolvedString" and "cp_cache cp = None"
  shows "verify_cp_type cp i (shl1 JVM_CONSTANT_Double OR shl1 JVM_CONSTANT_Long) = Inr ()"
  using assms by (simp add: verify_cp_type_def verify_cp_index_def tag_at_Inr shl1_def)

theorem unresolved_string_passes_as_double_witness:
  "verify_cp_type \<lparr> cp_entries = [CP_Invalid, CP_UnresolvedString], cp_cache = None \<rparr> 1
     (shl1 JVM_CONSTANT_Double OR shl1 JVM_CONSTANT_Long) = Inr ()"
  by (rule unresolved_string_passes_as_double) (simp_all add: cp_length_def)

end
