(* ===== verification/StackMapFrame.thy ===== *)
theory StackMapFrame
  imports ConstantPool
begin

text \<open>
  Type frames (\<^verbatim>\<open>classfile/stackMapFrame.hpp\<close>, \<^verbatim>\<open>stackMapFrame.cpp\<close>): the types of the local variables and of the
  operand stack at one instruction. The two arrays are lists; a frame of the type checker has
  arrays of \<^verbatim>\<open>max_locals\<close> and \<^verbatim>\<open>max_stack\<close> elements, a frame of the stack map table shorter ones, and the
  sizes say how many elements are valid. Reading or writing outside of an array is a fault.
  The comparisons with \<open>size - 1\<close> of the source, on signed numbers, are written \<open>index + 1\<close> against
  the size. Where the source reports an error and goes on to report further ones before it
  returns, the model stops at the first.

  The operations run in the monad of the prelude. \<open>frame_ok\<close> is the invariant of the frame of the
  type checker: the interpretation of the locale \<open>vm_invariant\<close> with it gives the Hoare rules, and
  for each operation there is a lemma that it keeps the invariant and does not fault. The
  locale \<open>bounded_stack\<close> states the contract of the operand stack; its interpretation shows that the
  array with its size implements a list.
\<close>

section \<open>Frames\<close>

record frame =
  f_offset :: int
  f_locals_size :: nat
  f_stack_size :: nat
  f_max_locals :: nat
  f_max_stack :: nat
  f_flags :: u1
  f_locals :: "vtype list"
  f_stack :: "vtype list"

abbreviation (input) FLAG_THIS_UNINIT :: u1 where "FLAG_THIS_UNINIT \<equiv> 1"

definition stack_map_frame :: "nat \<Rightarrow> nat \<Rightarrow> frame" where
  "stack_map_frame max_locals max_stack =
     \<lparr> f_offset = 0, f_locals_size = 0, f_stack_size = 0, f_max_locals = max_locals,
       f_max_stack = max_stack, f_flags = 0, f_locals = replicate max_locals Bogus,
       f_stack = replicate max_stack Bogus \<rparr>"

definition flag_this_uninit :: "frame \<Rightarrow> bool" where
  "flag_this_uninit f \<longleftrightarrow> f_flags f AND FLAG_THIS_UNINIT \<noteq> 0"

fun fill_bogus :: "vtype list \<Rightarrow> nat \<Rightarrow> vtype list res" where
  "fill_bogus ts 0 = Inr ts"
| "fill_bogus [] (Suc n) = Inl (Fault ''array write'')"
| "fill_bogus (t # ts) (Suc n) = rbind (fill_bogus ts n) (\<lambda>us. Inr (Bogus # us))"

definition reset :: "frame \<Rightarrow> frame res" where
  "reset f =
     rbind (fill_bogus (f_locals f) (f_max_locals f)) (\<lambda>ls.
     rbind (fill_bogus (f_stack f) (f_max_stack f)) (\<lambda>st.
       Inr (f\<lparr> f_locals := ls, f_stack := st \<rparr>)))"

text \<open>The one element of the new stack is written before it is read.\<close>

definition frame_in_exception_handler :: "frame \<Rightarrow> u1 \<Rightarrow> frame" where
  "frame_in_exception_handler f flags = f\<lparr> f_flags := flags, f_stack_size := 0, f_stack := [Bogus] \<rparr>"

fun any_uninitialized :: "vtype list \<Rightarrow> nat \<Rightarrow> bool res" where
  "any_uninitialized ts 0 = Inr False"
| "any_uninitialized [] (Suc n) = Inl (Fault ''array read'')"
| "any_uninitialized (t # ts) (Suc n) =
     (if is_uninitialized t then Inr True else any_uninitialized ts n)"

definition has_new_object :: "frame \<Rightarrow> bool res" where
  "has_new_object f =
     rbind (any_uninitialized (f_locals f) (f_max_locals f)) (\<lambda>b.
       if b then Inr True else any_uninitialized (f_stack f) (f_stack_size f))"

fun replace_type :: "vtype \<Rightarrow> vtype \<Rightarrow> vtype list \<Rightarrow> nat \<Rightarrow> vtype list res" where
  "replace_type old new ts 0 = Inr ts"
| "replace_type old new [] (Suc n) = Inl (Fault ''array read'')"
| "replace_type old new (t # ts) (Suc n) =
     rbind (replace_type old new ts n) (\<lambda>us. Inr ((if t = old then new else t) # us))"

definition initialize_object :: "vtype \<Rightarrow> vtype \<Rightarrow> (frame, unit) vm" where
  "initialize_object old_object new_object = (\<lambda>f.
     rbind (replace_type old_object new_object (f_locals f) (f_max_locals f)) (\<lambda>ls.
     rbind (replace_type old_object new_object (f_stack f) (f_stack_size f)) (\<lambda>st.
       let f = f\<lparr> f_locals := ls, f_stack := st \<rparr> in
       Inr ((), if old_object = uninitialized_this_type then f\<lparr> f_flags := 0 \<rparr> else f))))"

fun copy_array :: "vtype list \<Rightarrow> vtype list \<Rightarrow> nat \<Rightarrow> vtype list res" where
  "copy_array src dst 0 = Inr dst"
| "copy_array (s # src) (d # dst) (Suc n) = rbind (copy_array src dst n) (\<lambda>ts. Inr (s # ts))"
| "copy_array src dst (Suc n) = Inl (Fault ''array copy'')"

definition copy_locals :: "frame \<Rightarrow> frame \<Rightarrow> frame res" where
  "copy_locals src f =
     (let len = (if f_locals_size src < f_locals_size f then f_locals_size src else f_locals_size f) in
      rbind (copy_array (f_locals src) (f_locals f) len) (\<lambda>ls. Inr (f\<lparr> f_locals := ls \<rparr>)))"

definition copy_stack :: "frame \<Rightarrow> frame \<Rightarrow> frame res" where
  "copy_stack src f =
     (let len = (if f_stack_size src < f_stack_size f then f_stack_size src else f_stack_size f) in
      rbind (copy_array (f_stack src) (f_stack f) len) (\<lambda>st. Inr (f\<lparr> f_stack := st \<rparr>)))"

section \<open>Assignability of frames\<close>

fun types_assignable_to ::
  "(string \<Rightarrow> klass res) \<Rightarrow> vtype list \<Rightarrow> vtype list \<Rightarrow> nat \<Rightarrow> bool res" where
  "types_assignable_to r from to 0 = Inr True"
| "types_assignable_to r (a # from) (b # to) (Suc n) =
     rbind (is_assignable_from r b a) (\<lambda>subtype.
       if \<not> subtype then Inr False else types_assignable_to r from to n)"
| "types_assignable_to r from to (Suc n) = Inl (Fault ''array read'')"

definition is_assignable_to :: "(string \<Rightarrow> klass res) \<Rightarrow> frame \<Rightarrow> frame \<Rightarrow> bool res" where
  "is_assignable_to r f target =
     (if f_max_locals f \<noteq> f_max_locals target \<or> f_stack_size f \<noteq> f_stack_size target then Inr False
      else
        rbind (types_assignable_to r (f_locals f) (f_locals target) (f_locals_size target)) (\<lambda>match_locals.
        rbind (types_assignable_to r (f_stack f) (f_stack target) (f_stack_size f)) (\<lambda>match_stack.
          let match_flags = (f_flags f OR f_flags target = f_flags target) in
          Inr (match_locals \<and> match_stack \<and> match_flags))))"

section \<open>The operand stack\<close>

definition push_stack :: "vtype \<Rightarrow> (frame, unit) vm" where
  "push_stack type = (\<lambda>f.
     if f_stack_size f \<ge> f_max_stack f then Inl (VerifyError ''Operand stack overflow'')
     else rbind (arr_set (f_stack f) (f_stack_size f) type) (\<lambda>st.
            Inr ((), f\<lparr> f_stack := st, f_stack_size := f_stack_size f + 1 \<rparr>)))"

definition push_stack_2 :: "vtype \<Rightarrow> vtype \<Rightarrow> (frame, unit) vm" where
  "push_stack_2 type1 type2 = (\<lambda>f.
     if f_stack_size f + 1 \<ge> f_max_stack f then Inl (VerifyError ''Operand stack overflow'')
     else rbind (arr_set (f_stack f) (f_stack_size f) type1) (\<lambda>st.
          rbind (arr_set st (f_stack_size f + 1) type2) (\<lambda>st.
            Inr ((), f\<lparr> f_stack := st, f_stack_size := f_stack_size f + 2 \<rparr>))))"

text \<open>\<^verbatim>\<open>pop_stack()\<close>, without a check of the type.\<close>

definition pop_stack_any :: "(frame, vtype) vm" where
  "pop_stack_any = (\<lambda>f.
     if f_stack_size f = 0 then Inl (VerifyError ''Operand stack underflow'')
     else rbind (arr_get (f_stack f) (f_stack_size f - 1)) (\<lambda>top.
            Inr (top, f\<lparr> f_stack_size := f_stack_size f - 1 \<rparr>)))"

definition pop_stack_ex :: "(string \<Rightarrow> klass res) \<Rightarrow> vtype \<Rightarrow> (frame, vtype) vm" where
  "pop_stack_ex r type = (\<lambda>f.
     if f_stack_size f = 0 then Inl (VerifyError ''Operand stack underflow'')
     else rbind (arr_get (f_stack f) (f_stack_size f - 1)) (\<lambda>top.
          rbind (is_assignable_from r type top) (\<lambda>subtype.
            if \<not> subtype then Inl (VerifyError ''Bad type on operand stack'')
            else Inr (top, f\<lparr> f_stack_size := f_stack_size f - 1 \<rparr>))))"

definition pop_stack :: "(string \<Rightarrow> klass res) \<Rightarrow> vtype \<Rightarrow> (frame, vtype) vm" where
  "pop_stack r type = (\<lambda>f.
     if f_stack_size f \<noteq> 0 then
       rbind (arr_get (f_stack f) (f_stack_size f - 1)) (\<lambda>top.
       rbind (is_assignable_from r type top) (\<lambda>subtype.
         if subtype then Inr (top, f\<lparr> f_stack_size := f_stack_size f - 1 \<rparr>)
         else pop_stack_ex r type f))
     else pop_stack_ex r type f)"

definition pop_stack_2 :: "(string \<Rightarrow> klass res) \<Rightarrow> vtype \<Rightarrow> vtype \<Rightarrow> (frame, unit) vm" where
  "pop_stack_2 r type1 type2 = (\<lambda>f.
     if f_stack_size f \<ge> 2 then
       rbind (arr_get (f_stack f) (f_stack_size f - 1)) (\<lambda>top1.
       rbind (is_assignable_from r type1 top1) (\<lambda>subtype1.
       rbind (arr_get (f_stack f) (f_stack_size f - 2)) (\<lambda>top2.
       rbind (is_assignable_from r type2 top2) (\<lambda>subtype2.
         if subtype1 \<and> subtype2 then Inr ((), f\<lparr> f_stack_size := f_stack_size f - 2 \<rparr>)
         else vthen (pop_stack_ex r type1) (vthen (pop_stack_ex r type2) (vreturn ())) f))))
     else vthen (pop_stack_ex r type1) (vthen (pop_stack_ex r type2) (vreturn ())) f)"

section \<open>The local variables\<close>

definition get_local :: "(string \<Rightarrow> klass res) \<Rightarrow> nat \<Rightarrow> vtype \<Rightarrow> (frame, vtype) vm" where
  "get_local r index type = (\<lambda>f.
     if index \<ge> f_max_locals f then Inl (VerifyError ''Local variable table overflow'')
     else
       rbind (arr_get (f_locals f) index) (\<lambda>l.
       rbind (is_assignable_from r type l) (\<lambda>subtype.
         if \<not> subtype then Inl (VerifyError ''Bad local variable type'')
         else Inr (l, if index \<ge> f_locals_size f then f\<lparr> f_locals_size := index + 1 \<rparr> else f))))"

definition get_local_2 :: "(string \<Rightarrow> klass res) \<Rightarrow> nat \<Rightarrow> vtype \<Rightarrow> vtype \<Rightarrow> (frame, unit) vm" where
  "get_local_2 r index type1 type2 = (\<lambda>f.
     if index + 1 \<ge> f_locals_size f then Inl (VerifyError ''get long/double overflows locals'')
     else
       rbind (arr_get (f_locals f) index) (\<lambda>l1.
       rbind (is_assignable_from r type1 l1) (\<lambda>subtype1.
       rbind (arr_get (f_locals f) (index + 1)) (\<lambda>l2.
       rbind (is_assignable_from r type2 l2) (\<lambda>subtype2.
         if \<not> subtype1 \<or> \<not> subtype2 then Inl (VerifyError ''Bad local variable type'')
         else Inr ((), f))))))"

definition set_local :: "nat \<Rightarrow> vtype \<Rightarrow> (frame, unit) vm" where
  "set_local index type = (\<lambda>f.
     if index \<ge> f_max_locals f then Inl (VerifyError ''Local variable table overflow'')
     else
       rbind (arr_get (f_locals f) index) (\<lambda>l.
       rbind (if l = Double \<or> l = Long then arr_set (f_locals f) (index + 1) Bogus
              else Inr (f_locals f)) (\<lambda>ls.
       rbind (arr_get ls index) (\<lambda>l.
       rbind (if l = Double_2nd \<or> l = Long_2nd
              then (if index < 1 then Inl (Fault ''array write'') else arr_set ls (index - 1) Bogus)
              else Inr ls) (\<lambda>ls.
       rbind (arr_set ls index type) (\<lambda>ls.
         let f = f\<lparr> f_locals := ls \<rparr> in
         Inr ((), if index \<ge> f_locals_size f then f\<lparr> f_locals_size := index + 1 \<rparr> else f)))))))"

definition set_local_2 :: "nat \<Rightarrow> vtype \<Rightarrow> vtype \<Rightarrow> (frame, unit) vm" where
  "set_local_2 index type1 type2 = (\<lambda>f.
     if index + 1 \<ge> f_max_locals f then Inl (VerifyError ''Local variable table overflow'')
     else
       rbind (arr_get (f_locals f) (index + 1)) (\<lambda>l.
       rbind (if l = Double \<or> l = Long then arr_set (f_locals f) (index + 2) Bogus
              else Inr (f_locals f)) (\<lambda>ls.
       rbind (arr_get ls index) (\<lambda>l.
       rbind (if l = Double_2nd \<or> l = Long_2nd
              then (if index < 1 then Inl (Fault ''array write'') else arr_set ls (index - 1) Bogus)
              else Inr ls) (\<lambda>ls.
       rbind (arr_set ls index type1) (\<lambda>ls.
       rbind (arr_set ls (index + 1) type2) (\<lambda>ls.
         let f = f\<lparr> f_locals := ls \<rparr> in
         Inr ((), if index + 1 \<ge> f_locals_size f then f\<lparr> f_locals_size := index + 2 \<rparr> else f))))))))"

section \<open>The frame at the entry of a method\<close>

text \<open>The type of the result as the declared descriptor has it; \<open>Bogus\<close> for \<open>void\<close>.\<close>

definition return_vtype :: "sig_stream \<Rightarrow> vtype res" where
  "return_vtype ss =
     (case ss_type ss of
        T_OBJECT \<Rightarrow> rbind (as_symbol ss) (\<lambda>n. Inr (Reference n))
      | T_ARRAY \<Rightarrow> rbind (as_symbol ss) (\<lambda>n. Inr (Reference n))
      | T_INT \<Rightarrow> Inr Integer
      | T_BYTE \<Rightarrow> Inr Byte
      | T_CHAR \<Rightarrow> Inr Char
      | T_SHORT \<Rightarrow> Inr Short
      | T_BOOLEAN \<Rightarrow> Inr Boolean
      | T_FLOAT \<Rightarrow> Inr Float
      | T_DOUBLE \<Rightarrow> Inr Double
      | T_LONG \<Rightarrow> Inr Long
      | T_VOID \<Rightarrow> Inr Bogus
      | _ \<Rightarrow> Inl (Fault ''ShouldNotReachHere''))"

definition set_this :: "meth \<Rightarrow> vtype \<Rightarrow> (frame, nat) vm" where
  "set_this m thisKlass = (\<lambda>f.
     if \<not> mt_is_static m then
       (if mt_name m = ''<init>'' \<and> name_of thisKlass \<noteq> ''java/lang/Object'' then
          rbind (arr_set (f_locals f) 0 uninitialized_this_type) (\<lambda>ls.
            Inr (1, f\<lparr> f_locals := ls, f_flags := f_flags f OR FLAG_THIS_UNINIT \<rparr>))
        else
          rbind (arr_set (f_locals f) 0 thisKlass) (\<lambda>ls. Inr (1, f\<lparr> f_locals := ls \<rparr>)))
     else Inr (0, f))"

definition set_locals_from_arg :: "meth \<Rightarrow> vtype \<Rightarrow> (frame, vtype) vm" where
  "set_locals_from_arg m thisKlass =
     vbind (vlift (signature_stream (mt_signature m) True)) (\<lambda>ss.
     vbind (set_this m thisKlass) (\<lambda>init_local_num.
     vbind (vget f_locals) (\<lambda>ls.
     vbind (vlift (sig_types_loop (length ls) init_local_num ss)) (\<lambda>(ts, ss).
     vthen (vmodify (\<lambda>f. f\<lparr>
        f_locals := take init_local_num ls @ ts @ drop (init_local_num + length ts) ls,
        f_locals_size := init_local_num + length ts \<rparr>))
     (vlift (return_vtype ss))))))"

section \<open>Pairs of slots\<close>

text \<open>
  The two halves of a long or double stand next to each other. A position counts from 1; the
  positions before and after the array hold \<open>Bogus\<close>.
\<close>

definition slot :: "vtype list \<Rightarrow> nat \<Rightarrow> vtype" where
  "slot ts k = (if 0 < k \<and> k \<le> length ts then ts ! (k - 1) else Bogus)"

text \<open>Which two-slot type a slot is the first or the second half of.\<close>

fun half1 :: "vtype \<Rightarrow> nat" where
  "half1 Long = 1" | "half1 Double = 2" | "half1 t = 0"

fun half2 :: "vtype \<Rightarrow> nat" where
  "half2 Long_2nd = 1" | "half2 Double_2nd = 2" | "half2 t = 0"

definition paired :: "vtype list \<Rightarrow> bool" where
  "paired ts \<longleftrightarrow> (\<forall>k. half1 (slot ts k) = half2 (slot ts (Suc k)))"

definition single :: "vtype \<Rightarrow> bool" where
  "single t \<longleftrightarrow> half1 t = 0 \<and> half2 t = 0"

lemma half1_iff: "half1 t \<noteq> 0 \<longleftrightarrow> t = Long \<or> t = Double"
  by (cases t) auto

lemma half2_iff: "half2 t \<noteq> 0 \<longleftrightarrow> t = Long_2nd \<or> t = Double_2nd"
  by (cases t) auto

lemma halves_exclusive: "half1 t = 0 \<or> half2 t = 0"
  by (cases t) auto

lemma slot_0 [simp]: "slot ts 0 = Bogus"
  by (simp add: slot_def)

lemma slot_Suc [simp]: "i < length ts \<Longrightarrow> slot ts (Suc i) = ts ! i"
  by (simp add: slot_def)

lemma slot_beyond [simp]: "length ts < k \<Longrightarrow> slot ts k = Bogus"
  by (simp add: slot_def)

lemma slot_update:
  "i < length ts \<Longrightarrow> slot (ts[i := t]) k = (if k = Suc i then t else slot ts k)"
  by (auto simp: slot_def nth_list_update)

lemma paired_replicate [simp]: "paired (replicate n Bogus)"
  by (auto simp: paired_def slot_def)

lemma pairedD: "paired ts \<Longrightarrow> half1 (slot ts k) = half2 (slot ts (Suc k))"
  by (simp add: paired_def)

lemma paired_first:
  assumes "paired ts" and "i < length ts" and "half1 (ts ! i) \<noteq> 0"
  shows "Suc i < length ts"
proof (rule ccontr)
  assume "\<not> Suc i < length ts"
  with assms(2) have "slot ts (Suc (Suc i)) = Bogus" by simp
  with pairedD [OF assms(1), of "Suc i"] assms(2,3) show False by simp
qed

lemma paired_second:
  assumes "paired ts" and "i < length ts" and "half2 (ts ! i) \<noteq> 0"
  shows "0 < i"
proof (rule ccontr)
  assume "\<not> 0 < i"
  with pairedD [OF assms(1), of 0] assms(2,3) show False by simp
qed

text \<open>Clearing the other halves of the pairs that overwriting the slots \<open>i\<close> to \<open>j\<close> breaks.\<close>

definition clear_next :: "vtype list \<Rightarrow> nat \<Rightarrow> vtype list" where
  "clear_next ts j = (if half1 (ts ! j) \<noteq> 0 then ts[Suc j := Bogus] else ts)"

definition clear_prev :: "vtype list \<Rightarrow> nat \<Rightarrow> vtype list" where
  "clear_prev ts i = (if half2 (ts ! i) \<noteq> 0 then ts[i - 1 := Bogus] else ts)"

definition clear_pair :: "vtype list \<Rightarrow> nat \<Rightarrow> nat \<Rightarrow> vtype list" where
  "clear_pair ts i j = clear_prev (clear_next ts j) i"

lemma length_clear [simp]:
  "length (clear_next ts j) = length ts" "length (clear_prev ts i) = length ts"
  "length (clear_pair ts i j) = length ts"
  by (simp_all add: clear_next_def clear_prev_def clear_pair_def)

lemma slot_clear_pair:
  assumes "paired ts" and "i \<le> j" and "j < length ts"
  shows "slot (clear_pair ts i j) k =
    (if k = Suc (Suc j) \<and> half1 (slot ts (Suc j)) \<noteq> 0 then Bogus
     else if k = i \<and> half2 (slot ts (Suc i)) \<noteq> 0 then Bogus
     else slot ts k)"
proof -
  have next_slot: "slot (clear_next ts j) k = (if k = Suc (Suc j) \<and> half1 (slot ts (Suc j)) \<noteq> 0 then Bogus else slot ts k)"
    for k
    using paired_first [OF assms(1,3)] assms(3) by (auto simp: clear_next_def slot_update)
  have i: "clear_next ts j ! i = ts ! i" using assms(2) by (simp add: clear_next_def)
  have i': "i < length ts" using assms by simp
  show ?thesis
  proof (cases "half2 (ts ! i) = 0")
    case True
    with i i' next_slot show ?thesis by (simp add: clear_pair_def clear_prev_def)
  next
    case False
    then have "0 < i" using paired_second [OF assms(1) i'] by simp
    then have "i - 1 < length (clear_next ts j)" "Suc (i - 1) = i" using i' by auto
    with False i i' next_slot assms(2) show ?thesis
      by (simp add: clear_pair_def clear_prev_def slot_update)
  qed
qed

lemma paired_set_single:
  assumes p: "paired ts" and i: "i < length ts" and t: "single t"
  shows "paired ((clear_pair ts i i)[i := t])"
  unfolding paired_def
proof
  fix k
  have l: "half1 (slot ts k) = half2 (slot ts (Suc k))" for k using p by (rule pairedD)
  have i': "i < length (clear_pair ts i i)" using i by simp
  show "half1 (slot ((clear_pair ts i i)[i := t]) k) = half2 (slot ((clear_pair ts i i)[i := t]) (Suc k))"
    unfolding slot_update [OF i'] slot_clear_pair [OF p order.refl i]
    using l [of k] l [of i] l [of "Suc i"] t halves_exclusive [of "slot ts k"]
      halves_exclusive [of "slot ts (Suc k)"]
    by (auto simp: single_def)
qed

lemma paired_set_double:
  assumes p: "paired ts" and i: "Suc i < length ts"
    and t: "half1 t = half2 u" "half2 t = 0" "half1 u = 0"
  shows "paired ((clear_pair ts i (Suc i))[i := t, Suc i := u])"
  unfolding paired_def
proof
  fix k
  have l: "half1 (slot ts k) = half2 (slot ts (Suc k))" for k using p by (rule pairedD)
  have i': "i < length (clear_pair ts i (Suc i))" "Suc i < length ((clear_pair ts i (Suc i))[i := t])"
    using i by simp_all
  have ij: "i \<le> Suc i" by simp
  show "half1 (slot ((clear_pair ts i (Suc i))[i := t, Suc i := u]) k) =
      half2 (slot ((clear_pair ts i (Suc i))[i := t, Suc i := u]) (Suc k))"
    unfolding slot_update [OF i'(2)] slot_update [OF i'(1)] slot_clear_pair [OF p ij i]
    using l [of k] l [of i] l [of "Suc i"] l [of "Suc (Suc i)"] t halves_exclusive [of "slot ts k"]
      halves_exclusive [of "slot ts (Suc k)"]
    by auto
qed

section \<open>The invariant of the type checker's frame\<close>

definition type_ok :: "vtype \<Rightarrow> bool" where
  "type_ok t \<longleftrightarrow> vtype_wf t \<and> \<not> is_check t"

definition frame_ok :: "nat \<Rightarrow> nat \<Rightarrow> frame \<Rightarrow> bool" where
  "frame_ok ml ms f \<longleftrightarrow>
     f_max_locals f = ml \<and> f_max_stack f = ms \<and> length (f_locals f) = ml \<and> length (f_stack f) = ms \<and>
     f_locals_size f \<le> ml \<and> f_stack_size f \<le> ms \<and>
     list_all type_ok (f_locals f) \<and> list_all type_ok (take (f_stack_size f) (f_stack f)) \<and>
     paired (f_locals f) \<and>
     list_all (\<lambda>t. t = Bogus) (drop (f_locals_size f) (f_locals f))"

lemma type_ok_simps [simp]:
  "type_ok Bogus" "type_ok Integer" "type_ok Float" "type_ok Long" "type_ok Double"
  "type_ok Long_2nd" "type_ok Double_2nd" "type_ok Null"
  "type_ok (Reference n) = legal_class_name n" "type_ok (Uninitialized b) = (b < 65536)"
  by (simp_all add: type_ok_def is_check_def)

lemma single_simps [simp]:
  "single Bogus" "single Integer" "single Float" "single Null" "single (Reference n)"
  "single (Uninitialized b)"
  by (simp_all add: single_def)

interpretation fr: vm_invariant "frame_ok ml ms" for ml ms .

section \<open>The contract of the operand stack\<close>

locale bounded_stack =
  fixes ok :: "'s \<Rightarrow> bool"
    and contents :: "'s \<Rightarrow> 'a list"
    and cap :: "'s \<Rightarrow> nat"
    and push :: "'a \<Rightarrow> ('s, unit) vm"
    and pop :: "('s, 'a) vm"
  assumes push_room: "ok s \<Longrightarrow> length (contents s) < cap s \<Longrightarrow>
      \<exists>s'. push x s = Inr ((), s') \<and> ok s' \<and> contents s' = x # contents s \<and> cap s' = cap s"
    and push_full: "ok s \<Longrightarrow> length (contents s) = cap s \<Longrightarrow> \<exists>m. push x s = Inl (VerifyError m)"
    and pop_top: "ok s \<Longrightarrow> contents s = x # xs \<Longrightarrow>
      \<exists>s'. pop s = Inr (x, s') \<and> ok s' \<and> contents s' = xs \<and> cap s' = cap s"
    and pop_empty: "ok s \<Longrightarrow> contents s = [] \<Longrightarrow> \<exists>m. pop s = Inl (VerifyError m)"
    and bounded: "ok s \<Longrightarrow> length (contents s) \<le> cap s"
begin

lemma pop_push:
  assumes "ok s" and "push x s = Inr (u, s')"
  shows "\<exists>s''. pop s' = Inr (x, s'') \<and> ok s'' \<and> contents s'' = contents s"
proof -
  have "length (contents s) < cap s"
    using bounded [OF assms(1)] push_full [OF assms(1), of x] assms(2)
    by (cases "length (contents s) = cap s") auto
  from push_room [OF assms(1) this, of x] assms(2) have "ok s'" "contents s' = x # contents s" by auto
  then show ?thesis using pop_top by blast
qed

text \<open>Pushing a list succeeds exactly when it fits, and leaves the list on top, last element first.\<close>

lemma push_list_room:
  "ok s \<Longrightarrow> length (contents s) + length xs \<le> cap s \<Longrightarrow>
   \<exists>s'. vfor push xs s = Inr ((), s') \<and> ok s' \<and> contents s' = rev xs @ contents s \<and> cap s' = cap s"
proof (induction xs arbitrary: s)
  case Nil
  then show ?case by (simp add: vreturn_def)
next
  case (Cons x xs)
  then obtain s1 where s1: "push x s = Inr ((), s1)" "ok s1" "contents s1 = x # contents s" "cap s1 = cap s"
    using push_room [of s x] by auto
  with Cons.IH [of s1] Cons.prems show ?case by (auto simp: vthen_def vbind_def)
qed

lemma push_list_full:
  "ok s \<Longrightarrow> length (contents s) + length xs > cap s \<Longrightarrow> \<exists>m. vfor push xs s = Inl (VerifyError m)"
proof (induction xs arbitrary: s)
  case Nil
  with bounded [of s] show ?case by simp
next
  case (Cons x xs)
  show ?case
  proof (cases "length (contents s) = cap s")
    case True
    with push_full [OF Cons.prems(1), of x] show ?thesis by (auto simp: vthen_def vbind_def)
  next
    case False
    with bounded [OF Cons.prems(1)] push_room [OF Cons.prems(1), of x] obtain s1 where
      "push x s = Inr ((), s1)" "ok s1" "contents s1 = x # contents s" "cap s1 = cap s" by auto
    with Cons.IH [of s1] Cons.prems show ?thesis by (auto simp: vthen_def vbind_def)
  qed
qed

end

definition stack_shape :: "frame \<Rightarrow> bool" where
  "stack_shape f \<longleftrightarrow> length (f_stack f) = f_max_stack f \<and> f_stack_size f \<le> f_max_stack f"

definition stack_types :: "frame \<Rightarrow> vtype list" where
  "stack_types f = rev (take (f_stack_size f) (f_stack f))"

lemma take_Suc_update: "n < length xs \<Longrightarrow> take (Suc n) (xs[n := x]) = take n xs @ [x]"
  by (simp add: take_Suc_conv_app_nth)

lemma stack_types_length: "stack_shape f \<Longrightarrow> length (stack_types f) = f_stack_size f"
  by (simp add: stack_shape_def stack_types_def)

lemma stack_types_Cons:
  "stack_shape f \<Longrightarrow> 0 < f_stack_size f \<Longrightarrow>
   stack_types f = f_stack f ! (f_stack_size f - 1) # rev (take (f_stack_size f - 1) (f_stack f))"
  by (cases "f_stack_size f") (auto simp: stack_shape_def stack_types_def take_Suc_conv_app_nth)

interpretation ostack: bounded_stack stack_shape stack_types f_max_stack push_stack pop_stack_any
proof
  fix f x
  assume f: "stack_shape f" "length (stack_types f) < f_max_stack f"
  then have "f_stack_size f < length (f_stack f)" by (simp add: stack_types_length) (simp add: stack_shape_def)
  with f show "\<exists>f'. push_stack x f = Inr ((), f') \<and> stack_shape f' \<and>
      stack_types f' = x # stack_types f \<and> f_max_stack f' = f_max_stack f"
    by (simp add: push_stack_def stack_types_length)
      (simp add: stack_shape_def stack_types_def take_Suc_update)
next
  fix f x
  assume "stack_shape f" "length (stack_types f) = f_max_stack f"
  then show "\<exists>m. push_stack x f = Inl (VerifyError m)"
    by (simp add: push_stack_def stack_types_length)
next
  fix f x xs
  assume f: "stack_shape f" "stack_types f = x # xs"
  then have s: "0 < f_stack_size f" using stack_types_length [of f] by simp
  with f have "x = f_stack f ! (f_stack_size f - 1)" "xs = rev (take (f_stack_size f - 1) (f_stack f))"
    using stack_types_Cons [of f] by simp_all
  with f s show "\<exists>f'. pop_stack_any f = Inr (x, f') \<and> stack_shape f' \<and> stack_types f' = xs \<and>
      f_max_stack f' = f_max_stack f"
    by (auto simp: pop_stack_any_def stack_shape_def stack_types_def)
next
  fix f
  assume "stack_shape f" "stack_types f = []"
  then show "\<exists>m. pop_stack_any f = Inl (VerifyError m)"
    using stack_types_length [of f] by (simp add: pop_stack_any_def)
next
  fix f
  assume "stack_shape f"
  then show "length (stack_types f) \<le> f_max_stack f"
    by (simp add: stack_types_length) (simp add: stack_shape_def)
qed
section \<open>The operations keep the invariant and do not fault\<close>

lemma assign_not_fault:
  "resolve_safe r \<Longrightarrow> vtype_wf t \<Longrightarrow> vtype_wf u \<Longrightarrow> is_assignable_from r t u = Inl e \<Longrightarrow> \<not> is_fault e"
  using is_assignable_from_no_fault [of r t u] by simp

lemma frame_ok_top:
  "frame_ok ml ms f \<Longrightarrow> 0 < f_stack_size f \<Longrightarrow> type_ok (f_stack f ! (f_stack_size f - Suc 0))"
  by (auto simp: frame_ok_def list_all_length)

lemma frame_ok_below:
  "frame_ok ml ms f \<Longrightarrow> n < f_stack_size f \<Longrightarrow> type_ok (f_stack f ! n)"
  by (auto simp: frame_ok_def list_all_length)

lemma list_all_take_mono: "list_all P (take n xs) \<Longrightarrow> m \<le> n \<Longrightarrow> list_all P (take m xs)"
  by (metis list_all_append append_take_drop_id min.absorb1 take_take)

lemma frame_ok_shrink: "frame_ok ml ms f \<Longrightarrow> n \<le> f_stack_size f \<Longrightarrow> frame_ok ml ms (f\<lparr> f_stack_size := n \<rparr>)"
  by (auto simp: frame_ok_def intro: list_all_take_mono)

lemma push_stack_keeps [vm_intros]: "type_ok t \<Longrightarrow> fr.keeps ml ms (\<lambda>_. True) (push_stack t)"
  by (rule fr.keepsI) (auto simp: push_stack_def frame_ok_def take_Suc_update rbind_eq_Inl split: if_splits)

lemma push_stack_2_keeps [vm_intros]:
  assumes "type_ok t" and "type_ok u"
  shows "fr.keeps ml ms (\<lambda>_. True) (push_stack_2 t u)"
proof -
  have "take (Suc (Suc n)) (xs[n := t, Suc n := u]) = take n xs @ [t, u]" if "Suc n < length xs" for n xs
    using that by (simp add: take_Suc_conv_app_nth)
  with assms show ?thesis
    by (intro fr.keepsI) (auto simp: push_stack_2_def frame_ok_def rbind_eq_Inl split: if_splits)
qed

lemma pop_stack_any_keeps [vm_intros]: "fr.keeps ml ms type_ok pop_stack_any"
proof (rule fr.keepsI)
  fix f e
  assume "frame_ok ml ms f" "pop_stack_any f = Inl e"
  then show "\<not> is_fault e" by (auto simp: pop_stack_any_def frame_ok_def rbind_eq_Inl split: if_splits)
next
  fix f t f'
  assume f: "frame_ok ml ms f" and p: "pop_stack_any f = Inr (t, f')"
  then have "0 < f_stack_size f" "t = f_stack f ! (f_stack_size f - 1)"
      "f' = f\<lparr> f_stack_size := f_stack_size f - 1 \<rparr>"
    by (auto simp: pop_stack_any_def arr_get_Inr split: if_splits)
  with f show "frame_ok ml ms f' \<and> type_ok t" by (auto intro: frame_ok_shrink frame_ok_top)
qed

lemma pop_stack_eq_ex: "pop_stack r t = pop_stack_ex r t"
  by (rule ext, rename_tac f, case_tac "arr_get (f_stack f) (f_stack_size f - 1)")
    (auto simp: pop_stack_def pop_stack_ex_def intro!: rbind_cong)

lemma pop_stack_Inr:
  assumes "pop_stack r t f = Inr (u, f')"
  shows "0 < f_stack_size f \<and> f_stack_size f - 1 < length (f_stack f) \<and>
    u = f_stack f ! (f_stack_size f - 1) \<and> assignable r u t \<and>
    f' = f\<lparr> f_stack_size := f_stack_size f - 1 \<rparr>"
  using assms
  by (auto simp: pop_stack_eq_ex pop_stack_ex_def arr_get_Inr assignable_def split: if_splits)

lemma pop_stack_keeps [vm_intros]:
  assumes r: "resolve_safe r" and t: "vtype_wf t"
  shows "fr.keeps ml ms (\<lambda>u. type_ok u \<and> assignable r u t) (pop_stack r t)"
proof (rule fr.keepsI)
  fix f e
  assume f: "frame_ok ml ms f" and e: "pop_stack r t f = Inl e"
  show "\<not> is_fault e"
  proof (cases "f_stack_size f = 0")
    case True
    with e show ?thesis by (auto simp: pop_stack_eq_ex pop_stack_ex_def)
  next
    case False
    with f have "arr_get (f_stack f) (f_stack_size f - 1) = Inr (f_stack f ! (f_stack_size f - 1))"
      by (auto simp: frame_ok_def)
    with e False assign_not_fault [OF r t] frame_ok_top [OF f] show ?thesis
      by (auto simp: pop_stack_eq_ex pop_stack_ex_def rbind_eq_Inl type_ok_def split: if_splits)
  qed
next
  fix f u f'
  assume "frame_ok ml ms f" and "pop_stack r t f = Inr (u, f')"
  then show "frame_ok ml ms f' \<and> type_ok u \<and> assignable r u t"
    using pop_stack_Inr [of r t f u f'] by (auto intro: frame_ok_shrink frame_ok_top)
qed

lemma pop_stack_2_Inr:
  assumes "pop_stack_2 r t u f = Inr (x, f')"
  shows "2 \<le> f_stack_size f \<and> assignable r (f_stack f ! (f_stack_size f - 1)) t \<and>
    assignable r (f_stack f ! (f_stack_size f - 2)) u \<and> f' = f\<lparr> f_stack_size := f_stack_size f - 2 \<rparr>"
proof (cases "2 \<le> f_stack_size f")
  case True
  with assms show ?thesis
    by (auto simp: pop_stack_2_def arr_get_Inr assignable_def vthen_Inr pop_stack_ex_def vreturn_def
        numeral_2_eq_2 split: if_splits)
next
  case False
  with assms show ?thesis
    by (auto simp: pop_stack_2_def vthen_Inr pop_stack_ex_def split: if_splits)
qed

lemma pop_stack_2_keeps [vm_intros]:
  assumes r: "resolve_safe r" and t: "vtype_wf t" and u: "vtype_wf u"
  shows "fr.keeps ml ms (\<lambda>_. True) (pop_stack_2 r t u)"
proof (rule fr.keepsI)
  have pops: "fr.keeps ml ms (\<lambda>_. True) (vthen (pop_stack_ex r t) (vthen (pop_stack_ex r u) (vreturn ())))"
    using pop_stack_keeps [OF r t] pop_stack_keeps [OF r u]
    by (auto simp: pop_stack_eq_ex intro!: fr.keeps_then fr.keeps_return)
  fix f e
  assume f: "frame_ok ml ms f" and e: "pop_stack_2 r t u f = Inl e"
  from fr.keeps_no_fault [OF pops f]
  have ex: "vthen (pop_stack_ex r t) (vthen (pop_stack_ex r u) (vreturn ())) f = Inl e \<Longrightarrow> \<not> is_fault e"
    by simp
  show "\<not> is_fault e"
  proof (cases "2 \<le> f_stack_size f")
    case True
    with f have get: "arr_get (f_stack f) (f_stack_size f - 1) = Inr (f_stack f ! (f_stack_size f - 1))"
        "arr_get (f_stack f) (f_stack_size f - 2) = Inr (f_stack f ! (f_stack_size f - 2))"
      by (auto simp: frame_ok_def)
    have "type_ok (f_stack f ! (f_stack_size f - 1))" "type_ok (f_stack f ! (f_stack_size f - 2))"
      using frame_ok_below [OF f] True by auto
    with True e get ex assign_not_fault [OF r t] assign_not_fault [OF r u] show ?thesis
      by (auto simp: pop_stack_2_def rbind_eq_Inl type_ok_def split: if_splits)
  next
    case False
    with e ex show ?thesis by (simp add: pop_stack_2_def)
  qed
next
  fix f x f'
  assume "frame_ok ml ms f" and "pop_stack_2 r t u f = Inr (x, f')"
  then show "frame_ok ml ms f' \<and> True"
    using pop_stack_2_Inr [of r t u f x f'] by (auto intro: frame_ok_shrink)
qed

lemma frame_ok_local: "frame_ok ml ms f \<Longrightarrow> i < ml \<Longrightarrow> type_ok (f_locals f ! i)"
  by (auto simp: frame_ok_def list_all_length)

lemma list_all_drop_mono: "list_all P (drop m xs) \<Longrightarrow> m \<le> n \<Longrightarrow> list_all P (drop n xs)"
  by (auto simp: list_all_iff dest: subsetD [OF set_drop_subset_set_drop])

lemma get_local_keeps [vm_intros]:
  assumes r: "resolve_safe r" and t: "vtype_wf t"
  shows "fr.keeps ml ms (\<lambda>u. type_ok u \<and> assignable r u t) (get_local r i t)"
proof (rule fr.keepsI)
  fix f e
  assume f: "frame_ok ml ms f" and e: "get_local r i t f = Inl e"
  show "\<not> is_fault e"
  proof (cases "i < ml")
    case True
    with f have "f_max_locals f = ml" "arr_get (f_locals f) i = Inr (f_locals f ! i)"
      by (auto simp: frame_ok_def)
    with True e frame_ok_local [OF f True] assign_not_fault [OF r t] show ?thesis
      by (auto simp: get_local_def rbind_eq_Inl type_ok_def split: if_splits)
  next
    case False
    with f e show ?thesis by (auto simp: get_local_def frame_ok_def)
  qed
next
  fix f u f'
  assume f: "frame_ok ml ms f" and "get_local r i t f = Inr (u, f')"
  then have "i < ml" "u = f_locals f ! i" "assignable r u t"
      "f' = f \<or> f_locals_size f \<le> i \<and> f' = f\<lparr> f_locals_size := i + 1 \<rparr>"
    by (auto simp: get_local_def frame_ok_def arr_get_Inr assignable_def split: if_splits)
  with f show "frame_ok ml ms f' \<and> type_ok u \<and> assignable r u t"
    using frame_ok_local [OF f] by (auto simp: frame_ok_def intro: list_all_drop_mono)
qed

lemma get_local_2_keeps [vm_intros]:
  assumes r: "resolve_safe r" and t: "vtype_wf t" and u: "vtype_wf u"
  shows "fr.keeps ml ms (\<lambda>_. True) (get_local_2 r i t u)"
proof (rule fr.keepsI)
  fix f e
  assume f: "frame_ok ml ms f" and e: "get_local_2 r i t u f = Inl e"
  show "\<not> is_fault e"
  proof (cases "i + 1 < f_locals_size f")
    case True
    with f have i: "i < ml" "Suc i < ml" "arr_get (f_locals f) i = Inr (f_locals f ! i)"
        "arr_get (f_locals f) (Suc i) = Inr (f_locals f ! Suc i)"
      by (auto simp: frame_ok_def)
    then have "vtype_wf (f_locals f ! i)" "vtype_wf (f_locals f ! Suc i)"
      using frame_ok_local [OF f] by (auto simp: type_ok_def)
    with True i e assign_not_fault [OF r t] assign_not_fault [OF r u] show ?thesis
      by (auto simp: get_local_2_def rbind_eq_Inl split: if_splits)
  next
    case False
    with e show ?thesis by (auto simp: get_local_2_def)
  qed
next
  fix f x f'
  assume "frame_ok ml ms f" and "get_local_2 r i t u f = Inr (x, f')"
  then show "frame_ok ml ms f' \<and> True" by (auto simp: get_local_2_def split: if_splits)
qed

lemma set_local_eq:
  assumes f: "frame_ok ml ms f" and i: "i < ml"
  shows "set_local i t f = Inr ((), f\<lparr> f_locals := (clear_pair (f_locals f) i i)[i := t],
    f_locals_size := max (f_locals_size f) (i + 1) \<rparr>)"
proof -
  let ?ls = "f_locals f" and ?ls1 = "clear_next (f_locals f) i"
  have l: "length ?ls = ml" "paired ?ls" "f_max_locals f = ml" using f by (auto simp: frame_ok_def)
  have 1: "(if ?ls ! i = Double \<or> ?ls ! i = Long then arr_set ?ls (i + 1) Bogus else Inr ?ls) = Inr ?ls1"
    using paired_first [OF l(2), of i] i l(1) half1_iff [of "?ls ! i"] by (auto simp: clear_next_def)
  have g: "?ls1 ! i = ?ls ! i" by (simp add: clear_next_def)
  have 2: "(if ?ls ! i = Double_2nd \<or> ?ls ! i = Long_2nd
      then (if i < 1 then Inl (Fault ''array write'') else arr_set ?ls1 (i - 1) Bogus) else Inr ?ls1) =
      Inr (clear_pair ?ls i i)"
    using paired_second [OF l(2), of i] i l(1) half2_iff [of "?ls ! i"]
    by (auto simp: clear_pair_def clear_prev_def g)
  show ?thesis
    using i l by (simp only: set_local_def) (simp add: 1 2 g Let_def max_def)
qed

lemma set_local_2_eq:
  assumes f: "frame_ok ml ms f" and i: "Suc i < ml"
  shows "set_local_2 i t u f = Inr ((), f\<lparr> f_locals := (clear_pair (f_locals f) i (Suc i))[i := t, Suc i := u],
    f_locals_size := max (f_locals_size f) (i + 2) \<rparr>)"
proof -
  let ?ls = "f_locals f" and ?ls1 = "clear_next (f_locals f) (Suc i)"
  have l: "length ?ls = ml" "paired ?ls" "f_max_locals f = ml" using f by (auto simp: frame_ok_def)
  have 1: "(if ?ls ! Suc i = Double \<or> ?ls ! Suc i = Long then arr_set ?ls (i + 2) Bogus else Inr ?ls) = Inr ?ls1"
    using paired_first [OF l(2), of "Suc i"] i l(1) half1_iff [of "?ls ! Suc i"] by (auto simp: clear_next_def)
  have g: "?ls1 ! i = ?ls ! i" by (simp add: clear_next_def)
  have 2: "(if ?ls ! i = Double_2nd \<or> ?ls ! i = Long_2nd
      then (if i < 1 then Inl (Fault ''array write'') else arr_set ?ls1 (i - 1) Bogus) else Inr ?ls1) =
      Inr (clear_pair ?ls i (Suc i))"
    using paired_second [OF l(2), of i] i l(1) half2_iff [of "?ls ! i"]
    by (auto simp: clear_pair_def clear_prev_def g)
  show ?thesis
    using i l by (simp only: set_local_2_def) (simp add: 1 2 g Let_def max_def)
qed

lemma list_all_clear_pair:
  "list_all type_ok ts \<Longrightarrow> list_all type_ok (clear_pair ts i j)"
  by (auto simp: clear_pair_def clear_prev_def clear_next_def list_all_iff dest!: subsetD [OF set_update_subset_insert])

lemma drop_clear_pair:
  assumes "list_all (\<lambda>t. t = Bogus) (drop n ts)"
  shows "list_all (\<lambda>t. t = Bogus) (drop n (clear_pair ts i j))"
proof -
  have "list_all (\<lambda>t. t = Bogus) (drop n (us[k := Bogus]))" if "list_all (\<lambda>t. t = Bogus) (drop n us)" for us k
    using that by (cases "k < n") (auto simp: drop_update_swap list_all_iff
        dest!: subsetD [OF set_update_subset_insert])
  with assms show ?thesis by (simp add: clear_pair_def clear_prev_def clear_next_def)
qed

lemma list_all_update: "list_all P ts \<Longrightarrow> P t \<Longrightarrow> list_all P (ts[i := t])"
  by (auto simp: list_all_iff dest!: subsetD [OF set_update_subset_insert])

lemma set_local_keeps [vm_intros]:
  assumes "type_ok t" and "single t"
  shows "fr.keeps ml ms (\<lambda>_. True) (set_local i t)"
proof (rule fr.keepsI)
  fix f e
  assume f: "frame_ok ml ms f" and e: "set_local i t f = Inl e"
  show "\<not> is_fault e"
  proof (cases "i < ml")
    case True
    with set_local_eq [OF f True, of t] e show ?thesis by simp
  next
    case False
    with f e show ?thesis by (auto simp: set_local_def frame_ok_def)
  qed
next
  fix f x f'
  assume f: "frame_ok ml ms f" and s: "set_local i t f = Inr (x, f')"
  then have i: "i < ml" by (auto simp: set_local_def frame_ok_def split: if_splits)
  have "paired ((clear_pair (f_locals f) i i)[i := t])"
    using f i assms by (intro paired_set_single) (auto simp: frame_ok_def)
  moreover have "list_all (\<lambda>t. t = Bogus) (drop (max (f_locals_size f) (i + 1)) (clear_pair (f_locals f) i i))"
    using f drop_clear_pair list_all_drop_mono [OF drop_clear_pair] by (auto simp: frame_ok_def)
  ultimately show "frame_ok ml ms f' \<and> True"
    using f i assms set_local_eq [OF f i, of t] s
    by (auto simp: frame_ok_def list_all_clear_pair list_all_update)
qed

lemma set_local_2_keeps [vm_intros]:
  assumes "type_ok t" "type_ok u" and t: "half1 t = half2 u" "half2 t = 0" "half1 u = 0"
  shows "fr.keeps ml ms (\<lambda>_. True) (set_local_2 i t u)"
proof (rule fr.keepsI)
  fix f e
  assume f: "frame_ok ml ms f" and e: "set_local_2 i t u f = Inl e"
  show "\<not> is_fault e"
  proof (cases "Suc i < ml")
    case True
    with set_local_2_eq [OF f True, of t u] e show ?thesis by simp
  next
    case False
    with f e show ?thesis by (auto simp: set_local_2_def frame_ok_def)
  qed
next
  fix f x f'
  assume f: "frame_ok ml ms f" and s: "set_local_2 i t u f = Inr (x, f')"
  then have i: "Suc i < ml" by (auto simp: set_local_2_def frame_ok_def split: if_splits)
  have "paired ((clear_pair (f_locals f) i (Suc i))[i := t, Suc i := u])"
    using f i t by (intro paired_set_double) (auto simp: frame_ok_def)
  moreover have "list_all (\<lambda>t. t = Bogus) (drop (max (f_locals_size f) (i + 2)) (clear_pair (f_locals f) i (Suc i)))"
    using f drop_clear_pair list_all_drop_mono [OF drop_clear_pair] by (auto simp: frame_ok_def)
  ultimately show "frame_ok ml ms f' \<and> True"
    using f i assms set_local_2_eq [OF f i, of t u] s
    by (auto simp: frame_ok_def list_all_clear_pair list_all_update)
qed

lemma replace_type_eq:
  "n \<le> length ts \<Longrightarrow>
   replace_type old new ts n = Inr (map (\<lambda>t. if t = old then new else t) (take n ts) @ drop n ts)"
proof (induction ts arbitrary: n)
  case (Cons t ts)
  then show ?case by (cases n) auto
qed simp

lemma slot_map: "f Bogus = Bogus \<Longrightarrow> slot (map f ts) k = f (slot ts k)"
  by (auto simp: slot_def)

lemma paired_map:
  assumes "paired ts" and "f Bogus = Bogus" and "\<And>t. half1 (f t) = half1 t" and "\<And>t. half2 (f t) = half2 t"
  shows "paired (map f ts)"
  using assms by (simp add: paired_def slot_map)

text \<open>An uninitialized object becomes an object of its class, everywhere in the frame.\<close>

lemma initialize_object_eq:
  assumes "frame_ok ml ms f" and "g = (\<lambda>t. if t = old then new else t)"
  shows "initialize_object old new f = Inr ((), f\<lparr> f_locals := map g (f_locals f),
     f_stack := map g (take (f_stack_size f) (f_stack f)) @ drop (f_stack_size f) (f_stack f),
     f_flags := (if old = uninitialized_this_type then 0 else f_flags f) \<rparr>)"
  using assms by (simp add: initialize_object_def frame_ok_def replace_type_eq)

lemma initialize_object_keeps [vm_intros]:
  assumes "single old" and "old \<noteq> Bogus" and "type_ok new" and "single new"
  shows "fr.keeps ml ms (\<lambda>_. True) (initialize_object old new)"
proof (rule fr.keepsI)
  fix f x f'
  assume f: "frame_ok ml ms f" and s: "initialize_object old new f = Inr (x, f')"
  define g where "g = (\<lambda>t. if t = old then new else t)"
  have g: "g Bogus = Bogus" "half1 (g t) = half1 t" "half2 (g t) = half2 t" "type_ok t \<Longrightarrow> type_ok (g t)" for t
    using assms by (auto simp: g_def single_def)
  from s have f': "f' = f\<lparr> f_locals := map g (f_locals f),
     f_stack := map g (take (f_stack_size f) (f_stack f)) @ drop (f_stack_size f) (f_stack f),
     f_flags := (if old = uninitialized_this_type then 0 else f_flags f) \<rparr>"
    unfolding initialize_object_eq [OF f g_def] by simp
  have "paired (map g (f_locals f))"
    using f g by (intro paired_map) (auto simp: frame_ok_def)
  moreover have "list_all (\<lambda>t. t = Bogus) (drop (f_locals_size f) (map g (f_locals f)))"
    using f g(1) by (auto simp: frame_ok_def drop_map list_all_iff)
  moreover have "list_all type_ok (map g ts)" if "list_all type_ok ts" for ts
    using that g(4) by (simp add: list_all_iff)
  ultimately show "frame_ok ml ms f' \<and> True"
    using f unfolding f' by (simp add: frame_ok_def)
next
  fix f e
  assume "frame_ok ml ms f" and "initialize_object old new f = Inl e"
  then show "\<not> is_fault e" by (simp add: initialize_object_eq [OF _ refl])
qed

lemma any_uninitialized_ok: "n \<le> length ts \<Longrightarrow> any_uninitialized ts n = Inr (list_ex is_uninitialized (take n ts))"
proof (induction ts arbitrary: n)
  case (Cons t ts)
  then show ?case by (cases n) auto
qed simp

lemma has_new_object_eq:
  "frame_ok ml ms f \<Longrightarrow>
   has_new_object f = Inr (list_ex is_uninitialized (f_locals f) \<or> list_ex is_uninitialized (take (f_stack_size f) (f_stack f)))"
  by (auto simp: has_new_object_def frame_ok_def any_uninitialized_ok)

lemma copy_array_eq:
  "n \<le> length src \<Longrightarrow> n \<le> length dst \<Longrightarrow> copy_array src dst n = Inr (take n src @ drop n dst)"
proof (induction n arbitrary: src dst)
  case (Suc n)
  then show ?case by (cases src; cases dst) auto
qed simp

lemma fill_bogus_eq: "n \<le> length ts \<Longrightarrow> fill_bogus ts n = Inr (replicate n Bogus @ drop n ts)"
proof (induction ts arbitrary: n)
  case (Cons t ts)
  then show ?case by (cases n) auto
qed simp

lemma reset_eq:
  "frame_ok ml ms f \<Longrightarrow>
   reset f = Inr (f\<lparr> f_locals := replicate ml Bogus, f_stack := replicate ms Bogus \<rparr>)"
  by (simp add: reset_def frame_ok_def fill_bogus_eq)

section \<open>Frames of the stack map table\<close>

text \<open>
  A frame of the table has no more valid elements than its arrays have room for and the
  method declares.
\<close>

definition table_frame_ok :: "nat \<Rightarrow> nat \<Rightarrow> frame \<Rightarrow> bool" where
  "table_frame_ok ml ms f \<longleftrightarrow>
     f_max_locals f = ml \<and> f_max_stack f = ms \<and>
     f_locals_size f \<le> ml \<and> f_locals_size f \<le> length (f_locals f) \<and>
     f_stack_size f \<le> ms \<and> f_stack_size f \<le> length (f_stack f) \<and>
     list_all type_ok (take (f_locals_size f) (f_locals f)) \<and>
     list_all type_ok (take (f_stack_size f) (f_stack f)) \<and>
     paired (take (f_locals_size f) (f_locals f))"

lemma slot_take: "n \<le> length ts \<Longrightarrow> slot (take n ts) k = (if k \<le> n then slot ts k else Bogus)"
  by (auto simp: slot_def)

lemma slot_append: "slot (xs @ ys) k = (if k \<le> length xs then slot xs k else slot ys (k - length xs))"
  by (auto simp: slot_def nth_append)

lemma paired_append: "paired xs \<Longrightarrow> paired ys \<Longrightarrow> paired (xs @ ys)"
  unfolding paired_def
proof
  fix k
  assume xs: "\<forall>k. half1 (slot xs k) = half2 (slot xs (Suc k))"
    and ys: "\<forall>k. half1 (slot ys k) = half2 (slot ys (Suc k))"
  consider "Suc k \<le> length xs" | "k = length xs" | "length xs < k" by linarith
  then show "half1 (slot (xs @ ys) k) = half2 (slot (xs @ ys) (Suc k))"
  proof cases
    case 2
    with spec [OF xs, of k] spec [OF ys, of 0] show ?thesis by (simp add: slot_append)
  next
    case 3
    with spec [OF ys, of "k - length xs"] show ?thesis by (simp add: slot_append Suc_diff_le)
  qed (use xs in \<open>simp add: slot_append\<close>)
qed

lemma paired_take_bogus:
  assumes "paired ts" and "n \<le> length ts" and "list_all (\<lambda>t. t = Bogus) (drop n ts)"
  shows "paired (take n ts)"
proof -
  have b: "slot ts k = Bogus" if "n < k" for k
  proof (cases "k \<le> length ts")
    case True
    with that have "ts ! (k - 1) = drop n ts ! (k - 1 - n)" "k - 1 - n < length (drop n ts)" by auto
    with assms(3) have "ts ! (k - 1) = Bogus" by (auto simp: list_all_length)
    with True that show ?thesis by (simp add: slot_def)
  qed simp
  from assms(1) show ?thesis
    unfolding paired_def
  proof (intro allI)
    fix k
    assume p: "\<forall>k. half1 (slot ts k) = half2 (slot ts (Suc k))"
    then have "half1 (slot ts k) = half2 (slot ts (Suc k))" by simp
    with b [of "Suc k"] assms(2) show "half1 (slot (take n ts) k) = half2 (slot (take n ts) (Suc k))"
      by (auto simp: slot_take)
  qed
qed

lemma list_all_take: "list_all P xs \<Longrightarrow> list_all P (take n xs)"
  by (auto simp: list_all_iff dest: in_set_takeD)

lemma frame_ok_table: "frame_ok ml ms f \<Longrightarrow> table_frame_ok ml ms f"
  by (auto simp: frame_ok_def table_frame_ok_def intro: paired_take_bogus list_all_take)

section \<open>Matching frames\<close>

lemma types_assignable_to_no_fault:
  "resolve_safe r \<Longrightarrow> n \<le> length from \<Longrightarrow> n \<le> length to \<Longrightarrow> list_all type_ok (take n from) \<Longrightarrow>
   list_all type_ok (take n to) \<Longrightarrow> no_fault (types_assignable_to r from to n)"
proof (induction n arbitrary: "from" to)
  case (Suc n)
  then obtain a from' b to' where "from = a # from'" "to = b # to'"
    by (cases "from"; cases to) auto
  with Suc show ?case by (auto intro!: no_fault_rbind is_assignable_from_no_fault simp: type_ok_def)
qed simp

lemma types_assignable_to_True:
  "types_assignable_to r from to n = Inr True \<Longrightarrow>
   n \<le> length from \<and> n \<le> length to \<and> (\<forall>i<n. assignable r (from ! i) (to ! i))"
proof (induction n arbitrary: "from" to)
  case (Suc n)
  then obtain a from' b to' where c: "from = a # from'" "to = b # to'"
    by (cases "from"; cases to) auto
  with Suc.prems have "assignable r a b" "types_assignable_to r from' to' n = Inr True"
    by (auto simp: assignable_def split: if_splits)
  with Suc.IH [of from' to'] c show ?case by (auto simp: nth_Cons split: nat.splits)
qed simp

lemma is_assignable_to_no_fault:
  assumes "resolve_safe r" and "frame_ok ml ms f" and "table_frame_ok ml ms g"
  shows "no_fault (is_assignable_to r f g)"
proof -
  have "no_fault (types_assignable_to r (f_locals f) (f_locals g) (f_locals_size g))"
    by (rule types_assignable_to_no_fault)
      (use assms in \<open>auto simp: frame_ok_def table_frame_ok_def intro: list_all_take\<close>)
  moreover have "no_fault (types_assignable_to r (f_stack f) (f_stack g) (f_stack_size f))"
    if "f_stack_size f = f_stack_size g"
    by (rule types_assignable_to_no_fault)
      (use assms that in \<open>auto simp: frame_ok_def table_frame_ok_def\<close>)
  ultimately show ?thesis
    by (auto simp: is_assignable_to_def Let_def intro!: no_fault_rbind)
qed

section \<open>The frame at the entry of a method\<close>

lemma stack_map_frame_ok: "frame_ok ml ms (stack_map_frame ml ms)"
  by (simp add: frame_ok_def stack_map_frame_def list_all_length)

fun ret_vtype :: "jtype \<Rightarrow> vtype" where
  "ret_vtype (JPrim c) =
     (if c = CHR ''B'' then Byte else if c = CHR ''C'' then Char else if c = CHR ''D'' then Double
      else if c = CHR ''F'' then Float else if c = CHR ''I'' then Integer else if c = CHR ''J'' then Long
      else if c = CHR ''S'' then Short else Boolean)"
| "ret_vtype (JObj n) = Reference n"
| "ret_vtype (JArr t) = Reference (desc (JArr t))"

definition method_ret_vtype :: "jtype option \<Rightarrow> vtype" where
  "method_ret_vtype r = (case r of None \<Rightarrow> Bogus | Some t \<Rightarrow> ret_vtype t)"

lemma return_vtype_desc:
  assumes "ss_type s = basic_of t" and "change_sig_to_verificationType s = Inr (vtypes_of t)" and "jtype_ok t"
  shows "return_vtype s = Inr (ret_vtype t)"
proof (cases t)
  case (JPrim c)
  with assms(1,3) show ?thesis by (auto simp: return_vtype_def basic_of_char_def)
next
  case (JObj n)
  with assms show ?thesis by (auto simp: return_vtype_def change_sig_to_verificationType_def)
next
  case (JArr u)
  with assms show ?thesis by (auto simp: return_vtype_def change_sig_to_verificationType_def)
qed

lemma paired_vtypes_of: "paired (vtypes_of t)"
proof -
  have "paired [Long, Long_2nd]" "paired [Double, Double_2nd]"
    by (auto simp: paired_def slot_def nth_Cons' le_Suc_eq)
  moreover have "paired [u]" if "single u" for u
    using that by (auto simp: paired_def slot_def single_def)
  ultimately show ?thesis by (cases t) auto
qed

lemma paired_args: "paired (args_vtypes ps)"
proof (induction ps)
  case Nil
  show ?case using paired_replicate [of 0] by simp
next
  case (Cons t ps)
  then show ?case by (simp add: paired_append paired_vtypes_of)
qed

lemma vtypes_of_ok: "jtype_ok t \<Longrightarrow> list_all type_ok (vtypes_of t)"
  using vtypes_of_wf [of t] by (cases t) (auto simp: type_ok_def is_check_def)

lemma args_vtypes_ok: "list_all jtype_ok ps \<Longrightarrow> list_all type_ok (args_vtypes ps)"
  by (induction ps) (auto simp: vtypes_of_ok)

lemma ret_vtype_wf: "jtype_ok t \<Longrightarrow> vtype_wf (ret_vtype t)"
  by (cases t) (auto simp: legal_array_name legal_object_name)

text \<open>
  The entry frame of a method whose declared number of locals is at least the size of its
  arguments: the receiver, then the slots of the parameters, then \<open>Bogus\<close>.
\<close>

definition entry_this :: "meth \<Rightarrow> vtype \<Rightarrow> vtype list" where
  "entry_this m this =
     (if mt_is_static m then []
      else if mt_name m = ''<init>'' \<and> name_of this \<noteq> ''java/lang/Object'' then [uninitialized_this_type]
      else [this])"

definition entry_flags :: "meth \<Rightarrow> vtype \<Rightarrow> u1" where
  "entry_flags m this =
     (if \<not> mt_is_static m \<and> mt_name m = ''<init>'' \<and> name_of this \<noteq> ''java/lang/Object''
      then FLAG_THIS_UNINIT else 0)"

lemma set_locals_from_arg_eq:
  assumes "mt_signature m = method_desc ps r" and "list_all jtype_ok ps" and "ret_ok r"
    and "length (entry_this m this) + length (args_vtypes ps) \<le> ml"
  defines "as \<equiv> entry_this m this @ args_vtypes ps"
  shows "set_locals_from_arg m this (stack_map_frame ml ms) =
    Inr (method_ret_vtype r, (stack_map_frame ml ms)\<lparr>
      f_locals := as @ replicate (ml - length as) Bogus, f_locals_size := length as,
      f_flags := entry_flags m this \<rparr>)"
proof -
  let ?n = "length (entry_this m this)" and ?f = "stack_map_frame ml ms"
  have n1: "?n \<le> 1" by (simp add: entry_this_def)
  have this_eq: "set_this m this ?f = Inr (?n, ?f\<lparr>
      f_locals := entry_this m this @ replicate (ml - ?n) Bogus, f_flags := entry_flags m this \<rparr>)"
    using assms(4)
    by (cases ml) (auto simp: set_this_def entry_this_def entry_flags_def stack_map_frame_def
        split: if_splits)
  obtain s1 s2 where s: "signature_stream (method_desc ps r) True = Inr s1"
      "sig_types_loop ml ?n s1 = Inr (args_vtypes ps, s2)"
    and ret: "case r of None \<Rightarrow> ss_type s2 = T_VOID
       | Some t \<Rightarrow> ss_type s2 = basic_of t \<and> change_sig_to_verificationType s2 = Inr (vtypes_of t)"
    using method_stream [OF assms(2,3,4)] by blast
  have rv: "return_vtype s2 = Inr (method_ret_vtype r)"
    using ret assms(3) return_vtype_desc [of s2]
    by (auto simp: method_ret_vtype_def return_vtype_def [of s2] ret_ok_def split: option.splits)
  have len: "length (entry_this m this @ replicate (ml - ?n) Bogus) = ml" using assms(4) by simp
  show ?thesis
    using assms(4) n1 unfolding set_locals_from_arg_def assms(1) as_def
    by (simp add: vm_defs s this_eq len rv)
qed

lemma entry_frame_ok:
  assumes "mt_signature m = method_desc ps r" and "list_all jtype_ok ps" and "ret_ok r"
    and "length (entry_this m this) + length (args_vtypes ps) \<le> ml"
    and "type_ok this" and "single this"
  shows "\<exists>f. set_locals_from_arg m this (stack_map_frame ml ms) = Inr (method_ret_vtype r, f) \<and>
    frame_ok ml ms f \<and> vtype_wf (method_ret_vtype r) \<and> f_stack_size f = 0"
proof -
  have p: "paired (entry_this m this)"
  proof -
    have "paired [u]" if "single u" for u
      using that by (auto simp: paired_def slot_def single_def)
    with assms(6) show ?thesis using paired_replicate [of 0] by (auto simp: entry_this_def)
  qed
  have ok: "list_all type_ok (entry_this m this)"
    using assms(5) by (auto simp: entry_this_def BciForThis_def)
  have "vtype_wf (method_ret_vtype r)"
    using assms(3) by (auto simp: method_ret_vtype_def ret_ok_def ret_vtype_wf split: option.splits)
  moreover have "frame_ok ml ms ((stack_map_frame ml ms)\<lparr>
      f_locals := (entry_this m this @ args_vtypes ps) @ replicate (ml - length (entry_this m this @ args_vtypes ps)) Bogus,
      f_locals_size := length (entry_this m this @ args_vtypes ps), f_flags := entry_flags m this \<rparr>)"
    using assms(4) p ok args_vtypes_ok [OF assms(2)]
    by (auto simp: frame_ok_def stack_map_frame_def list_all_length [of _ "replicate _ _"]
        intro!: paired_append paired_args)
  ultimately show ?thesis
    using set_locals_from_arg_eq [OF assms(1-4)] by (auto simp: stack_map_frame_def)
qed

section \<open>Properties\<close>

lemma stack_map_frame_shape: "stack_shape (stack_map_frame ml ms)" "stack_types (stack_map_frame ml ms) = []"
  by (simp_all add: stack_shape_def stack_types_def stack_map_frame_def)

lemma pop_stack_contents:
  assumes "stack_shape f" and "pop_stack r t f = Inr (u, f')"
  shows "stack_shape f' \<and> stack_types f = u # stack_types f' \<and> is_assignable_from r t u = Inr True"
  using assms stack_types_Cons [OF assms(1)]
  by (auto simp: pop_stack_eq_ex pop_stack_ex_def stack_shape_def stack_types_def split: if_splits)

text \<open>
  C14. The array and the size that a frame keeps for the operand stack implement a bounded stack: a push
  puts the type on top while there is room and is a \<^verbatim>\<open>VerifyError\<close> otherwise; a checked pop removes
  the top, which is then assignable to the expected type, and a push followed by a pop gives the type
  back and restores the stack.
\<close>

theorem operand_stack_refines:
  assumes "stack_shape f"
  shows "(if length (stack_types f) < f_max_stack f
      then \<exists>f'. push_stack t f = Inr ((), f') \<and> stack_shape f' \<and> stack_types f' = t # stack_types f \<and>
          (\<exists>f''. pop_stack_any f' = Inr (t, f'') \<and> stack_types f'' = stack_types f)
      else \<exists>m. push_stack t f = Inl (VerifyError m)) \<and>
    (case pop_stack r t f of
       Inr (u, f') \<Rightarrow> stack_shape f' \<and> stack_types f = u # stack_types f' \<and> is_assignable_from r t u = Inr True
     | Inl e \<Rightarrow> True)"
proof -
  have "\<exists>m. push_stack t f = Inl (VerifyError m)" if "\<not> length (stack_types f) < f_max_stack f"
    using ostack.push_full [OF assms] ostack.bounded [OF assms] that by simp
  moreover have "\<exists>f'. push_stack t f = Inr ((), f') \<and> stack_shape f' \<and> stack_types f' = t # stack_types f \<and>
          (\<exists>f''. pop_stack_any f' = Inr (t, f'') \<and> stack_types f'' = stack_types f)"
    if "length (stack_types f) < f_max_stack f"
    using ostack.push_room [OF assms that, of t] ostack.pop_push [OF assms, of t] by blast
  ultimately show ?thesis
    using pop_stack_contents [OF assms, of r t] by (auto split: sum.splits)
qed

theorem operand_stack_refines_witness:
  "\<exists>f'. push_stack Integer (stack_map_frame 0 2) = Inr ((), f') \<and> stack_shape f' \<and> stack_types f' = [Integer]"
proof -
  have "f_max_stack (stack_map_frame 0 2) = 2" by (simp add: stack_map_frame_def)
  with operand_stack_refines [OF stack_map_frame_shape(1), of 0 2 Integer "\<lambda>_. Inl (Pending [])"] show ?thesis
    by (auto simp: stack_map_frame_shape)
qed

text \<open>
  C16. Storing into a local variable succeeds for every index below the declared maximum. It keeps the two
  halves of every \<open>long\<close> and \<open>double\<close> together: when the variable was half of such a value, the other half
  is invalidated. It keeps the invariant of frames, and the variable has the new type.
\<close>

theorem set_local_invalidates:
  assumes "frame_ok ml ms f" and "i < ml" and "type_ok t" and "single t"
  shows "\<exists>f'. set_local i t f = Inr ((), f') \<and> frame_ok ml ms f' \<and> f_locals f' ! i = t \<and>
    (f_locals f ! i \<in> {Long, Double} \<longrightarrow> f_locals f' ! (i + 1) = Bogus) \<and>
    (f_locals f ! i \<in> {Long_2nd, Double_2nd} \<longrightarrow> f_locals f' ! (i - 1) = Bogus) \<and>
    (\<forall>j<ml. j \<notin> {i - 1, i, i + 1} \<longrightarrow> f_locals f' ! j = f_locals f ! j)"
proof -
  let ?ls = "f_locals f"
  have l: "length ?ls = ml" "paired ?ls" using assms(1) by (auto simp: frame_ok_def)
  note eq = set_local_eq [OF assms(1,2), of t]
  have k: "frame_ok ml ms f'" if "set_local i t f = Inr ((), f')" for f'
    using fr.keeps_Inr [OF set_local_keeps [OF assms(3,4)] assms(1) that] by simp
  have 1: "Suc i < ml" if "?ls ! i \<in> {Long, Double}"
    using paired_first [OF l(2), of i] that assms(2) l(1) by auto
  have 2: "0 < i" if "?ls ! i \<in> {Long_2nd, Double_2nd}"
    using paired_second [OF l(2), of i] that assms(2) l(1) by auto
  show ?thesis
    using eq k assms(2) l 1 2
    by (auto simp: clear_pair_def clear_prev_def clear_next_def nth_list_update)
qed

theorem set_local_invalidates_witness:
  "\<exists>f'. set_local 1 Integer (stack_map_frame 3 0) = Inr ((), f') \<and> frame_ok 3 0 f' \<and> f_locals f' ! 1 = Integer"
  using set_local_invalidates [OF stack_map_frame_ok, of 1 3 Integer 0] by (simp add: stack_map_frame_def) blast

text \<open>
  C15. The entry frame of a method has the receiver, uninitialized in a constructor of a class other
  than \<^verbatim>\<open>Object\<close>, then the slots of the declared parameters, then nothing; the operand stack is
  empty, and the return type is the declared one. A method whose parameters fit into the declared
  number of local variables has no other outcome.
\<close>

theorem entry_frame:
  assumes "mt_signature m = method_desc ps r" and "list_all jtype_ok ps" and "ret_ok r"
    and "length (entry_this m this) + length (args_vtypes ps) \<le> ml"
  shows "set_locals_from_arg m this (stack_map_frame ml ms) =
    Inr (method_ret_vtype r, (stack_map_frame ml ms)\<lparr>
      f_locals := (entry_this m this @ args_vtypes ps) @
         replicate (ml - length (entry_this m this @ args_vtypes ps)) Bogus,
      f_locals_size := length (entry_this m this @ args_vtypes ps),
      f_flags := entry_flags m this \<rparr>)"
  by (rule set_locals_from_arg_eq [OF assms])

definition ex_init :: meth where
  "ex_init = \<lparr> mt_name = ''<init>'', mt_signature = ''(J)V'', mt_is_static = False, mt_is_native = False,
     mt_is_abstract = False, mt_max_stack = 1, mt_max_locals = 4,
     mt_mem = \<lparr> m_code = [177], m_after = (\<lambda>_. 0), m_orig = (\<lambda>_. - 1), m_beyond = (\<lambda>_. 0) \<rparr>,
     mt_exception_table = [], mt_localvariable_table = [], mt_stackmap_data = None \<rparr>"

theorem entry_frame_witness:
  "set_locals_from_arg ex_init (Reference ''A'') (stack_map_frame 4 1) =
    Inr (Bogus, (stack_map_frame 4 1)\<lparr>
      f_locals := [uninitialized_this_type, Long, Long_2nd, Bogus], f_locals_size := 3, f_flags := FLAG_THIS_UNINIT \<rparr>)"
  using entry_frame [of ex_init "[JPrim CHR ''J'']" None "Reference ''A''" 4 1]
  by (simp add: ex_init_def method_desc_def ret_desc_def ret_ok_def entry_this_def entry_flags_def args_vtypes_def
      method_ret_vtype_def)

text \<open>
  C17. The call of a constructor replaces the uninitialized object by the initialized one everywhere in the frame, that is in
  all local variables and in all elements of the operand stack, and changes no other type; the frame stays well formed, and
  when the object was the receiver of a constructor the flag that it is uninitialized is cleared.
\<close>

theorem initialize_object_everywhere:
  assumes "frame_ok ml ms f" and "single old" and "old \<noteq> Bogus" and "type_ok new" and "single new"
  shows "\<exists>f'. initialize_object old new f = Inr ((), f') \<and> frame_ok ml ms f' \<and>
    f_locals f' = map (\<lambda>t. if t = old then new else t) (f_locals f) \<and>
    stack_types f' = map (\<lambda>t. if t = old then new else t) (stack_types f) \<and>
    f_locals_size f' = f_locals_size f \<and> f_offset f' = f_offset f \<and>
    flag_this_uninit f' = (old \<noteq> uninitialized_this_type \<and> flag_this_uninit f)"
proof -
  let ?g = "\<lambda>t. if t = old then new else t"
  obtain f' where f': "initialize_object old new f = Inr ((), f')" "f' = f\<lparr> f_locals := map ?g (f_locals f),
     f_stack := map ?g (take (f_stack_size f) (f_stack f)) @ drop (f_stack_size f) (f_stack f),
     f_flags := (if old = uninitialized_this_type then 0 else f_flags f) \<rparr>"
    using initialize_object_eq [OF assms(1) refl] by blast
  have "frame_ok ml ms f'"
    using fr.keeps_Inr [OF initialize_object_keeps [OF assms(2-5)] assms(1) f'(1)] by simp
  moreover have "stack_types f' = map ?g (stack_types f)"
    using assms(1) f'(2) by (simp add: stack_types_def frame_ok_def rev_map)
  ultimately show ?thesis
    using f' by (auto simp: flag_this_uninit_def)
qed

text \<open>A frame behind \<^verbatim>\<open>new\<close>, \<^verbatim>\<open>dup\<close> and a store: the new object in a local variable and on the stack.\<close>

definition ex_new_frame :: frame where
  "ex_new_frame = \<lparr> f_offset = 5, f_locals_size = 2, f_stack_size = 1, f_max_locals = 2, f_max_stack = 2, f_flags = 0,
     f_locals = [Integer, Uninitialized 3], f_stack = [Uninitialized 3, Bogus] \<rparr>"

lemma ex_new_frame_ok: "frame_ok 2 2 ex_new_frame"
  by (auto simp: frame_ok_def ex_new_frame_def BciForThis_def paired_def slot_def nth_Cons split: nat.splits)

theorem initialize_object_everywhere_witness:
  "\<exists>f'. initialize_object (Uninitialized 3) (Reference ''A'') ex_new_frame = Inr ((), f') \<and>
     f_locals f' = [Integer, Reference ''A''] \<and> stack_types f' = [Reference ''A'']"
  using initialize_object_everywhere [OF ex_new_frame_ok, of "Uninitialized 3" "Reference ''A''"]
  by (auto simp: legal_class_name_def invalid_name_char_def) (auto simp: ex_new_frame_def stack_types_def)

section \<open>Assignability of frames is a preorder\<close>

lemma types_assignable_iff:
  "types_assignable_to r from to n = Inr True \<longleftrightarrow>
     n \<le> length from \<and> n \<le> length to \<and> (\<forall>i<n. assignable r (from ! i) (to ! i))"
proof (induction r "from" to n rule: types_assignable_to.induct)
  case (2 r a "from" b to n)
  have "(\<forall>i<Suc n. assignable r ((a # from) ! i) ((b # to) ! i)) \<longleftrightarrow>
      assignable r a b \<and> (\<forall>i<n. assignable r (from ! i) (to ! i))"
    by (auto simp: less_Suc_eq_0_disj)
  with 2 show ?case by (auto simp: assignable_def split: if_splits)
qed auto

lemma bogus_assignable: "assignable r Bogus t \<Longrightarrow> \<not> is_check t \<Longrightarrow> t = Bogus"
  unfolding assignable_def by (subst (asm) is_assignable_from.simps) (cases t; simp add: is_check_def is_reference_def split: if_splits)

lemma is_assignable_to_True:
  "is_assignable_to r f g = Inr True \<longleftrightarrow>
     f_max_locals f = f_max_locals g \<and> f_stack_size f = f_stack_size g \<and>
     types_assignable_to r (f_locals f) (f_locals g) (f_locals_size g) = Inr True \<and>
     types_assignable_to r (f_stack f) (f_stack g) (f_stack_size g) = Inr True \<and> f_flags f OR f_flags g = f_flags g"
  by (auto simp: is_assignable_to_def Let_def)

lemma frame_ok_slot:
  assumes "frame_ok ml ms f" and "i < ml"
  shows "type_ok (f_locals f ! i)" "f_locals_size f \<le> i \<Longrightarrow> f_locals f ! i = Bogus"
proof -
  from assms show "type_ok (f_locals f ! i)" by (simp add: frame_ok_def list_all_length)
  assume i: "f_locals_size f \<le> i"
  from assms have "list_all (\<lambda>t. t = Bogus) (drop (f_locals_size f) (f_locals f))" and l: "length (f_locals f) = ml"
    by (simp_all add: frame_ok_def)
  then have "\<forall>n<ml - f_locals_size f. f_locals f ! (f_locals_size f + n) = Bogus" by (simp add: list_all_length)
  from this [rule_format, of "i - f_locals_size f"] i assms(2) show "f_locals f ! i = Bogus" by simp
qed

lemma frame_assignable_refl: "frame_ok ml ms f \<Longrightarrow> is_assignable_to r f f = Inr True"
  by (auto simp: is_assignable_to_True types_assignable_iff frame_ok_def assignable_refl)

lemma frame_assignable_trans:
  assumes r: "resolve_wf r" and f: "frame_ok ml ms f" and g: "frame_ok ml ms g" and h: "table_frame_ok ml ms h"
    and fg: "is_assignable_to r f g = Inr True" and gh: "is_assignable_to r g h = Inr True"
  shows "is_assignable_to r f h = Inr True"
proof -
  note fg' = fg [unfolded is_assignable_to_True types_assignable_iff]
  note gh' = gh [unfolded is_assignable_to_True types_assignable_iff]
  have h_ok: "\<not> is_check (f_locals h ! i)" if "i < f_locals_size h" for i
    using h that by (auto simp: table_frame_ok_def list_all_length type_ok_def)
  have hs_ok: "\<not> is_check (f_stack h ! i)" if "i < f_stack_size h" for i
    using h that by (auto simp: table_frame_ok_def list_all_length type_ok_def)
  have gs_ok: "\<not> is_check (f_stack g ! i)" if "i < f_stack_size g" for i
    using g that by (auto simp: frame_ok_def list_all_length type_ok_def)
  have "assignable r (f_locals f ! i) (f_locals h ! i)" if i: "i < f_locals_size h" for i
  proof (cases "i < f_locals_size g")
    case True
    with fg' gh' i g frame_ok_slot(1) [OF g, of i] assignable_trans [OF r, of "f_locals f ! i" "f_locals g ! i" "f_locals h ! i"] h_ok [OF i]
    show ?thesis by (auto simp: frame_ok_def type_ok_def)
  next
    case False
    with gh' i frame_ok_slot(2) [OF g, of i] h bogus_assignable [of r "f_locals h ! i"] h_ok [OF i]
    show ?thesis by (auto simp: table_frame_ok_def)
  qed
  moreover have "assignable r (f_stack f ! i) (f_stack h ! i)" if i: "i < f_stack_size h" for i
    using fg' gh' i assignable_trans [OF r, of "f_stack f ! i" "f_stack g ! i" "f_stack h ! i"] hs_ok [OF i] gs_ok by auto
  moreover have "f_flags f OR f_flags h = f_flags h" using fg' gh' by (metis or.assoc)
  ultimately show ?thesis
    unfolding is_assignable_to_True types_assignable_iff
    using fg' gh' f h by (auto simp: frame_ok_def table_frame_ok_def)
qed

text \<open>
  C11. Assignability between frames is reflexive and transitive, over a class hierarchy that is well formed: when
  the current frame may flow into a second one, and this into a frame of the stack map table, then the first may flow into the third.
\<close>

theorem frame_assignable_preorder:
  assumes "resolve_wf r" and "frame_ok ml ms f" and "frame_ok ml ms g" and "table_frame_ok ml ms h"
  shows "is_assignable_to r f f = Inr True \<and>
    (is_assignable_to r f g = Inr True \<and> is_assignable_to r g h = Inr True \<longrightarrow> is_assignable_to r f h = Inr True)"
  using frame_assignable_refl [OF assms(2)] frame_assignable_trans [OF assms] by blast

theorem frame_assignable_preorder_witness:
  "is_assignable_to ex_resolve (stack_map_frame 2 2) (stack_map_frame 2 2) = Inr True"
  using frame_assignable_preorder [OF ex_resolve_wf stack_map_frame_ok stack_map_frame_ok frame_ok_table [OF stack_map_frame_ok], of 2 2]
  by blast

end
