(* ===== verification/StackMapTable.thy ===== *)
theory StackMapTable
  imports StackMapFrame
begin

text \<open>
  The stack map table of a method (\<^verbatim>\<open>classfile/stackMapTable.hpp\<close>, \<^verbatim>\<open>stackMapTable.cpp\<close>): the stream over the
  bytes of the attribute, the reader that decodes one frame after the other, and the table,
  which matches the frame of the type checker against its entries.

  The reader shares the array of local variables between consecutive frames, as the source
  does; only the first frame copies the array of the entry frame, which the type checker will
  change. A freshly allocated array holds \<open>Bogus\<close> until it is written.

  Errors of the attribute's format are exceptions that the stream throws or errors that the verifier
  records. Neither stops the reader by itself: many calls pass \<^verbatim>\<open>THREAD\<close> and go on with a default
  value. The state of the stream has both kinds of errors, and a call with \<^verbatim>\<open>CHECK_VERIFY\<close> returns when there is one of them.
\<close>

section \<open>StackMapStream\<close>

text \<open>
  \<open>ms_pending\<close> is the pending exception of the thread and \<open>ms_error\<close> the error that the verifier has recorded.
\<close>

record map_stream =
  ms_data :: "u1 list option"
  ms_index :: nat
  ms_pending :: "string option"
  ms_error :: "string option"

text \<open>When an exception is pending, a further one is not thrown: \<^verbatim>\<open>Exceptions::new_exception\<close> delivers the first.\<close>

definition stackmap_format_error :: "string \<Rightarrow> (map_stream, unit) vm" where
  "stackmap_format_error msg = vmodify (\<lambda>s.
     case ms_pending s of
       None \<Rightarrow> s\<lparr> ms_pending := Some (''StackMapTable format error: '' @ msg) \<rparr>
     | Some _ \<Rightarrow> s)"

definition class_format_error :: "string \<Rightarrow> (map_stream, unit) vm" where
  "class_format_error msg = vmodify (\<lambda>s. s\<lparr> ms_error := Some msg \<rparr>)"

text \<open>A call with \<^verbatim>\<open>CHECK_VERIFY\<close>. A pending exception has precedence in \<^verbatim>\<open>Verifier::verify\<close>.\<close>

definition check_verify :: "(map_stream, 'a) vm \<Rightarrow> (map_stream, 'a) vm" where
  "check_verify m = vbind m (\<lambda>x s.
     case ms_pending s of
       Some msg \<Rightarrow> Inl (Pending msg)
     | None \<Rightarrow> (case ms_error s of Some msg \<Rightarrow> Inl (ClassFormatError msg) | None \<Rightarrow> Inr (x, s)))"

definition beyond_end :: "(map_stream, nat) vm" where
  "beyond_end = vthen (stackmap_format_error ''access beyond the end of attribute'') (vreturn 0)"

definition get_u1 :: "(map_stream, nat) vm" where
  "get_u1 = (\<lambda>s.
     case ms_data s of
       None \<Rightarrow> beyond_end s
     | Some data \<Rightarrow>
         if ms_index s \<ge> length data then beyond_end s
         else rbind (arr_get data (ms_index s)) (\<lambda>b.
                Inr (unat b, s\<lparr> ms_index := ms_index s + 1 \<rparr>)))"

definition get_u2 :: "(map_stream, nat) vm" where
  "get_u2 = (\<lambda>s.
     case ms_data s of
       None \<Rightarrow> beyond_end s
     | Some data \<Rightarrow>
         if ms_index s + 1 \<ge> length data then beyond_end s
         else rbind (arr_get data (ms_index s)) (\<lambda>b1.
              rbind (arr_get data (ms_index s + 1)) (\<lambda>b2.
                Inr (u2_of b1 b2, s\<lparr> ms_index := ms_index s + 2 \<rparr>))))"

definition at_end :: "map_stream \<Rightarrow> bool" where
  "at_end s = (case ms_data s of None \<Rightarrow> True | Some data \<Rightarrow> ms_index s = length data)"

definition map_stream_of :: "u1 list option \<Rightarrow> map_stream" where
  "map_stream_of data = \<lparr> ms_data = data, ms_index = 0, ms_pending = None, ms_error = None \<rparr>"

section \<open>StackMapReader\<close>

text \<open>
  \<open>rd_code_data\<close> marks each offset of the code: 0 inside of an instruction, \<^verbatim>\<open>BYTECODE_OFFSET\<close> at the
  start of one, \<^verbatim>\<open>NEW_OFFSET\<close> at the start of a \<^verbatim>\<open>new\<close>.
\<close>

record reader =
  rd_cp :: constant_pool
  rd_code_data :: "nat list"
  rd_code_length :: nat

abbreviation (input) BYTECODE_OFFSET :: nat where "BYTECODE_OFFSET \<equiv> 1"
abbreviation (input) NEW_OFFSET :: nat where "NEW_OFFSET \<equiv> 2"
abbreviation (input) SAME_LOCALS_1_STACK_ITEM_EXTENDED :: nat where "SAME_LOCALS_1_STACK_ITEM_EXTENDED \<equiv> 247"
abbreviation (input) SAME_EXTENDED :: nat where "SAME_EXTENDED \<equiv> 251"
abbreviation (input) FULL :: nat where "FULL \<equiv> 255"

text \<open>
  The loop of \<^verbatim>\<open>chop\<close>. The read at \<open>pos\<close> has no guard in its first round, where \<open>pos\<close> is \<open>length - 1\<close>.
\<close>

definition chop_read :: "vtype list \<Rightarrow> int \<Rightarrow> vtype res" where
  "chop_read locals pos =
     (if pos < 0 then Inl (Unguarded ''StackMapReader::chop'') else arr_get locals (nat pos))"

fun chop_loop :: "vtype list \<Rightarrow> int \<Rightarrow> nat \<Rightarrow> int res" where
  "chop_loop locals pos 0 = Inr (pos + 1)"
| "chop_loop locals pos (Suc n) =
     rbind (chop_read locals pos) (\<lambda>t.
       let pos = (if is_category2_2nd t then pos - 2 else pos - 1) in
       if pos < 0 \<and> n > 0 then Inr (- 1) else chop_loop locals pos n)"

definition chop :: "vtype list \<Rightarrow> nat \<Rightarrow> nat \<Rightarrow> int res" where
  "chop locals len chops = chop_loop locals (int len - 1) chops"

text \<open>
  \<open>flags\<close> is what the pointer argument points to, and \<open>None\<close> for a null pointer. After an error the
  result is \<open>Bogus\<close>.
\<close>

definition parse_verification_type :: "reader \<Rightarrow> u1 option \<Rightarrow> (map_stream, vtype \<times> u1 option) vm" where
  "parse_verification_type rd flags =
     vbind get_u1 (\<lambda>tag.
       if tag < 6 then vbind (vlift (from_tag tag)) (\<lambda>t. vreturn (t, flags))
       else if tag = 7 then
         vbind get_u2 (\<lambda>class_index.
           if class_index = 0 \<or> class_index \<ge> cp_length (rd_cp rd)
           then vthen (stackmap_format_error ''bad class index'') (vreturn (Bogus, flags))
           else
             vbind (vlift (tag_at (rd_cp rd) class_index)) (\<lambda>ctag.
               if \<not> is_klass_tag ctag \<and> \<not> is_unresolved_klass_tag ctag
               then vthen (stackmap_format_error ''bad class index'') (vreturn (Bogus, flags))
               else
                 vbind (vlift (klass_name_at (rd_cp rd) class_index)) (\<lambda>n.
                   vreturn (Reference n, flags))))
       else if tag = 6 then
         vreturn (uninitialized_this_type, map_option (\<lambda>fl. fl OR FLAG_THIS_UNINIT) flags)
       else if tag = 8 then
         vbind get_u2 (\<lambda>offset.
           if offset \<ge> rd_code_length rd
           then vthen (class_format_error ''StackMapTable format error: bad offset for Uninitialized'') (vreturn (Bogus, flags))
           else
             vbind (vlift (arr_get (rd_code_data rd) offset)) (\<lambda>d.
               if d \<noteq> NEW_OFFSET
               then vthen (class_format_error ''StackMapTable format error: bad offset for Uninitialized'') (vreturn (Bogus, flags))
               else vreturn (Uninitialized offset, flags)))
       else vthen (stackmap_format_error ''bad verification type'') (vreturn (Bogus, flags)))"

definition check_verification_type_array_size :: "int \<Rightarrow> nat \<Rightarrow> (map_stream, unit) vm" where
  "check_verification_type_array_size n max_size =
     (if n < 0 \<or> n > int max_size then class_format_error ''StackMapTable format error: bad type array size''
      else vreturn ())"

text \<open>
  Parsing a number of types one after the other; a long or double takes two elements. The loops of the source
  pass \<^verbatim>\<open>THREAD\<close>: they go on after an error.
\<close>

fun parse_types :: "reader \<Rightarrow> nat \<Rightarrow> u1 option \<Rightarrow> (map_stream, vtype list \<times> u1 option) vm" where
  "parse_types rd 0 flags = vreturn ([], flags)"
| "parse_types rd (Suc n) flags =
     vbind (parse_verification_type rd flags) (\<lambda>(t, flags).
     vbind (parse_types rd n flags) (\<lambda>(ts, flags).
       vreturn ((if is_category2 t then t # to_category2_2nd t # ts else t # ts), flags)))"

definition next_offset :: "frame \<Rightarrow> bool \<Rightarrow> nat \<Rightarrow> int" where
  "next_offset pre_frame first delta =
     (if first then int delta else f_offset pre_frame + int delta + 1)"

text \<open>
  A frame with the local variables of its predecessor, possibly fewer. The first frame gets an
  array of its own.
\<close>

definition frame_on :: "frame \<Rightarrow> bool \<Rightarrow> int \<Rightarrow> u1 \<Rightarrow> nat \<Rightarrow> nat \<Rightarrow> nat \<Rightarrow> nat \<Rightarrow> vtype list \<Rightarrow> frame res" where
  "frame_on pre_frame first offset flags locals_size stack_size max_locals max_stack stack =
     (let frame = \<lparr> f_offset = offset, f_locals_size = locals_size, f_stack_size = stack_size,
            f_max_locals = max_locals, f_max_stack = max_stack, f_flags = flags,
            f_locals = (if first then replicate locals_size Bogus else f_locals pre_frame),
            f_stack = stack \<rparr> in
      if first then copy_locals pre_frame frame else Inr frame)"

definition next_same :: "frame \<Rightarrow> bool \<Rightarrow> nat \<Rightarrow> nat \<Rightarrow> nat \<Rightarrow> (map_stream, frame) vm" where
  "next_same pre_frame first max_locals max_stack frame_type =
     vlift (frame_on pre_frame first (next_offset pre_frame first frame_type) (f_flags pre_frame)
       (f_locals_size pre_frame) 0 max_locals max_stack [])"

definition next_same_locals_1 ::
  "reader \<Rightarrow> frame \<Rightarrow> bool \<Rightarrow> nat \<Rightarrow> nat \<Rightarrow> nat \<Rightarrow> (map_stream, frame) vm" where
  "next_same_locals_1 rd pre_frame first max_locals max_stack delta =
     vbind (check_verify (parse_verification_type rd None)) (\<lambda>(t, _).
       let stack = (if is_category2 t then [t, to_category2_2nd t] else [t, Bogus]);
           stack_size = (if is_category2 t then 2 else 1) in
       vthen (check_verify (check_verification_type_array_size (int stack_size) max_stack))
       (vlift (frame_on pre_frame first (next_offset pre_frame first delta) (f_flags pre_frame)
          (f_locals_size pre_frame) stack_size max_locals max_stack stack)))"

fun any_uninitialized_this :: "vtype list \<Rightarrow> nat \<Rightarrow> bool res" where
  "any_uninitialized_this ts 0 = Inr False"
| "any_uninitialized_this [] (Suc n) = Inl (Fault ''array read'')"
| "any_uninitialized_this (t # ts) (Suc n) =
     (if is_uninitialized_this t then Inr True else any_uninitialized_this ts n)"

definition next_chop :: "frame \<Rightarrow> bool \<Rightarrow> nat \<Rightarrow> nat \<Rightarrow> nat \<Rightarrow> nat \<Rightarrow> (map_stream, frame) vm" where
  "next_chop pre_frame first max_locals max_stack frame_type offset_delta =
     (let locals = f_locals pre_frame; len = f_locals_size pre_frame;
          chops = SAME_EXTENDED - frame_type in
      vbind
        (if chops \<noteq> 0 then
           vbind (vlift (chop locals len chops)) (\<lambda>new_length.
           vthen (check_verify (check_verification_type_array_size new_length max_locals))
           (vbind (vlift (any_uninitialized_this locals (nat new_length))) (\<lambda>u.
              vreturn (nat new_length, if u then FLAG_THIS_UNINIT else 0))))
         else vreturn (len, f_flags pre_frame))
        (\<lambda>(new_length, flags).
          vlift (frame_on pre_frame first (next_offset pre_frame first offset_delta) flags
            new_length 0 max_locals max_stack [])))"

definition next_append ::
  "reader \<Rightarrow> frame \<Rightarrow> bool \<Rightarrow> nat \<Rightarrow> nat \<Rightarrow> nat \<Rightarrow> nat \<Rightarrow> (map_stream, frame) vm" where
  "next_append rd pre_frame first max_locals max_stack frame_type offset_delta =
     (let appends = frame_type - SAME_EXTENDED; len = f_locals_size pre_frame in
      vbind (vlift (copy_array (f_locals pre_frame) (replicate (len + appends * 2) Bogus) len)) (\<lambda>locals.
      vbind (parse_types rd appends (Some (f_flags pre_frame))) (\<lambda>(ts, flags).
      vthen (check_verify (check_verification_type_array_size (int (len + length ts)) max_locals))
      (vreturn \<lparr> f_offset = next_offset pre_frame first offset_delta, f_locals_size = len + length ts,
         f_stack_size = 0, f_max_locals = max_locals, f_max_stack = max_stack, f_flags = the flags,
         f_locals = take len locals @ ts @ drop (len + length ts) locals, f_stack = [] \<rparr>))))"

definition next_full ::
  "reader \<Rightarrow> frame \<Rightarrow> bool \<Rightarrow> nat \<Rightarrow> nat \<Rightarrow> nat \<Rightarrow> (map_stream, frame) vm" where
  "next_full rd pre_frame first max_locals max_stack offset_delta =
     vbind get_u2 (\<lambda>locals_size.
     vbind (parse_types rd locals_size (Some 0)) (\<lambda>(locals, flags).
     vthen (check_verify (check_verification_type_array_size (int (length locals)) max_locals))
     (vbind get_u2 (\<lambda>stack_size.
      vbind (parse_types rd stack_size None) (\<lambda>(stack, _).
      vthen (check_verify (check_verification_type_array_size (int (length stack)) max_stack))
      (vreturn \<lparr> f_offset = next_offset pre_frame first offset_delta, f_locals_size = length locals,
         f_stack_size = length stack, f_max_locals = max_locals, f_max_stack = max_stack,
         f_flags = the flags, f_locals = locals, f_stack = stack \<rparr>))))))"

text \<open>
  The error for a reserved frame type, after which \<^verbatim>\<open>next\<close> returns a null pointer: the exception is pending
  then, and the caller returns without looking at the value.
\<close>

definition reserved_frame_type :: "(map_stream, frame) vm" where
  "reserved_frame_type =
     vbind (check_verify (stackmap_format_error ''reserved frame type'')) (\<lambda>_.
       vfail (Fault ''null pointer''))"

definition reader_next :: "reader \<Rightarrow> frame \<Rightarrow> bool \<Rightarrow> nat \<Rightarrow> nat \<Rightarrow> (map_stream, frame) vm" where
  "reader_next rd pre_frame first max_locals max_stack =
     vbind get_u1 (\<lambda>frame_type.
       if frame_type < 64 then next_same pre_frame first max_locals max_stack frame_type
       else if frame_type < 128 then
         next_same_locals_1 rd pre_frame first max_locals max_stack (frame_type - 64)
       else
         vbind get_u2 (\<lambda>offset_delta.
           if frame_type < SAME_LOCALS_1_STACK_ITEM_EXTENDED
           then reserved_frame_type
           else if frame_type = SAME_LOCALS_1_STACK_ITEM_EXTENDED
           then next_same_locals_1 rd pre_frame first max_locals max_stack offset_delta
           else if frame_type \<le> SAME_EXTENDED
           then next_chop pre_frame first max_locals max_stack frame_type offset_delta
           else if frame_type < SAME_EXTENDED + 4
           then next_append rd pre_frame first max_locals max_stack frame_type offset_delta
           else if frame_type = FULL
           then next_full rd pre_frame first max_locals max_stack offset_delta
           else reserved_frame_type))"

definition check_end :: "(map_stream, unit) vm" where
  "check_end = vbind (vget at_end) (\<lambda>e.
     if e then vreturn () else stackmap_format_error ''wrong attribute size'')"

section \<open>StackMapTable\<close>

record map_table =
  tb_code_length :: nat
  tb_frames :: "frame list"

fun read_frames ::
  "reader \<Rightarrow> nat \<Rightarrow> nat \<Rightarrow> nat \<Rightarrow> bool \<Rightarrow> frame \<Rightarrow> (map_stream, frame list) vm" where
  "read_frames rd max_locals max_stack 0 first pre_frame = vreturn []"
| "read_frames rd max_locals max_stack (Suc n) first pre_frame =
     vbind (check_verify (reader_next rd pre_frame first max_locals max_stack)) (\<lambda>frame.
       let offset = f_offset frame in
       if offset \<ge> int (rd_code_length rd) then vfail (VerifyError ''StackMapTable error: bad offset'')
       else
         vbind (vlift (arr_get_i (rd_code_data rd) offset)) (\<lambda>d.
           if d = 0 then vfail (VerifyError ''StackMapTable error: bad offset'')
           else
             vbind (read_frames rd max_locals max_stack n False frame) (\<lambda>frames.
               vreturn (frame # frames))))"

text \<open>
  The constructors of the stream, the reader and the table. The one of the reader is called with \<^verbatim>\<open>THREAD\<close>: when it
  throws, the number of frames is zero.
\<close>

definition stack_map_table :: "meth \<Rightarrow> reader \<Rightarrow> frame \<Rightarrow> nat \<Rightarrow> nat \<Rightarrow> map_table res" where
  "stack_map_table m rd init_frame max_locals max_stack =
     rbind
       (check_verify
         (vbind (case mt_stackmap_data m of None \<Rightarrow> vreturn 0 | Some _ \<Rightarrow> get_u2) (\<lambda>frame_count.
          vbind (read_frames rd max_locals max_stack frame_count True init_frame) (\<lambda>frames.
          vthen check_end
          (vreturn \<lparr> tb_code_length = rd_code_length rd, tb_frames = frames \<rparr>))))
         (map_stream_of (mt_stackmap_data m)))
       (\<lambda>(tb, _). Inr tb)"

definition get_index_from_offset :: "map_table \<Rightarrow> int \<Rightarrow> nat" where
  "get_index_from_offset tb offset =
     length (takeWhile (\<lambda>f. f_offset f \<noteq> offset) (tb_frames tb))"

text \<open>The current frame becomes the frame of the table.\<close>

definition update_from :: "frame \<Rightarrow> frame \<Rightarrow> frame res" where
  "update_from stackmap_frame frame =
     (let lsize = f_locals_size stackmap_frame; ssize = f_stack_size stackmap_frame in
      rbind (if f_locals_size frame > lsize \<or> f_stack_size frame > ssize then reset frame
             else Inr frame) (\<lambda>frame.
      rbind (copy_locals stackmap_frame (frame\<lparr> f_locals_size := lsize \<rparr>)) (\<lambda>frame.
      rbind (copy_stack stackmap_frame (frame\<lparr> f_stack_size := ssize \<rparr>)) (\<lambda>frame.
        Inr (frame\<lparr> f_flags := f_flags stackmap_frame \<rparr>)))))"

definition match_stackmap_at ::
  "(string \<Rightarrow> klass res) \<Rightarrow> map_table \<Rightarrow> int \<Rightarrow> bool \<Rightarrow> bool \<Rightarrow> (frame, bool) vm" where
  "match_stackmap_at r tb frame_index match update = (\<lambda>frame.
     if frame_index < 0 \<or> frame_index \<ge> int (length (tb_frames tb))
     then Inl (VerifyError ''Expecting a stackmap frame at branch target'')
     else
       rbind (arr_get_i (tb_frames tb) frame_index) (\<lambda>stackmap_frame.
       rbind (if match then is_assignable_to r frame stackmap_frame else Inr True) (\<lambda>result.
       rbind (if update then update_from stackmap_frame frame else Inr frame) (\<lambda>frame.
         Inr (result, frame)))))"

definition match_stackmap ::
  "(string \<Rightarrow> klass res) \<Rightarrow> map_table \<Rightarrow> int \<Rightarrow> bool \<Rightarrow> bool \<Rightarrow> (frame, bool) vm" where
  "match_stackmap r tb target match update =
     match_stackmap_at r tb (int (get_index_from_offset tb target)) match update"

definition check_new_object :: "int \<Rightarrow> (frame, unit) vm" where
  "check_new_object target = (\<lambda>frame.
     if f_offset frame > target then
       rbind (has_new_object frame) (\<lambda>b.
         if b then Inl (VerifyError ''Uninitialized object exists on backward branch'')
         else Inr ((), frame))
     else Inr ((), frame))"

definition check_jump_target :: "(string \<Rightarrow> klass res) \<Rightarrow> map_table \<Rightarrow> int \<Rightarrow> (frame, unit) vm" where
  "check_jump_target r tb target =
     vbind (match_stackmap r tb target True False) (\<lambda>match.
       if \<not> match \<or> target < 0 \<or> target \<ge> int (tb_code_length tb)
       then vfail (VerifyError ''Inconsistent stackmap frames at branch target'')
       else check_new_object target)"

section \<open>The reader delivers well-formed frames\<close>

definition map_stream_ok :: "map_stream \<Rightarrow> bool" where
  "map_stream_ok s = (case ms_data s of None \<Rightarrow> ms_index s = 0 | Some data \<Rightarrow> ms_index s \<le> length data)"

interpretation ms: vm_invariant map_stream_ok .

definition reader_ok :: "reader \<Rightarrow> bool" where
  "reader_ok rd \<longleftrightarrow> cp_wf (rd_cp rd) \<and> length (rd_code_data rd) = rd_code_length rd"

lemma stackmap_format_error_keeps: "ms.keeps (\<lambda>_. True) (stackmap_format_error m)"
  unfolding stackmap_format_error_def by (rule ms.keeps_modify) (auto simp: map_stream_ok_def split: option.splits)

lemma class_format_error_keeps: "ms.keeps (\<lambda>_. True) (class_format_error m)"
  unfolding class_format_error_def by (rule ms.keeps_modify) (auto simp: map_stream_ok_def split: option.splits)

lemmas error_keeps = ms.keeps_then [OF stackmap_format_error_keeps ms.keeps_return]
  ms.keeps_then [OF class_format_error_keeps ms.keeps_return]

lemma check_verify_keeps: "ms.keeps A m \<Longrightarrow> ms.keeps A (check_verify m)"
  unfolding check_verify_def by (rule ms.keeps_bind, assumption) (auto simp: ms.keeps_def split: option.split)

lemma check_verify_Inr:
  "check_verify m s = Inr (x, s') \<longleftrightarrow> m s = Inr (x, s') \<and> ms_pending s' = None \<and> ms_error s' = None"
  by (cases "m s") (auto simp: check_verify_def vbind_def split: option.splits)

lemma beyond_end_keeps: "0 < n \<Longrightarrow> ms.keeps (\<lambda>k. k < n) beyond_end"
  unfolding beyond_end_def by (rule error_keeps)

lemma get_u1_keeps: "ms.keeps (\<lambda>n. n < 256) get_u1"
  using beyond_end_keeps [of 256]
  by (auto simp: get_u1_def ms.keeps_def map_stream_ok_def split: option.splits)

lemma get_u2_keeps: "ms.keeps (\<lambda>n. n < 65536) get_u2"
  using beyond_end_keeps [of 65536]
  by (auto simp: get_u2_def ms.keeps_def map_stream_ok_def split: option.splits)

lemma check_size_keeps: "ms.keeps (\<lambda>_. 0 \<le> n \<and> n \<le> int m) (check_verify (check_verification_type_array_size n m))"
  by (rule ms.keepsI)
    (auto simp: check_verify_def check_verification_type_array_size_def class_format_error_def vm_defs
      split: if_splits option.splits)

lemma check_end_keeps: "ms.keeps (\<lambda>_. True) check_end"
  unfolding check_end_def
  by (intro ms.keeps_bind_get ms.keeps_if ms.keeps_return stackmap_format_error_keeps TrueI)

lemma reserved_keeps: "ms.keeps A reserved_frame_type"
  by (rule ms.keepsI)
    (auto simp: reserved_frame_type_def check_verify_def stackmap_format_error_def vm_defs split: option.splits)

lemma from_tag_ok: "n < 6 \<Longrightarrow> \<exists>t. from_tag n = Inr t \<and> type_ok t \<and> half2 t = 0"
  by (auto simp: from_tag_def less_Suc_eq numeral_eq_Suc)

lemma parse_verification_type_keeps:
  assumes "reader_ok rd"
  shows "ms.keeps (\<lambda>(t, fl). type_ok t \<and> half2 t = 0 \<and> (fl = None \<longleftrightarrow> flags = None))
    (parse_verification_type rd flags)"
proof -
  have cp: "cp_wf (rd_cp rd)" and cd: "length (rd_code_data rd) = rd_code_length rd"
    using assms by (auto simp: reader_ok_def)
  have tag: "no_fault (from_tag n)" "from_tag n = Inr t \<Longrightarrow> type_ok t \<and> half2 t = 0" if "n < 6" for n t
    using from_tag_ok [OF that] by auto
  have kl: "no_fault (klass_name_at (rd_cp rd) i) \<and> (\<forall>n. klass_name_at (rd_cp rd) i = Inr n \<longrightarrow> legal_class_name n)"
    if "\<not> cp_length (rd_cp rd) \<le> i" "is_klass_tag (tag_of (cp_entries (rd_cp rd) ! i)) \<or>
      is_unresolved_klass_tag (tag_of (cp_entries (rd_cp rd) ! i))" for i
    using class_entry [OF cp _ that(2)] that(1) by (auto simp: is_class_entry_def)
  show ?thesis
    unfolding parse_verification_type_def
    by (intro ms.keeps_bind [OF get_u1_keeps] ms.keeps_if ms.keeps_bind [OF get_u2_keeps] error_keeps
        ms.keeps_bind_lift ms.keeps_return)
      (auto simp: tag tag_at_Inr cd BciForThis_def dest: kl)
qed

lemma to_category2_2nd_ok:
  "is_category2 t \<Longrightarrow> type_ok t \<Longrightarrow> type_ok (to_category2_2nd t) \<and> paired [t, to_category2_2nd t]"
  by (cases t) (auto simp: type_ok_def is_check_def is_category2_def to_category2_2nd_def paired_def slot_def nth_Cons' le_Suc_eq)

lemma paired_single: "single t \<Longrightarrow> paired [t]"
  by (auto simp: paired_def slot_def single_def)

lemma category1_single: "type_ok t \<Longrightarrow> half2 t = 0 \<Longrightarrow> \<not> is_category2 t \<Longrightarrow> single t"
  by (cases t) (auto simp: single_def is_category2_def)

lemma parse_types_keeps:
  assumes "reader_ok rd"
  shows "ms.keeps (\<lambda>(ts, fl). list_all type_ok ts \<and> paired ts \<and> length ts \<le> 2 * n \<and> (fl = None \<longleftrightarrow> flags = None))
    (parse_types rd n flags)"
proof (induction n arbitrary: flags)
  case 0
  show ?case using paired_replicate [of 0] by (auto intro: ms.keeps_return)
next
  case (Suc n)
  let ?two = "\<lambda>t ts. if is_category2 t then t # to_category2_2nd t # ts else t # ts"
  have two: "list_all type_ok (?two t ts) \<and> paired (?two t ts) \<and> length (?two t ts) \<le> 2 * Suc n"
    if "type_ok t" "half2 t = 0" "list_all type_ok ts" "paired ts" "length ts \<le> 2 * n" for t ts
    using that to_category2_2nd_ok [of t] category1_single [of t] paired_single [of t]
      paired_append [of "[t, to_category2_2nd t]" ts] paired_append [of "[t]" ts] by auto
  show ?case
    unfolding parse_types.simps
    by (rule ms.keeps_bind [OF parse_verification_type_keeps [OF assms]], clarify,
        rule ms.keeps_bind [OF Suc.IH], clarify, rule ms.keeps_return) (use two in auto)
qed

text \<open>
  A chop removes whole variables: it never leaves the first half of a long or double at the
  end of the valid locals.
\<close>

lemma paired_take_at:
  assumes "paired ts" and "n < length ts" and "half2 (ts ! n) = 0"
  shows "paired (take n ts)"
  unfolding paired_def
proof
  fix k
  from pairedD [OF assms(1), of k] pairedD [OF assms(1), of n] assms(2,3)
  show "half1 (slot (take n ts) k) = half2 (slot (take n ts) (Suc k))"
    by (cases "k = n") (auto simp: slot_take)
qed

lemma chop_step:
  assumes p: "paired (take (Suc n) ts)" and n: "n < length ts" and ok: "type_ok (ts ! n)"
  defines "m \<equiv> (if is_category2_2nd (ts ! n) then int n - 2 else int n - 1)"
  shows "- 1 \<le> m \<and> m < int n \<and> paired (take (nat (m + 1)) ts)"
proof (cases "is_category2_2nd (ts ! n)")
  case True
  with ok have h: "half2 (ts ! n) \<noteq> 0"
    by (cases "ts ! n") (auto simp: is_category2_2nd_def type_ok_def is_check_def)
  then have n0: "0 < n" using paired_second [OF p, of n] n by simp
  then obtain k where k: "n = Suc k" by (cases n) auto
  have "half1 (ts ! k) \<noteq> 0"
    using pairedD [OF p, of n] h n k by (simp add: slot_def)
  then have "half2 (ts ! k) = 0" using halves_exclusive [of "ts ! k"] by simp
  then have "paired (take k (take (Suc n) ts))"
    using p n k by (intro paired_take_at [of "take (Suc n) ts"]) auto
  with True k show ?thesis by (simp add: m_def nat_add_distrib min_def)
next
  case False
  with ok have "half2 (ts ! n) = 0"
    by (cases "ts ! n") (auto simp: is_category2_2nd_def)
  then have "paired (take n (take (Suc n) ts))"
    using p n by (intro paired_take_at [of "take (Suc n) ts"]) auto
  with False show ?thesis by (simp add: m_def min_def)
qed

lemma chop_loop_ok:
  assumes "pos < int (length ts)" and "- 1 \<le> pos" and "paired (take (nat (pos + 1)) ts)"
    and "list_all type_ok (take (nat (pos + 1)) ts)"
  shows "no_fault (chop_loop ts pos n) \<and>
    (\<forall>k. chop_loop ts pos n = Inr k \<longrightarrow> - 1 \<le> k \<and> k \<le> pos + 1 \<and> (0 \<le> k \<longrightarrow> paired (take (nat k) ts)))"
  using assms
proof (induction n arbitrary: pos)
  case (Suc n)
  show ?case
  proof (cases "pos < 0")
    case False
    then obtain i where i: "pos = int i" by (metis nonneg_int_cases not_less)
    let ?m = "if is_category2_2nd (ts ! i) then int i - 2 else int i - 1"
    have le: "nat (int i + 1) = Suc i" by simp
    have p: "paired (take (Suc i) ts)" and l: "i < length ts" and ok: "list_all type_ok (take (Suc i) ts)"
      using Suc.prems i by (auto simp: le)
    then have "type_ok (ts ! i)" by (auto simp: list_all_length)
    note m = chop_step [OF p l this]
    have "list_all type_ok (take (nat (?m + 1)) ts)"
      by (rule list_all_take_mono [OF ok]) (use m in linarith)
    then have ih: "no_fault (chop_loop ts ?m n) \<and>
        (\<forall>k. chop_loop ts ?m n = Inr k \<longrightarrow> - 1 \<le> k \<and> k \<le> ?m + 1 \<and> (0 \<le> k \<longrightarrow> paired (take (nat k) ts)))"
      by (intro Suc.IH) (use m l in linarith)+
    have eq: "chop_loop ts pos (Suc n) = (if ?m < 0 \<and> n > 0 then Inr (- 1) else chop_loop ts ?m n)"
      using l i by (simp add: chop_read_def Let_def)
    show ?thesis
      unfolding eq using ih m i by (auto 0 3 split: if_splits)
  qed (simp add: chop_read_def)
qed auto

text \<open>What the reader promises of a frame that it reads after another one.\<close>

definition follows :: "nat \<Rightarrow> nat \<Rightarrow> frame \<Rightarrow> bool \<Rightarrow> frame \<Rightarrow> bool" where
  "follows ml ms pre first f \<longleftrightarrow>
     table_frame_ok ml ms f \<and> (if first then 0 \<le> f_offset f else f_offset pre < f_offset f)"

lemma next_offset_follows: "if first then 0 \<le> next_offset pre first d else f_offset pre < next_offset pre first d"
  by (simp add: next_offset_def)

lemma frame_on_ok:
  assumes pre: "table_frame_ok ml ms pre" and n: "n \<le> f_locals_size pre"
    and p: "paired (take n (f_locals pre))"
    and st: "k \<le> ms" "k \<le> length stack" "list_all type_ok (take k stack)"
  shows "\<exists>f. frame_on pre first (next_offset pre first d) fl n k ml ms stack = Inr f \<and>
    follows ml ms pre first f"
proof -
  have l: "n \<le> length (f_locals pre)" "n \<le> ml" "list_all type_ok (take n (f_locals pre))"
    using pre n by (auto simp: table_frame_ok_def intro: list_all_take_mono)
  show ?thesis
    using l n p st next_offset_follows [of first pre d]
    by (auto simp: frame_on_def Let_def copy_locals_def copy_array_eq follows_def table_frame_ok_def)
qed

lemma frame_on_keeps:
  assumes "table_frame_ok ml ms pre" and "n \<le> f_locals_size pre" and "paired (take n (f_locals pre))"
    and "k \<le> ms" and "k \<le> length stack" and "list_all type_ok (take k stack)"
  shows "ms.keeps (follows ml ms pre first)
    (vlift (frame_on pre first (next_offset pre first d) fl n k ml ms stack))"
  using frame_on_ok [OF assms, of first d fl] by (auto intro!: ms.keeps_lift)

lemma table_frame_paired: "table_frame_ok ml ms f \<Longrightarrow> paired (take (f_locals_size f) (f_locals f))"
  by (simp add: table_frame_ok_def)

lemma next_same_keeps:
  "table_frame_ok ml ms pre \<Longrightarrow> ms.keeps (follows ml ms pre first) (next_same pre first ml ms d)"
  unfolding next_same_def by (rule frame_on_keeps) (auto simp: table_frame_paired)

lemma next_same_locals_1_keeps:
  assumes "reader_ok rd" and "table_frame_ok ml ms pre"
  shows "ms.keeps (follows ml ms pre first) (next_same_locals_1 rd pre first ml ms d)"
  unfolding next_same_locals_1_def Let_def
proof (rule ms.keeps_bind [OF check_verify_keeps [OF parse_verification_type_keeps [OF assms(1)]]], clarify)
  fix t :: vtype and fl :: "u1 option"
  assume t: "type_ok t"
  show "ms.keeps (follows ml ms pre first)
    (vthen (check_verify (check_verification_type_array_size (int (if is_category2 t then 2 else 1)) ms))
       (vlift (frame_on pre first (next_offset pre first d) (f_flags pre) (f_locals_size pre)
          (if is_category2 t then 2 else 1) ml ms
          (if is_category2 t then [t, to_category2_2nd t] else [t, Bogus]))))"
    unfolding vthen_def
    by (rule ms.keeps_bind [OF check_size_keeps], rule frame_on_keeps [OF assms(2)])
      (use t to_category2_2nd_ok [of t] assms(2) in \<open>auto simp: table_frame_paired split: if_splits\<close>)
qed

lemma any_uninitialized_this_no_fault: "n \<le> length ts \<Longrightarrow> no_fault (any_uninitialized_this ts n)"
proof (induction ts arbitrary: n)
  case (Cons t ts)
  then show ?case by (cases n) auto
qed simp

lemma next_chop_keeps:
  assumes "table_frame_ok ml ms pre"
  shows "ms.keeps (follows ml ms pre first) (next_chop pre first ml ms ft d)"
proof -
  let ?ts = "f_locals pre" and ?n = "f_locals_size pre"
  have ts: "?n \<le> length ?ts" "list_all type_ok (take ?n ?ts)" "paired (take ?n ?ts)"
    using assms by (auto simp: table_frame_ok_def)
  have nf: "no_fault (chop ?ts ?n c)"
    and c: "chop ?ts ?n c = Inr k \<Longrightarrow> 0 \<le> k \<Longrightarrow> k \<le> int ?n \<and> paired (take (nat k) ?ts)" for c k
    using chop_loop_ok [of "int ?n - 1" ?ts c] ts by (auto simp: chop_def)
  let ?A = "\<lambda>(k, fl :: u1). k \<le> ?n \<and> paired (take k ?ts)"
  have chopped: "ms.keeps ?A (if c \<noteq> 0 then
       vbind (vlift (chop ?ts ?n c)) (\<lambda>k.
       vthen (check_verify (check_verification_type_array_size k ml))
       (vbind (vlift (any_uninitialized_this ?ts (nat k))) (\<lambda>u.
          vreturn (nat k, if u then FLAG_THIS_UNINIT else 0))))
     else vreturn (?n, f_flags pre))" for c
    unfolding vthen_def
    by (intro ms.keeps_if ms.keeps_bind_lift ms.keeps_bind [OF check_size_keeps] ms.keeps_return nf
        any_uninitialized_this_no_fault) (use c ts in force)+
  show ?thesis
    unfolding next_chop_def Let_def
    by (rule ms.keeps_bind [OF chopped], clarify, rule frame_on_keeps [OF assms]) auto
qed

lemma next_append_keeps:
  assumes "reader_ok rd" and pre: "table_frame_ok ml ms pre"
  shows "ms.keeps (follows ml ms pre first) (next_append rd pre first ml ms ft d)"
proof -
  let ?ts = "f_locals pre" and ?n = "f_locals_size pre" and ?a = "ft - SAME_EXTENDED"
  have ts: "?n \<le> length ?ts" "list_all type_ok (take ?n ?ts)" "paired (take ?n ?ts)"
    using pre by (auto simp: table_frame_ok_def)
  have cp: "copy_array ?ts (replicate (?n + ?a * 2) Bogus) ?n = Inr (take ?n ?ts @ replicate (?a * 2) Bogus)"
    using ts by (simp add: copy_array_eq)
  show ?thesis
    unfolding next_append_def Let_def vthen_def
    by (rule ms.keeps_bind_lift, simp add: cp, rule ms.keeps_bind [OF parse_types_keeps [OF assms(1)]], clarify,
        rule ms.keeps_bind [OF check_size_keeps], rule ms.keeps_return)
      (use ts next_offset_follows [of first pre d] in \<open>auto simp: cp follows_def table_frame_ok_def paired_append\<close>)
qed

lemma next_full_keeps:
  assumes "reader_ok rd"
  shows "ms.keeps (follows ml ms pre first) (next_full rd pre first ml ms d)"
  unfolding next_full_def vthen_def
  by (rule ms.keeps_bind [OF get_u2_keeps], rule ms.keeps_bind [OF parse_types_keeps [OF assms]], clarify,
      rule ms.keeps_bind [OF check_size_keeps], rule ms.keeps_bind [OF get_u2_keeps],
      rule ms.keeps_bind [OF parse_types_keeps [OF assms]], clarify,
      rule ms.keeps_bind [OF check_size_keeps], rule ms.keeps_return)
    (use next_offset_follows [of first pre d] in \<open>auto simp: follows_def table_frame_ok_def\<close>)

lemma reader_next_keeps:
  assumes "reader_ok rd" and "table_frame_ok ml ms pre"
  shows "ms.keeps (follows ml ms pre first) (reader_next rd pre first ml ms)"
  unfolding reader_next_def
  by (intro ms.keeps_bind [OF get_u1_keeps] ms.keeps_if ms.keeps_bind [OF get_u2_keeps] reserved_keeps
      next_same_keeps next_same_locals_1_keeps next_chop_keeps next_append_keeps next_full_keeps assms)

section \<open>The table\<close>

text \<open>
  The frames of a table are well-formed, their offsets are starts of instructions, and they
  increase strictly.
\<close>

definition table_ok :: "nat \<Rightarrow> nat \<Rightarrow> nat list \<Rightarrow> map_table \<Rightarrow> bool" where
  "table_ok ml ms code_data tb \<longleftrightarrow>
     tb_code_length tb = length code_data \<and>
     list_all (table_frame_ok ml ms) (tb_frames tb) \<and>
     sorted_wrt (\<lambda>f g. f_offset f < f_offset g) (tb_frames tb) \<and>
     list_all (\<lambda>f. 0 \<le> f_offset f \<and> f_offset f < int (length code_data) \<and>
       code_data ! nat (f_offset f) \<noteq> 0) (tb_frames tb)"

definition frames_from :: "nat \<Rightarrow> nat \<Rightarrow> nat list \<Rightarrow> int \<Rightarrow> frame list \<Rightarrow> bool" where
  "frames_from ml ms code_data lo fs \<longleftrightarrow>
     list_all (table_frame_ok ml ms) fs \<and> sorted_wrt (\<lambda>f g. f_offset f < f_offset g) fs \<and>
     list_all (\<lambda>f. lo \<le> f_offset f \<and> f_offset f < int (length code_data) \<and>
       code_data ! nat (f_offset f) \<noteq> 0) fs"

lemma frames_from_Cons:
  assumes "frames_from ml ms cd (f_offset f + 1) fs" and "table_frame_ok ml ms f" and "lo \<le> f_offset f"
    and "f_offset f < int (length cd)" and "cd ! nat (f_offset f) \<noteq> 0"
  shows "frames_from ml ms cd lo (f # fs)"
  using assms by (auto simp: frames_from_def list_all_iff)

lemma read_frames_keeps:
  assumes "reader_ok rd" and "table_frame_ok ml ms pre" and "first \<or> 0 \<le> f_offset pre"
  shows "ms.keeps (frames_from ml ms (rd_code_data rd) (if first then 0 else f_offset pre + 1))
    (read_frames rd ml ms n first pre)"
  using assms(2,3)
proof (induction n arbitrary: first pre)
  case 0
  show ?case by (simp add: frames_from_def ms.keeps_return)
next
  case (Suc n)
  let ?cd = "rd_code_data rd"
  have len: "length ?cd = rd_code_length rd" using assms(1) by (simp add: reader_ok_def)
  have nf: "no_fault (arr_get_i ?cd (f_offset f))" "arr_get_i ?cd (f_offset f) = Inr d \<Longrightarrow> d = ?cd ! nat (f_offset f)"
    if "0 \<le> f_offset f" "\<not> int (rd_code_length rd) \<le> f_offset f" for f d
    using that len by auto
  have f0: "0 \<le> f_offset f" if "follows ml ms pre first f" for f
    using that Suc.prems(2) by (auto simp: follows_def split: if_splits)
  show ?case
    unfolding read_frames.simps Let_def
  proof (intro ms.keeps_bind [OF check_verify_keeps [OF reader_next_keeps [OF assms(1) Suc.prems(1)]]] ms.keeps_if ms.keeps_fail
      ms.keeps_bind_lift)
    fix f d
    assume f: "follows ml ms pre first f" "\<not> int (rd_code_length rd) \<le> f_offset f"
      and d: "arr_get_i ?cd (f_offset f) = Inr d" "d \<noteq> 0"
    have ok: "table_frame_ok ml ms f" using f by (simp add: follows_def)
    have "frames_from ml ms ?cd (if first then 0 else f_offset pre + 1) (f # fs)"
      if "frames_from ml ms ?cd (f_offset f + 1) fs" for fs
      using that f d nf(2) [OF f0 [OF f(1)] f(2)] len
      by (intro frames_from_Cons) (auto simp: follows_def)
    then show "ms.keeps (frames_from ml ms ?cd (if first then 0 else f_offset pre + 1))
        (vbind (read_frames rd ml ms n False f) (\<lambda>fs. vreturn (f # fs)))"
      using Suc.IH [OF ok, of False] f0 [OF f(1)]
      by (intro ms.keeps_bind [where A = "frames_from ml ms ?cd (f_offset f + 1)"] ms.keeps_return) auto
  qed (use nf f0 in auto)
qed

lemma stack_map_table_ok:
  assumes "reader_ok rd" and "frame_ok ml ms f"
  shows "no_fault (stack_map_table m rd f ml ms)"
    and "stack_map_table m rd f ml ms = Inr tb \<Longrightarrow> table_ok ml ms (rd_code_data rd) tb"
proof -
  let ?s = "map_stream_of (mt_stackmap_data m)"
  let ?prog = "vbind (case mt_stackmap_data m of None \<Rightarrow> vreturn 0 | Some _ \<Rightarrow> get_u2) (\<lambda>frame_count.
        vbind (read_frames rd ml ms frame_count True f) (\<lambda>frames.
        vthen check_end
        (vreturn \<lparr> tb_code_length = rd_code_length rd, tb_frames = frames \<rparr>)))"
  have count: "ms.keeps (\<lambda>_. True) (case mt_stackmap_data m of None \<Rightarrow> vreturn 0 | Some _ \<Rightarrow> get_u2)"
    using ms.keeps_weaken [OF get_u2_keeps] by (auto split: option.splits intro: ms.keeps_return)
  have k: "ms.keeps (table_ok ml ms (rd_code_data rd)) (check_verify ?prog)"
    by (intro check_verify_keeps ms.keeps_bind [OF count] ms.keeps_bind [OF read_frames_keeps] ms.keeps_then [OF check_end_keeps]
        ms.keeps_return assms(1) frame_ok_table [OF assms(2)])
      (use assms(1) in \<open>auto simp: table_ok_def frames_from_def reader_ok_def\<close>)
  have s: "map_stream_ok ?s" by (simp add: map_stream_of_def map_stream_ok_def split: option.splits)
  show "no_fault (stack_map_table m rd f ml ms)"
    unfolding stack_map_table_def using ms.keeps_no_fault [OF k s] by (auto intro!: no_fault_rbind)
  show "stack_map_table m rd f ml ms = Inr tb \<Longrightarrow> table_ok ml ms (rd_code_data rd) tb"
    unfolding stack_map_table_def using ms.keeps_Inr [OF k s] by auto
qed

section \<open>The unguarded read of \<open>chop\<close>\<close>

lemma copy_array_places: "at_places S (copy_array src dst n)"
  by (induction src dst n rule: copy_array.induct) (auto intro: at_places_rbind)

lemma frame_on_places: "at_places S (frame_on pre first off fl n k ml ms st)"
  by (auto simp: frame_on_def copy_locals_def Let_def intro!: at_places_rbind copy_array_places)

lemma any_uninitialized_this_places: "at_places S (any_uninitialized_this ts n)"
  by (induction ts n rule: any_uninitialized_this.induct) auto

lemma chop_loop_places: "at_places {''StackMapReader::chop''} (chop_loop ts pos n)"
  by (induction n arbitrary: pos) (auto simp: chop_read_def Let_def intro!: at_places_rbind)

lemma chop_loop_guarded: "0 \<le> pos \<Longrightarrow> at_places {} (chop_loop ts pos n)"
  by (induction n arbitrary: pos) (auto simp: chop_read_def Let_def intro!: at_places_rbind)

lemma check_verify_stops: "stops S m \<Longrightarrow> stops S (check_verify m)"
  unfolding check_verify_def by (rule stops_bind, assumption) (simp add: stops_def split: option.split)

lemma format_errors_stop: "stops S (stackmap_format_error m)" "stops S (class_format_error m)"
  by (simp_all add: stackmap_format_error_def class_format_error_def stops_basic)

lemma get_stops: "stops S get_u1" "stops S get_u2"
proof -
  have "stops S beyond_end" unfolding beyond_end_def by (intro stops_rules format_errors_stop)
  then show "stops S get_u1" "stops S get_u2"
    by (auto simp: get_u1_def get_u2_def stops_def split: option.split intro!: at_places_rbind)
qed

lemma pool_places: "at_places S (from_tag n)" "at_places S (tag_at cp i)" "at_places S (klass_name_at cp i)"
  by (auto simp: from_tag_def tag_at_def klass_name_at_def intro!: at_places_rbind split: cp_entry.split)

lemma parse_verification_type_stops: "stops S (parse_verification_type rd fl)"
  unfolding parse_verification_type_def by (intro stops_rules get_stops format_errors_stop pool_places at_places_arr)

lemma parse_types_stops: "stops S (parse_types rd n fl)"
  by (induction n arbitrary: fl) (auto intro!: stops_rules parse_verification_type_stops)

lemma check_size_stops: "stops S (check_verify (check_verification_type_array_size n m))"
  unfolding check_verification_type_array_size_def by (intro check_verify_stops stops_rules format_errors_stop)

lemmas next_stops = stops_rules get_stops check_size_stops check_verify_stops parse_types_stops parse_verification_type_stops
  frame_on_places any_uninitialized_this_places copy_array_places format_errors_stop

lemma next_chop_stops:
  "f_locals_size pre = 0 \<longrightarrow> ft = SAME_EXTENDED \<or> ''StackMapReader::chop'' \<in> S \<Longrightarrow> stops S (next_chop pre first ml ms ft d)"
proof -
  assume a: "f_locals_size pre = 0 \<longrightarrow> ft = SAME_EXTENDED \<or> ''StackMapReader::chop'' \<in> S"
  have "at_places S (chop (f_locals pre) (f_locals_size pre) (SAME_EXTENDED - ft))" if "SAME_EXTENDED - ft \<noteq> 0"
    using a that chop_loop_places [of "f_locals pre"] chop_loop_guarded [of "int (f_locals_size pre) - 1" "f_locals pre"]
    by (cases "f_locals_size pre = 0") (auto simp: chop_def at_places_def)
  then show ?thesis unfolding next_chop_def Let_def by (intro next_stops) auto
qed

lemma reader_next_stops: "stops {''StackMapReader::chop''} (reader_next rd pre first ml ms)"
proof -
  have "stops S reserved_frame_type" for S :: "string set"
    by (auto simp: reserved_frame_type_def intro!: next_stops)
  then show ?thesis
    unfolding reader_next_def next_same_def next_same_locals_1_def next_append_def next_full_def Let_def
    by (intro next_stops next_chop_stops) auto
qed

lemma stack_map_table_stops: "at_places {''StackMapReader::chop''} (stack_map_table m rd f ml ms)"
proof -
  have frames: "stops {''StackMapReader::chop''} (read_frames rd ml ms n first pre)" for n first pre
    by (induction n arbitrary: first pre)
      (auto simp: Let_def intro!: stops_rules check_verify_stops reader_next_stops)
  have "stops {''StackMapReader::chop''} check_end" unfolding check_end_def by (intro next_stops)
  moreover have "stops S (case x of None \<Rightarrow> vreturn 0 | Some _ \<Rightarrow> get_u2)" for S and x :: "u1 list option"
    by (cases x) (simp_all add: next_stops)
  ultimately have "stops {''StackMapReader::chop''} (check_verify
      (vbind (case mt_stackmap_data m of None \<Rightarrow> vreturn 0 | Some _ \<Rightarrow> get_u2) (\<lambda>frame_count.
       vbind (read_frames rd ml ms frame_count True f) (\<lambda>frames.
       vthen check_end (vreturn \<lparr> tb_code_length = rd_code_length rd, tb_frames = frames \<rparr>)))))"
    by (intro next_stops frames)
  then show ?thesis unfolding stack_map_table_def by (intro at_places_rbind) (auto simp: stops_def)
qed

section \<open>Matching the current frame\<close>

lemma get_index_found:
  assumes "get_index_from_offset tb t < length (tb_frames tb)"
  shows "f_offset (tb_frames tb ! get_index_from_offset tb t) = t"
  using nth_length_takeWhile [of "\<lambda>f. f_offset f \<noteq> t" "tb_frames tb"] assms
  by (simp add: get_index_from_offset_def)

lemma table_frame_copy:
  assumes f: "frame_ok ml ms f" and g: "table_frame_ok ml ms g"
  defines "f1 \<equiv> if f_locals_size f > f_locals_size g \<or> f_stack_size f > f_stack_size g
    then f\<lparr> f_locals := replicate ml Bogus, f_stack := replicate ms Bogus \<rparr> else f"
  shows "list_all (\<lambda>t. t = Bogus) (drop (f_locals_size g) (f_locals f1))"
  using f list_all_drop_mono [of "\<lambda>t. t = Bogus" "f_locals_size f" "f_locals f" "f_locals_size g"]
  unfolding f1_def by (auto simp: frame_ok_def list_all_length [of _ "replicate _ _"])

text \<open>With \<open>update\<close>, the frame becomes the frame of the table; its own offset stays.\<close>

definition frame_from :: "nat \<Rightarrow> frame \<Rightarrow> frame \<Rightarrow> bool" where
  "frame_from ml g f \<longleftrightarrow>
     f_locals_size f = f_locals_size g \<and> f_stack_size f = f_stack_size g \<and> f_flags f = f_flags g \<and>
     f_locals f = take (f_locals_size g) (f_locals g) @ replicate (ml - f_locals_size g) Bogus \<and>
     take (f_stack_size g) (f_stack f) = take (f_stack_size g) (f_stack g)"

lemma update_frame:
  assumes f: "frame_ok ml ms f" and g: "table_frame_ok ml ms g"
  shows "\<exists>f'. update_from g f = Inr f' \<and> frame_ok ml ms f' \<and> frame_from ml g f' \<and> f_offset f' = f_offset f"
proof -
  define f1 where "f1 = (if f_locals_size f > f_locals_size g \<or> f_stack_size f > f_stack_size g
    then f\<lparr> f_locals := replicate ml Bogus, f_stack := replicate ms Bogus \<rparr> else f)"
  have len: "length (f_locals f1) = ml" "length (f_stack f1) = ms" "f_offset f1 = f_offset f"
      "f_max_locals f1 = ml" "f_max_stack f1 = ms"
    using f by (auto simp: f1_def frame_ok_def)
  have "list_all (\<lambda>t. t = Bogus) (drop (f_locals_size g) (f_locals f1))"
    unfolding f1_def by (rule table_frame_copy [OF f g])
  then have b: "drop (f_locals_size g) (f_locals f1) = replicate (ml - f_locals_size g) Bogus"
    using len by (intro nth_equalityI) (auto simp: list_all_length)
  have r: "(if f_locals_size f > f_locals_size g \<or> f_stack_size f > f_stack_size g then reset f else Inr f) = Inr f1"
    using f by (simp add: f1_def reset_eq)
  have sz: "f_locals_size g \<le> length (f_locals g)" "f_locals_size g \<le> ml"
      "f_stack_size g \<le> length (f_stack g)" "f_stack_size g \<le> ms"
      "list_all type_ok (take (f_locals_size g) (f_locals g))" "list_all type_ok (take (f_stack_size g) (f_stack g))"
      "paired (take (f_locals_size g) (f_locals g))"
    using g by (auto simp: table_frame_ok_def)
  have "list_all type_ok (replicate n Bogus)" "list_all (\<lambda>t. t = Bogus) (replicate n Bogus)" for n
    by (auto simp: list_all_length)
  with sz len b show ?thesis
    unfolding update_from_def Let_def r by (auto simp: copy_locals_def copy_stack_def copy_array_eq frame_ok_def frame_from_def
        min_def intro!: paired_append)
qed

lemma match_stackmap_at_out:
  "\<not> i < length (tb_frames tb) \<Longrightarrow>
   match_stackmap_at r tb (int i) match update f = Inl (VerifyError ''Expecting a stackmap frame at branch target'')"
  by (simp add: match_stackmap_at_def)

lemma table_ok_frame: "table_ok ml ms cd tb \<Longrightarrow> g \<in> set (tb_frames tb) \<Longrightarrow> table_frame_ok ml ms g"
  by (auto simp: table_ok_def list_all_iff)

lemma match_at_frame:
  assumes tb: "table_ok ml ms cd tb" and i: "i < length (tb_frames tb)" and f: "frame_ok ml ms f"
  defines "g \<equiv> tb_frames tb ! i"
  shows "\<exists>f'. frame_ok ml ms f' \<and>
    match_stackmap_at r tb (int i) match update f =
      rbind (if match then is_assignable_to r f g else Inr True) (\<lambda>result. Inr (result, f')) \<and>
    (if update then frame_from ml g f' \<and> f_offset f' = f_offset f else f' = f)"
proof -
  have g: "table_frame_ok ml ms g" using table_ok_frame [OF tb] i by (simp add: g_def)
  obtain f' where f': "update_from g f = Inr f'" "frame_ok ml ms f'" "frame_from ml g f'" "f_offset f' = f_offset f"
    using update_frame [OF f g] by blast
  have eq: "match_stackmap_at r tb (int i) match update f =
      rbind (if match then is_assignable_to r f g else Inr True) (\<lambda>result.
        if update then Inr (result, f') else Inr (result, f))"
    unfolding match_stackmap_at_def using i f'(1) by (simp add: g_def)
  show ?thesis
  proof (cases update)
    case True
    with eq f' show ?thesis by (intro exI [of _ f']) simp
  next
    case False
    with eq f show ?thesis by (intro exI [of _ f]) simp
  qed
qed

lemma match_stackmap_at_Inr:
  assumes "table_ok ml ms cd tb" and "frame_ok ml ms f"
    and m: "match_stackmap_at r tb (int i) match update f = Inr (b, f')"
  shows "i < length (tb_frames tb) \<and> frame_ok ml ms f' \<and>
    (if match then is_assignable_to r f (tb_frames tb ! i) = Inr b else b) \<and>
    (if update then frame_from ml (tb_frames tb ! i) f' \<and> f_offset f' = f_offset f else f' = f)"
proof -
  have i: "i < length (tb_frames tb)"
    using m match_stackmap_at_out [of i tb] by fastforce
  obtain f1 where f1: "frame_ok ml ms f1"
      "if update then frame_from ml (tb_frames tb ! i) f1 \<and> f_offset f1 = f_offset f else f1 = f"
    and eq: "match_stackmap_at r tb (int i) match update f =
      rbind (if match then is_assignable_to r f (tb_frames tb ! i) else Inr True) (\<lambda>result. Inr (result, f1))"
    using match_at_frame [OF assms(1) i assms(2), of r match update] by blast
  from m [unfolded eq] f1 i show ?thesis by (auto split: if_splits)
qed

lemma match_stackmap_at_keeps:
  assumes "table_ok ml ms cd tb" and "resolve_safe r"
  shows "fr.keeps ml ms (\<lambda>_. True) (match_stackmap_at r tb (int i) match update)"
proof (rule fr.keepsI)
  fix f e
  assume f: "frame_ok ml ms f" and e: "match_stackmap_at r tb (int i) match update f = Inl e"
  show "\<not> is_fault e"
  proof (cases "i < length (tb_frames tb)")
    case True
    let ?g = "tb_frames tb ! i"
    from match_at_frame [OF assms(1) True f, of r match update] obtain f' where
      "match_stackmap_at r tb (int i) match update f =
         rbind (if match then is_assignable_to r f ?g else Inr True) (\<lambda>result. Inr (result, f'))"
      by blast
    with e have "(if match then is_assignable_to r f ?g else Inr True) = Inl e"
      by (simp only: rbind_eq_Inl) simp
    moreover have "no_fault (is_assignable_to r f ?g)"
      using is_assignable_to_no_fault [OF assms(2) f] table_ok_frame [OF assms(1)] True by simp
    ultimately show ?thesis by (auto split: if_splits)
  next
    case False
    with e show ?thesis by (auto simp: match_stackmap_at_out)
  qed
next
  fix f b f'
  assume f: "frame_ok ml ms f" and e: "match_stackmap_at r tb (int i) match update f = Inr (b, f')"
  then show "frame_ok ml ms f' \<and> True" by (simp add: match_stackmap_at_Inr [OF assms(1)])
qed

lemma check_new_object_keeps: "fr.keeps ml ms (\<lambda>_. True) (check_new_object t)"
  by (rule fr.keepsI) (auto simp: check_new_object_def has_new_object_eq split: if_splits)

lemma check_jump_target_keeps [vm_intros]:
  assumes "table_ok ml ms cd tb" and "resolve_safe r"
  shows "fr.keeps ml ms (\<lambda>_. True) (check_jump_target r tb t)"
  unfolding check_jump_target_def match_stackmap_def
  by (intro fr.keeps_bind [OF match_stackmap_at_keeps [OF assms]] fr.keeps_if fr.keeps_fail
      check_new_object_keeps) simp

text \<open>
  What an accepted jump means: the table has a frame at the target, the current frame is
  assignable to it, and on a backward jump no uninitialized object is around.
\<close>

definition target_ok :: "(string \<Rightarrow> klass res) \<Rightarrow> map_table \<Rightarrow> frame \<Rightarrow> int \<Rightarrow> bool" where
  "target_ok r tb f t \<longleftrightarrow>
     0 \<le> t \<and> t < int (tb_code_length tb) \<and>
     (\<exists>g\<in>set (tb_frames tb). f_offset g = t \<and> is_assignable_to r f g = Inr True) \<and>
     (t < f_offset f \<longrightarrow> has_new_object f = Inr False)"

lemma check_jump_target_Inr:
  assumes "check_jump_target r tb t f = Inr (x, f')" and "table_ok ml ms cd tb" and "frame_ok ml ms f"
  shows "f' = f \<and> target_ok r tb f t"
proof -
  from assms(1) obtain f1 where m: "match_stackmap_at r tb (int (get_index_from_offset tb t)) True False f = Inr (True, f1)"
    and t: "0 \<le> t" "t < int (tb_code_length tb)" and n: "check_new_object t f1 = Inr (x, f')"
    by (auto simp: check_jump_target_def match_stackmap_def vm_Inr split: if_splits)
  from match_stackmap_at_Inr [OF assms(2,3) m] n t
  show ?thesis
    using get_index_found [of tb t] by (auto simp: target_ok_def check_new_object_def split: if_splits)
qed

section \<open>Encoding frames\<close>

text \<open>The bytes of the attribute for a number of 16 bits, for a type, and for a full frame; \<open>idx\<close> gives the entry of a class in the pool.\<close>

definition u2_bytes :: "nat \<Rightarrow> u1 list" where
  "u2_bytes n = [of_nat (n div 256), of_nat (n mod 256)]"

fun type_bytes :: "(string \<Rightarrow> nat) \<Rightarrow> vtype \<Rightarrow> u1 list" where
  "type_bytes idx Integer = [1]"
| "type_bytes idx Float = [2]"
| "type_bytes idx Double = [3]"
| "type_bytes idx Long = [4]"
| "type_bytes idx Null = [5]"
| "type_bytes idx (Uninitialized b) = (if b = BciForThis then [6] else 8 # u2_bytes b)"
| "type_bytes idx (Reference n) = 7 # u2_bytes (idx n)"
| "type_bytes idx t = [0]"

fun encodable :: "reader \<Rightarrow> (string \<Rightarrow> nat) \<Rightarrow> vtype \<Rightarrow> bool" where
  "encodable rd idx (Reference n) \<longleftrightarrow> 0 < idx n \<and> idx n < 65536 \<and> idx n < cp_length (rd_cp rd) \<and>
     (cp_entries (rd_cp rd) ! idx n = CP_Class n \<or> cp_entries (rd_cp rd) ! idx n = CP_UnresolvedClass n)"
| "encodable rd idx (Uninitialized b) \<longleftrightarrow>
     b = BciForThis \<or> b < 65536 \<and> b < rd_code_length rd \<and> b < length (rd_code_data rd) \<and> rd_code_data rd ! b = NEW_OFFSET"
| "encodable rd idx t \<longleftrightarrow> t \<in> {Bogus, Integer, Float, Double, Long, Null}"

definition with_this :: "vtype \<Rightarrow> u1 option \<Rightarrow> u1 option" where
  "with_this t flags = (if is_uninitialized_this t then map_option (\<lambda>fl. fl OR FLAG_THIS_UNINIT) flags else flags)"

text \<open>A stream without an error whose remaining bytes are \<open>bs\<close>.\<close>

definition rest_is :: "map_stream \<Rightarrow> u1 list \<Rightarrow> bool" where
  "rest_is s bs \<longleftrightarrow> ms_pending s = None \<and> ms_error s = None \<and>
     (\<exists>data. ms_data s = Some data \<and> ms_index s \<le> length data \<and> drop (ms_index s) data = bs)"

lemma rest_nth:
  assumes "rest_is s (b # bs)"
  obtains data where "ms_data s = Some data" "ms_index s < length data" "data ! ms_index s = b"
    "drop (Suc (ms_index s)) data = bs" "ms_pending s = None" "ms_error s = None"
proof -
  from assms obtain data where d: "ms_data s = Some data" "drop (ms_index s) data = b # bs" by (auto simp: rest_is_def)
  then have "ms_index s < length data" by (metis drop_all linorder_not_less list.distinct(1))
  moreover from this d(2) have "data ! ms_index s = b" "drop (Suc (ms_index s)) data = bs"
    by (metis Cons_nth_drop_Suc list.inject)+
  ultimately show ?thesis using d(1) assms that by (auto simp: rest_is_def)
qed

lemma get_u1_rest:
  assumes "rest_is s (b # bs)"
  shows "\<exists>s'. get_u1 s = Inr (unat b, s') \<and> rest_is s' bs"
  by (rule rest_nth [OF assms]) (auto simp: get_u1_def rest_is_def)

lemma u2_of_bytes: "n < 65536 \<Longrightarrow> u2_of (of_nat (n div 256)) (of_nat (n mod 256)) = n"
  by (simp add: u2_of_def unat_of_nat)

lemma get_u2_rest:
  assumes "rest_is s (u2_bytes n @ bs)" and "n < 65536"
  shows "\<exists>s'. get_u2 s = Inr (n, s') \<and> rest_is s' bs"
proof -
  from assms(1) have "rest_is s (of_nat (n div 256) # of_nat (n mod 256) # bs)" by (simp add: u2_bytes_def)
  then show ?thesis
  proof (rule rest_nth)
    fix data
    assume d: "ms_data s = Some data" "ms_index s < length data" "data ! ms_index s = of_nat (n div 256)"
      "drop (Suc (ms_index s)) data = of_nat (n mod 256) # bs" "ms_pending s = None" "ms_error s = None"
    then have "rest_is (s\<lparr> ms_index := Suc (ms_index s) \<rparr>) (of_nat (n mod 256) # bs)" by (simp add: rest_is_def)
    then show ?thesis
      by (rule rest_nth) (use d in \<open>auto simp: get_u2_def rest_is_def u2_of_bytes [OF assms(2)]\<close>)
  qed
qed

lemma parse_type_bytes:
  assumes "rest_is s (type_bytes idx t @ bs)" and "encodable rd idx t"
  shows "\<exists>s'. parse_verification_type rd flags s = Inr ((t, with_this t flags), s') \<and> rest_is s' bs"
proof -
  have "type_bytes idx t \<noteq> []" by (cases t) auto
  then obtain b cs where c: "type_bytes idx t = b # cs" by (cases "type_bytes idx t") auto
  from get_u1_rest [of s b "cs @ bs"] assms(1) c obtain s1 where
    s1: "get_u1 s = Inr (unat b, s1)" "rest_is s1 (cs @ bs)" by auto
  consider (ref) n where "t = Reference n" | (un) o' where "t = Uninitialized o'" "o' \<noteq> BciForThis"
    | (this) "t = uninitialized_this_type" | (prim) "t \<in> {Bogus, Integer, Float, Double, Long, Null}"
    using assms(2) by (cases t) auto
  then show ?thesis
  proof cases
    case ref
    with c s1 assms(2) get_u2_rest [of s1 "idx n" bs] obtain s2 where
      s2: "get_u2 s1 = Inr (idx n, s2)" "rest_is s2 bs" "b = 7" by auto
    with s1 assms(2) ref show ?thesis
      by (auto simp: parse_verification_type_def vm_defs tag_at_def klass_name_at_def cp_length_def is_klass_tag_def
          is_unresolved_klass_tag_def with_this_def is_uninitialized_this_def)
  next
    case un
    with c s1 assms(2) get_u2_rest [of s1 o' bs] obtain s2 where
      s2: "get_u2 s1 = Inr (o', s2)" "rest_is s2 bs" "b = 8" by auto
    with s1 assms(2) un show ?thesis
      by (auto simp: parse_verification_type_def vm_defs with_this_def is_uninitialized_this_def)
  next
    case this
    with c s1 show ?thesis
      by (auto simp: parse_verification_type_def vm_defs with_this_def is_uninitialized_this_def)
  next
    case prim
    with c s1 show ?thesis
      by (auto simp: parse_verification_type_def vm_defs with_this_def is_uninitialized_this_def from_tag_def)
  qed
qed

text \<open>The elements of an array for a list of types.\<close>

fun expand_types :: "vtype list \<Rightarrow> vtype list" where
  "expand_types [] = []"
| "expand_types (t # ts) = (if is_category2 t then t # to_category2_2nd t # expand_types ts else t # expand_types ts)"

lemma parse_types_bytes:
  assumes "rest_is s (concat (map (type_bytes idx) ts) @ bs)" and "list_all (encodable rd idx) ts"
  shows "\<exists>s'. parse_types rd (length ts) flags s = Inr ((expand_types ts, fold with_this ts flags), s') \<and> rest_is s' bs"
  using assms
proof (induction ts arbitrary: s flags)
  case Nil
  then show ?case by (simp add: vm_defs)
next
  case (Cons t ts)
  from parse_type_bytes [of s idx t "concat (map (type_bytes idx) ts) @ bs" rd flags] Cons.prems obtain s1 where
    s1: "parse_verification_type rd flags s = Inr ((t, with_this t flags), s1)"
      "rest_is s1 (concat (map (type_bytes idx) ts) @ bs)" by auto
  from Cons.IH [OF s1(2), of "with_this t flags"] Cons.prems(2) obtain s2 where
    "parse_types rd (length ts) (with_this t flags) s1 = Inr ((expand_types ts, fold with_this ts (with_this t flags)), s2)"
    "rest_is s2 bs" by auto
  with s1(1) show ?case by (simp add: vm_defs)
qed

definition full_frame_bytes :: "(string \<Rightarrow> nat) \<Rightarrow> nat \<Rightarrow> vtype list \<Rightarrow> vtype list \<Rightarrow> u1 list" where
  "full_frame_bytes idx delta locals stack =
     255 # u2_bytes delta @ u2_bytes (length locals) @ concat (map (type_bytes idx) locals) @
     u2_bytes (length stack) @ concat (map (type_bytes idx) stack)"

lemma full_frame_decodes:
  assumes "rest_is s (full_frame_bytes idx delta locals stack @ bs)"
    and "list_all (encodable rd idx) locals" and "list_all (encodable rd idx) stack"
    and "length locals < 65536" and "length stack < 65536" and "delta < 65536"
    and "length (expand_types locals) \<le> ml" and "length (expand_types stack) \<le> ms"
  shows "\<exists>s'. reader_next rd pre first ml ms s = Inr (\<lparr> f_offset = next_offset pre first delta,
      f_locals_size = length (expand_types locals), f_stack_size = length (expand_types stack),
      f_max_locals = ml, f_max_stack = ms, f_flags = the (fold with_this locals (Some 0)),
      f_locals = expand_types locals, f_stack = expand_types stack \<rparr>, s') \<and> rest_is s' bs"
proof -
  from assms(1) get_u1_rest [of s 255] obtain s1 where s1: "get_u1 s = Inr (255, s1)"
    "rest_is s1 (u2_bytes delta @ u2_bytes (length locals) @ concat (map (type_bytes idx) locals) @
     u2_bytes (length stack) @ concat (map (type_bytes idx) stack) @ bs)" by (auto simp: full_frame_bytes_def)
  from get_u2_rest [OF s1(2) assms(6)] obtain s2 where s2: "get_u2 s1 = Inr (delta, s2)"
    "rest_is s2 (u2_bytes (length locals) @ concat (map (type_bytes idx) locals) @
     u2_bytes (length stack) @ concat (map (type_bytes idx) stack) @ bs)" by blast
  from get_u2_rest [OF s2(2) assms(4)] obtain s3 where s3: "get_u2 s2 = Inr (length locals, s3)"
    "rest_is s3 (concat (map (type_bytes idx) locals) @ u2_bytes (length stack) @ concat (map (type_bytes idx) stack) @ bs)"
    by blast
  from parse_types_bytes [OF s3(2) assms(2)] obtain s4 where
    s4: "parse_types rd (length locals) (Some 0) s3 = Inr ((expand_types locals, fold with_this locals (Some 0)), s4)"
    "rest_is s4 (u2_bytes (length stack) @ concat (map (type_bytes idx) stack) @ bs)" by blast
  from get_u2_rest [OF s4(2) assms(5)] obtain s5 where s5: "get_u2 s4 = Inr (length stack, s5)"
    "rest_is s5 (concat (map (type_bytes idx) stack) @ bs)" by blast
  from parse_types_bytes [OF s5(2) assms(3)] obtain s6 where
    s6: "parse_types rd (length stack) None s5 = Inr ((expand_types stack, fold with_this stack None), s6)"
    "rest_is s6 bs" by blast
  show ?thesis
    using s1(1) s2(1) s3(1) s4 s5(1) s6 assms(7,8)
    by (simp add: reader_next_def next_full_def vm_defs check_verification_type_array_size_def check_verify_def rest_is_def)
qed

section \<open>Properties\<close>

definition ex_reader :: reader where
  "ex_reader = \<lparr> rd_cp = \<lparr> cp_entries = [CP_Invalid, CP_Class ''A''], cp_cache = None \<rparr>,
     rd_code_data = [1, 2, 0, 0, 1], rd_code_length = 5 \<rparr>"

lemma ex_reader_ok: "reader_ok ex_reader"
  by (simp add: reader_ok_def ex_reader_def cp_wf_def legal_class_name_def invalid_name_char_def)

text \<open>A method with a stack map table of one frame, the bytes of which are given.\<close>

definition map_meth :: "u1 list \<Rightarrow> meth" where
  "map_meth bs = \<lparr> mt_name = ''f'', mt_signature = ''()V'', mt_is_static = True, mt_is_native = False,
     mt_is_abstract = False, mt_max_stack = 2, mt_max_locals = 2,
     mt_mem = \<lparr> m_code = [0, 187, 0, 1, 177], m_after = (\<lambda>_. 0), m_orig = (\<lambda>_. - 1), m_beyond = (\<lambda>_. 0) \<rparr>,
     mt_exception_table = [], mt_localvariable_table = [], mt_stackmap_data = Some (0 # 1 # bs) \<rparr>"

lemmas table_eval = stack_map_table_def map_meth_def ex_reader_def get_u2_def get_u1_def u2_of_def vm_defs reader_next_def
  next_same_def next_chop_def next_offset_def frame_on_def copy_locals_def stack_map_frame_def check_end_def at_end_def Let_def
  check_verify_def map_stream_of_def

text \<open>
  C8. Reading a stack map attribute ends with a table, with an error (an exception or a \<^verbatim>\<open>ClassFormatError\<close> or \<^verbatim>\<open>VerifyError\<close> of
  the verifier) or at the unguarded read of \<^verbatim>\<open>StackMapReader::chop\<close>; there is no other access outside of an array.
  Every table it delivers is well formed: the frames have the sizes the method declares, hold types of
  the class file only, with the halves of each \<open>long\<close> and \<open>double\<close> together; their offsets increase strictly and are starts of instructions.
\<close>

theorem stack_map_table_well_formed:
  assumes "reader_ok rd" and "frame_ok ml ms f"
  shows "case stack_map_table m rd f ml ms of
      Inl e \<Rightarrow> \<not> is_fault e \<and> (\<forall>p. e = Unguarded p \<longrightarrow> p = ''StackMapReader::chop'')
    | Inr tb \<Rightarrow> list_all (table_frame_ok ml ms) (tb_frames tb) \<and>
        sorted_wrt (\<lambda>f g. f_offset f < f_offset g) (tb_frames tb) \<and>
        list_all (\<lambda>f. 0 \<le> f_offset f \<and> f_offset f < int (length (rd_code_data rd)) \<and>
          rd_code_data rd ! nat (f_offset f) \<noteq> 0) (tb_frames tb)"
  using stack_map_table_ok [OF assms, of m] stack_map_table_stops [of m rd f ml ms]
  by (auto simp: table_ok_def at_places_def split: sum.splits)

theorem stack_map_table_well_formed_witness:
  "\<exists>tb. stack_map_table (map_meth [4]) ex_reader (stack_map_frame 2 2) 2 2 = Inr tb \<and>
     list_all (table_frame_ok 2 2) (tb_frames tb)"
proof -
  obtain tb where "stack_map_table (map_meth [4]) ex_reader (stack_map_frame 2 2) 2 2 = Inr tb"
    by (simp add: table_eval)
  with stack_map_table_well_formed [OF ex_reader_ok stack_map_frame_ok [of 2 2], of "map_meth [4]"] show ?thesis by simp
qed

text \<open>
  C18. The reader decodes what the format of the class file prescribes for a full frame: from the bytes
  that encode a list of types for the local variables and one for the operand stack it builds the frame
  with these types, a \<open>long\<close> or \<open>double\<close> in two elements, and stops behind them.
\<close>

theorem full_frame_roundtrip:
  assumes "rest_is s (full_frame_bytes idx delta locals stack @ bs)"
    and "list_all (encodable rd idx) locals" and "list_all (encodable rd idx) stack"
    and "length locals < 65536" and "length stack < 65536" and "delta < 65536"
    and "length (expand_types locals) \<le> ml" and "length (expand_types stack) \<le> ms"
  shows "\<exists>s'. reader_next rd pre first ml ms s = Inr (\<lparr> f_offset = next_offset pre first delta,
      f_locals_size = length (expand_types locals), f_stack_size = length (expand_types stack),
      f_max_locals = ml, f_max_stack = ms, f_flags = the (fold with_this locals (Some 0)),
      f_locals = expand_types locals, f_stack = expand_types stack \<rparr>, s') \<and> rest_is s' bs"
  by (rule full_frame_decodes [OF assms])

theorem full_frame_roundtrip_witness:
  "\<exists>s'. reader_next ex_reader (stack_map_frame 3 1) True 3 1
      (map_stream_of (Some (full_frame_bytes (\<lambda>_. 1) 4 [uninitialized_this_type, Long] [Reference ''A''] @ []))) =
    Inr (\<lparr> f_offset = next_offset (stack_map_frame 3 1) True 4,
      f_locals_size = length (expand_types [uninitialized_this_type, Long]),
      f_stack_size = length (expand_types [Reference ''A'']),
      f_max_locals = 3, f_max_stack = 1, f_flags = the (fold with_this [uninitialized_this_type, Long] (Some 0)),
      f_locals = expand_types [uninitialized_this_type, Long], f_stack = expand_types [Reference ''A''] \<rparr>, s') \<and>
    rest_is s' []"
  by (rule full_frame_roundtrip [where idx = "\<lambda>_. 1"])
    (simp_all add: rest_is_def map_stream_of_def ex_reader_def cp_length_def is_category2_def BciForThis_def)

text \<open>
  C9. A jump that passes \<^verbatim>\<open>check_jump_target\<close> leaves the frame as it is; the table has a frame at the
  target, inside of the code, to which the current frame is assignable, and on a jump backwards the
  frame has no uninitialized object.
\<close>

theorem check_jump_target_sound:
  assumes "check_jump_target r tb t f = Inr (x, f')" and "table_ok ml ms cd tb" and "frame_ok ml ms f"
  shows "f' = f \<and> 0 \<le> t \<and> t < int (length cd) \<and>
     (\<exists>g\<in>set (tb_frames tb). f_offset g = t \<and> is_assignable_to r f g = Inr True) \<and>
     (t < f_offset f \<longrightarrow> has_new_object f = Inr False)"
  using check_jump_target_Inr [OF assms] assms(2) by (simp add: target_ok_def table_ok_def)

theorem check_jump_target_sound_witness:
  "let f = stack_map_frame 1 1; tb = \<lparr> tb_code_length = 1, tb_frames = [f] \<rparr> in
   \<exists>g\<in>set (tb_frames tb). f_offset g = 0 \<and> is_assignable_to (\<lambda>_. Inl (Pending [])) f g = Inr True"
proof -
  let ?f = "stack_map_frame 1 1" and ?r = "\<lambda>_. Inl (Pending [])"
  let ?tb = "\<lparr> tb_code_length = 1, tb_frames = [?f] \<rparr>"
  have "table_ok 1 1 [1] ?tb"
    using frame_ok_table [OF stack_map_frame_ok [of 1 1]] by (simp add: table_ok_def stack_map_frame_def)
  moreover have "check_jump_target ?r ?tb 0 ?f = Inr ((), ?f)"
    by (simp add: check_jump_target_def match_stackmap_def match_stackmap_at_def get_index_from_offset_def
        check_new_object_def is_assignable_to_def is_assignable_from.simps stack_map_frame_def vm_defs arr_get_i_def)
  ultimately show ?thesis
    using check_jump_target_sound [OF _ _ stack_map_frame_ok, of ?r ?tb 0 1 1 "()" ?f "[1]"] by (simp add: Let_def)
qed

text \<open>
  C19. A chop frame, whatever number of variables it removes, makes the reader look at the element in
  front of the array of local variables exactly when the frame before it has none: \<^verbatim>\<open>chop\<close> reads its first element before
  it compares the position with zero. This happens even if the attribute ends behind the type of the frame.
\<close>

theorem chop_reads_before_array:
  assumes "ms_data s = Some data" and "ms_index s < length data" and "unat (data ! ms_index s) \<in> {248..250}"
  shows "reader_next rd pre first ml ms s = Inl (Unguarded ''StackMapReader::chop'') \<longleftrightarrow> f_locals_size pre = 0"
proof -
  let ?t = "unat (data ! ms_index s)" and ?s = "s\<lparr> ms_index := Suc (ms_index s) \<rparr>"
  have u1: "get_u1 s = Inr (?t, ?s)" using assms by (simp add: get_u1_def)
  obtain d s' where u2: "get_u2 ?s = Inr (d, s')"
    using assms by (cases "length data \<le> Suc (Suc (ms_index s))")
      (simp_all add: get_u2_def beyond_end_def stackmap_format_error_def vm_defs)
  have step: "reader_next rd pre first ml ms s = next_chop pre first ml ms ?t d s'"
    using assms(3) by (simp add: reader_next_def vbind_def u1 u2)
  show ?thesis
  proof (cases "f_locals_size pre = 0")
    case True
    have "chop_loop ts (- 1) (251 - ?t) = Inl (Unguarded ''StackMapReader::chop'')" for ts
      using assms(3) by (cases "251 - ?t") (auto simp: chop_read_def)
    with True show ?thesis using assms(3) by (simp add: step next_chop_def chop_def vm_defs Let_def)
  next
    case False
    with next_chop_stops [of pre ?t "{}" first ml ms d] show ?thesis by (auto simp: step stops_def at_places_def)
  qed
qed

theorem chop_reads_before_array_witness:
  "reader_next ex_reader (stack_map_frame 2 2) True 2 2 (map_stream_of (Some [249])) =
   Inl (Unguarded ''StackMapReader::chop'')"
  using chop_reads_before_array [of "map_stream_of (Some [249])" "[249]" ex_reader "stack_map_frame 2 2" True 2 2]
  by (simp add: map_stream_of_def stack_map_frame_def)

end
