(* ===== verification/Verifier.thy ===== *)
theory Verifier
  imports StackMapTable
begin

text \<open>
  The helpers of \<^verbatim>\<open>ClassVerifier\<close> (\<^verbatim>\<open>classfile/verifier.cpp\<close>, \<^verbatim>\<open>verifier.hpp\<close>) that the switch of
  \<^verbatim>\<open>verify_method\<close> calls: loads and stores, \<^verbatim>\<open>ldc\<close>, switches, field accesses, invocations, array
  creation and returns. Each runs in the monad over the current frame. The record \<open>verifier\<close> has the
  members of \<^verbatim>\<open>ClassVerifier\<close> that do not change while a method is verified, the constant pool and
  the parts of the VM that the verifier asks: the resolution of a class name in the loader of
  the current class (\<^verbatim>\<open>load_class\<close>) and the addresses of symbols.
\<close>

section \<open>The verifier of a method\<close>

record verifier =
  v_klass :: klass
  v_method :: meth
  v_cp :: constant_pool
  v_resolve :: "string \<Rightarrow> klass res"
  v_addr :: "string \<Rightarrow> nat"

definition current_type :: "verifier \<Rightarrow> vtype" where
  "current_type v = Reference (k_name (v_klass v))"

text \<open>The operator \<open>==\<close> on types is \<^verbatim>\<open>equals\<close>, which compares the names of references.\<close>

definition is_current_type :: "verifier \<Rightarrow> vtype \<Rightarrow> bool" where
  "is_current_type v t \<longleftrightarrow> t = current_type v"

abbreviation v_mem :: "verifier \<Rightarrow> code_mem" where
  "v_mem v \<equiv> mt_mem (v_method v)"

definition load_class :: "verifier \<Rightarrow> string \<Rightarrow> klass res" where
  "load_class v name = v_resolve v name"

text \<open>A symbol has at most 65535 bytes; a longer one makes the allocation throw.\<close>

definition allocate_symbol :: "string \<Rightarrow> string res" where
  "allocate_symbol name =
     (if length name > 65535 then Inl (Pending ''InternalError: name is too long to represent'') else Inr name)"

section \<open>Loads and stores\<close>

definition verify_iload :: "verifier \<Rightarrow> nat \<Rightarrow> (frame, unit) vm" where
  "verify_iload v index = vthen (get_local (v_resolve v) index Integer) (push_stack Integer)"

definition verify_lload :: "verifier \<Rightarrow> nat \<Rightarrow> (frame, unit) vm" where
  "verify_lload v index = vthen (get_local_2 (v_resolve v) index Long Long_2nd) (push_stack_2 Long Long_2nd)"

definition verify_fload :: "verifier \<Rightarrow> nat \<Rightarrow> (frame, unit) vm" where
  "verify_fload v index = vthen (get_local (v_resolve v) index Float) (push_stack Float)"

definition verify_dload :: "verifier \<Rightarrow> nat \<Rightarrow> (frame, unit) vm" where
  "verify_dload v index =
     vthen (get_local_2 (v_resolve v) index Double Double_2nd) (push_stack_2 Double Double_2nd)"

definition verify_aload :: "verifier \<Rightarrow> nat \<Rightarrow> (frame, unit) vm" where
  "verify_aload v index = vbind (get_local (v_resolve v) index ReferenceQuery) (\<lambda>type. push_stack type)"

definition verify_istore :: "verifier \<Rightarrow> nat \<Rightarrow> (frame, unit) vm" where
  "verify_istore v index = vthen (pop_stack (v_resolve v) Integer) (set_local index Integer)"

definition verify_lstore :: "verifier \<Rightarrow> nat \<Rightarrow> (frame, unit) vm" where
  "verify_lstore v index = vthen (pop_stack_2 (v_resolve v) Long_2nd Long) (set_local_2 index Long Long_2nd)"

definition verify_fstore :: "verifier \<Rightarrow> nat \<Rightarrow> (frame, unit) vm" where
  "verify_fstore v index = vthen (pop_stack (v_resolve v) Float) (set_local index Float)"

definition verify_dstore :: "verifier \<Rightarrow> nat \<Rightarrow> (frame, unit) vm" where
  "verify_dstore v index =
     vthen (pop_stack_2 (v_resolve v) Double_2nd Double) (set_local_2 index Double Double_2nd)"

definition verify_astore :: "verifier \<Rightarrow> nat \<Rightarrow> (frame, unit) vm" where
  "verify_astore v index = vbind (pop_stack (v_resolve v) ReferenceQuery) (\<lambda>type. set_local index type)"

definition verify_iinc :: "verifier \<Rightarrow> nat \<Rightarrow> (frame, unit) vm" where
  "verify_iinc v index = vbind (get_local (v_resolve v) index Integer) (\<lambda>type. set_local index type)"

definition verify_return_value :: "verifier \<Rightarrow> vtype \<Rightarrow> vtype \<Rightarrow> (frame, unit) vm" where
  "verify_return_value v return_type type =
     (if return_type = Bogus then vfail (VerifyError ''Method expects a return value'')
      else
        vbind (vlift (is_assignable_from (v_resolve v) return_type type)) (\<lambda>match.
          vcheck match (VerifyError ''Bad return type'')))"

section \<open>Constants\<close>

definition verify_ldc :: "verifier \<Rightarrow> int \<Rightarrow> nat \<Rightarrow> (frame, unit) vm" where
  "verify_ldc v opcode index =
     vthen (vlift (verify_cp_index (v_cp v) index))
     (vbind (vlift (tag_at (v_cp v) index)) (\<lambda>tag.
      vthen
        (if opcode = bc_ldc \<or> opcode = bc_ldc_w then
           (if \<not> is_unresolved_string_tag tag \<and> \<not> is_unresolved_klass_tag tag then
              vlift (verify_cp_type (v_cp v) index
                (shl1 JVM_CONSTANT_Integer OR shl1 JVM_CONSTANT_Float OR
                 shl1 JVM_CONSTANT_String OR shl1 JVM_CONSTANT_Class))
            else vreturn ())
         else vlift (verify_cp_type (v_cp v) index (shl1 JVM_CONSTANT_Double OR shl1 JVM_CONSTANT_Long)))
        (if is_string_tag tag \<or> is_unresolved_string_tag tag then push_stack (Reference ''java/lang/String'')
         else if is_klass_tag tag \<or> is_unresolved_klass_tag tag then push_stack (Reference ''java/lang/Class'')
         else if tag = JVM_CONSTANT_Integer then push_stack Integer
         else if tag = JVM_CONSTANT_Float then push_stack Float
         else if tag = JVM_CONSTANT_Double then push_stack_2 Double Double_2nd
         else if tag = JVM_CONSTANT_Long then push_stack_2 Long Long_2nd
         else vfail (VerifyError ''Invalid index in ldc''))))"

section \<open>Switches\<close>

definition padding_is_zero :: "code_mem \<Rightarrow> int \<Rightarrow> int \<Rightarrow> unit res" where
  "padding_is_zero m bci aligned =
     foldr (\<lambda>i r. rbind (bcp_u1 m (bci + int i)) (\<lambda>b.
         if b \<noteq> 0 then Inl (VerifyError ''Nonzero padding byte in lookswitch or tableswitch'') else r))
       [1..<nat (aligned - bci)] (Inr ())"

text \<open>\<open>keys = high - low + 1\<close> on \<open>int\<close> wraps around.\<close>

definition tableswitch_keys :: "code_mem \<Rightarrow> int \<Rightarrow> int res" where
  "tableswitch_keys m aligned =
     rbind (get_Java_u4 m (aligned + 4)) (\<lambda>low.
     rbind (get_Java_u4 m (aligned + 2 * 4)) (\<lambda>high.
       if s4_of low > s4_of high
       then Inl (VerifyError ''low must be less than or equal to high in tableswitch'')
       else
         (let keys = jint_add (jint_add (s4_of high) (- s4_of low)) 1 in
          if keys < 0 then Inl (VerifyError ''too many keys in tableswitch'') else Inr keys)))"

fun keys_sorted :: "code_mem \<Rightarrow> int \<Rightarrow> nat list \<Rightarrow> unit res" where
  "keys_sorted m aligned [] = Inr ()"
| "keys_sorted m aligned (i # is) =
     rbind (get_Java_u4 m (aligned + (2 + 2 * int i) * 4)) (\<lambda>this_key.
     rbind (get_Java_u4 m (aligned + (2 + 2 * int i + 2) * 4)) (\<lambda>next_key.
       if s4_of this_key \<ge> s4_of next_key then Inl (VerifyError ''Bad lookupswitch instruction'')
       else keys_sorted m aligned is))"

definition lookupswitch_keys :: "code_mem \<Rightarrow> int \<Rightarrow> int res" where
  "lookupswitch_keys m aligned =
     rbind (get_Java_u4 m (aligned + 4)) (\<lambda>n.
       let keys = s4_of n in
       if keys < 0 then Inl (VerifyError ''number of keys in lookupswitch less than 0'')
       else rbind (keys_sorted m aligned [0..<nat (keys - 1)]) (\<lambda>_. Inr keys))"

definition verify_switch :: "verifier \<Rightarrow> map_table \<Rightarrow> bc_stream \<Rightarrow> (frame, unit) vm" where
  "verify_switch v tb s =
     (let m = v_mem v; r = v_resolve v; bci = s_bci s; aligned = round_to (bci + 1) 4;
          table = (s_code s = bc_tableswitch); delta = (if table then 1 else 2) in
      vthen (vlift (padding_is_zero m bci aligned))
      (vbind (vlift (get_Java_u4 m aligned)) (\<lambda>default_offset.
       vthen (pop_stack r Integer)
       (vbind (vlift (if table then tableswitch_keys m aligned else lookupswitch_keys m aligned)) (\<lambda>keys.
        vthen (check_jump_target r tb (jint_add bci (s4_of default_offset)))
        (vfor (\<lambda>i. vbind (vlift (get_Java_u4 m (aligned + (3 + int i * delta) * 4))) (\<lambda>off.
             check_jump_target r tb (jint_add bci (s4_of off)))) [0..<nat keys]))))))"

section \<open>Fields\<close>

definition is_protected_access :: "verifier \<Rightarrow> klass \<Rightarrow> string \<Rightarrow> string \<Rightarrow> bool \<Rightarrow> bool res" where
  "is_protected_access v target_class name sig is_method =
     (let this_class = v_klass v;
          same = (\<lambda>k. is_same_class_package (k_loader this_class) (k_name this_class) (k_loader k) (k_name k)) in
      if \<not> is_subclass_of this_class target_class then Inr False
      else if is_method then
        rbind (uncached_lookup_method (v_addr v) target_class name sig) (\<lambda>m.
          case m of
            None \<Rightarrow> Inr False
          | Some (holder, m) \<Rightarrow> Inr (mem_protected m \<and> \<not> same holder))
      else
        (case find_field target_class name sig of
           None \<Rightarrow> Inr False
         | Some (member_klass, fd) \<Rightarrow> Inr (mem_protected fd \<and> \<not> same member_klass)))"

text \<open>\<open>for (i = n - 1; i >= 0; i--) pop_stack(types[i])\<close>\<close>

definition pop_types :: "verifier \<Rightarrow> vtype list \<Rightarrow> (frame, unit) vm" where
  "pop_types v ts = vfor (\<lambda>t. vthen (pop_stack (v_resolve v) t) (vreturn ())) (rev ts)"

text \<open>The label \<^verbatim>\<open>check_protected\<close>; \<open>is_this\<close> is the comparison of the popped type with the current one.\<close>

definition check_protected :: "verifier \<Rightarrow> bool \<Rightarrow> nat \<Rightarrow> string \<Rightarrow> string \<Rightarrow> vtype \<Rightarrow> (frame, unit) vm" where
  "check_protected v is_this index field_name field_sig stack_object_type =
     (if is_this then vreturn ()
      else
        vbind (vlift (rbind (klass_ref_index_at (v_cp v) index) (klass_name_at (v_cp v)))) (\<lambda>ref_class_name.
          if \<not> name_in_supers ref_class_name (v_klass v) then vreturn ()
          else
            vbind (vlift (load_class v ref_class_name)) (\<lambda>ref_class.
            vbind (vlift (is_protected_access v ref_class field_name field_sig False)) (\<lambda>prot.
              if prot then
                vbind (vlift (is_assignable_from (v_resolve v) (current_type v) stack_object_type)) (\<lambda>ok.
                  vcheck ok (VerifyError ''Bad access to protected data in getfield''))
              else vreturn ()))))"

text \<open>
  A field of the current class may be set on a receiver that is not initialized yet; the type
  of the receiver is then the current one.
\<close>

definition inits_own_field :: "verifier \<Rightarrow> string \<Rightarrow> string \<Rightarrow> vtype \<Rightarrow> vtype \<Rightarrow> bool" where
  "inits_own_field v field_name field_sig target_class_type stack_object_type \<longleftrightarrow>
     stack_object_type = uninitialized_this_type \<and> target_class_type = current_type v \<and>
     find_local_field (v_klass v) field_name field_sig \<noteq> None"

text \<open>The switch over the four instructions.\<close>

definition field_access ::
  "verifier \<Rightarrow> bc_stream \<Rightarrow> nat \<Rightarrow> string \<Rightarrow> string \<Rightarrow> vtype \<Rightarrow> vtype list \<Rightarrow> (frame, unit) vm" where
  "field_access v s index field_name field_sig target_class_type field_type =
     (let r = v_resolve v in
      if s_code s = bc_getstatic then vfor push_stack field_type
      else if s_code s = bc_putstatic then pop_types v field_type
      else if s_code s = bc_getfield then
        vbind (pop_stack r target_class_type) (\<lambda>stack_object_type.
        vthen (vfor push_stack field_type)
        (check_protected v (is_current_type v stack_object_type) index field_name field_sig stack_object_type))
      else if s_code s = bc_putfield then
        vthen (pop_types v field_type)
        (vbind pop_stack_any (\<lambda>stack_object_type.
         let init = inits_own_field v field_name field_sig target_class_type stack_object_type;
             stack_object_type = (if init then current_type v else stack_object_type) in
         vbind (vlift (is_assignable_from r target_class_type stack_object_type)) (\<lambda>is_assignable.
         vthen (vcheck is_assignable (VerifyError ''Bad type on operand stack in putfield''))
         (check_protected v (is_current_type v stack_object_type) index field_name field_sig stack_object_type))))
      else vfail (Fault ''ShouldNotReachHere''))"

definition verify_field_instructions :: "verifier \<Rightarrow> bc_stream \<Rightarrow> (frame, unit) vm" where
  "verify_field_instructions v s =
     (let cp = v_cp v in
      vbind (vlift (get_index_big (v_mem v) s)) (\<lambda>index.
      vthen (vlift (verify_cp_type cp index (shl1 JVM_CONSTANT_Fieldref)))
      (vbind (vlift (name_ref_at cp index)) (\<lambda>field_name.
       vbind (vlift (signature_ref_at cp index)) (\<lambda>field_sig.
       vthen (vcheck (is_valid_type_signature field_sig) (ClassFormatError ''Invalid signature for field''))
       (vbind (vlift (cp_ref_index_to_type cp index)) (\<lambda>ref_class_type.
        vthen (vcheck (is_object ref_class_type) (VerifyError ''Expecting reference to class''))
        (vbind (vlift (signature_stream field_sig False)) (\<lambda>sig_stream.
         vbind (vlift (change_sig_to_verificationType sig_stream)) (\<lambda>field_type.
           field_access v s index field_name field_sig ref_class_type field_type))))))))))"

section \<open>Invocations\<close>

text \<open>
  The walk from the current class up to the class of the called initializer. The test for a
  null class does not stop it at the end of the chain, since \<^verbatim>\<open>klass_part()\<close> of a null superclass is
  not null.
\<close>

fun find_named_super :: "string \<Rightarrow> klass \<Rightarrow> unit res" where
  "find_named_super ref_name (Klass n ld spr ints isi fs ms) =
     (if ref_name \<noteq> n then
        (case spr of
           None \<Rightarrow> Inl (Unguarded ''verify_invoke_init: super of the last class'')
         | Some t \<Rightarrow> find_named_super ref_name t)
      else Inr ())"

text \<open>
  The class that \<open>type\<close>, the result of the instruction \<^verbatim>\<open>new\<close> at its offset, was created with; the
  offset is checked against the code.
\<close>

definition new_class_at :: "verifier \<Rightarrow> nat \<Rightarrow> vtype res" where
  "new_class_at v new_offset =
     (let m = v_mem v; code_length = length (m_code m) in
      if int new_offset > (int code_length - 3) mod 4294967296
      then Inl (VerifyError ''Expecting new instruction'')
      else
        rbind (bcp_u1 m (int new_offset)) (\<lambda>b.
          if uint b \<noteq> bc_new then Inl (VerifyError ''Expecting new instruction'')
          else
            rbind (get_Java_u2 m (int new_offset + 1)) (\<lambda>new_class_index.
            rbind (verify_cp_class_type (v_cp v) new_class_index) (\<lambda>_.
              cp_index_to_type (v_cp v) new_class_index))))"

text \<open>A missing initializer makes the source dereference a null method.\<close>

definition check_protected_init :: "verifier \<Rightarrow> string \<Rightarrow> nat \<Rightarrow> vtype \<Rightarrow> unit res" where
  "check_protected_init v ref_name index objectref_type =
     (if name_in_supers ref_name (v_klass v) then
        rbind (load_class v ref_name) (\<lambda>ref_klass.
        rbind (signature_ref_at (v_cp v) index) (\<lambda>sig.
        rbind (uncached_lookup_method (v_addr v) ref_klass ''<init>'' sig) (\<lambda>m.
          case m of
            None \<Rightarrow> Inl (Unguarded ''verify_invoke_init: holder of a null method'')
          | Some (mh, m) \<Rightarrow>
              if mem_protected m \<and> \<not> is_same_class_package (k_loader mh) (k_name mh)
                   (k_loader (v_klass v)) (k_name (v_klass v)) then
                rbind (is_assignable_from (v_resolve v) (current_type v) objectref_type) (\<lambda>assignable.
                  if \<not> assignable then Inl (VerifyError ''Bad access to protected <init> method'') else Inr ())
              else Inr ())))
      else Inr ())"

text \<open>The result says that the call has initialized the receiver (\<^verbatim>\<open>this_uninit\<close>).\<close>

definition verify_invoke_init :: "verifier \<Rightarrow> nat \<Rightarrow> vtype \<Rightarrow> (frame, bool) vm" where
  "verify_invoke_init v index ref_class_type =
     vbind (pop_stack (v_resolve v) ReferenceQuery) (\<lambda>type.
       if type = uninitialized_this_type then
         vthen (vlift (find_named_super (name_of ref_class_type) (v_klass v)))
         (vthen (initialize_object type (current_type v))
         (vreturn True))
       else if is_uninitialized type then
         vbind (vlift (new_class_at v (bci_of type))) (\<lambda>new_class_type.
         vthen (vcheck (new_class_type = ref_class_type) (VerifyError ''Call to wrong <init> method''))
         (vthen (vlift (check_protected_init v (name_of ref_class_type) index new_class_type))
         (vthen (initialize_object type new_class_type)
         (vreturn False))))
       else vfail (VerifyError ''Bad operand type when invoking <init>''))"

text \<open>The types of the parameters, in a buffer of 128 elements or of the computed size.\<close>

definition sig_types :: "string \<Rightarrow> (vtype list \<times> sig_stream) res" where
  "sig_types method_sig =
     rbind (if (int (length method_sig) - 3) * 2 > 128 then argument_size method_sig else Inr 128) (\<lambda>cap.
     rbind (signature_stream method_sig True) (\<lambda>ss. sig_types_loop cap 0 ss))"

definition check_interface_operands :: "verifier \<Rightarrow> int \<Rightarrow> nat \<Rightarrow> unit res" where
  "check_interface_operands v bci nargs =
     rbind (bcp_u1 (v_mem v) (bci + 3)) (\<lambda>count.
       if unat count \<noteq> nargs + 1 then Inl (VerifyError ''Inconsistent args count operand in invokeinterface'')
       else
         rbind (bcp_u1 (v_mem v) (bci + 4)) (\<lambda>z.
           if z \<noteq> 0 then Inl (VerifyError ''Fourth operand byte of invokeinterface must be zero'') else Inr ()))"

definition super_type :: "verifier \<Rightarrow> vtype res" where
  "super_type v =
     (case k_super (v_klass v) of None \<Rightarrow> Inl (Fault ''null superclass'') | Some k \<Rightarrow> Inr (Reference (k_name k)))"

definition check_method_name :: "verifier \<Rightarrow> int \<Rightarrow> string \<Rightarrow> vtype \<Rightarrow> unit res" where
  "check_method_name v opcode method_name ref_class_type =
     rbind (arr_get method_name 0) (\<lambda>b.
       if b = CHR ''<'' then
         (if opcode \<noteq> bc_invokespecial \<or> method_name \<noteq> ''<init>''
          then Inl (VerifyError ''Illegal call to internal method'') else Inr ())
       else if opcode = bc_invokespecial \<and> ref_class_type \<noteq> current_type v then
         rbind (super_type v) (\<lambda>spr.
           if ref_class_type \<noteq> spr then
             rbind (is_assignable_from (v_resolve v) ref_class_type (current_type v)) (\<lambda>subtype.
               if \<not> subtype then Inl (VerifyError ''Bad invokespecial instruction'') else Inr ())
           else Inr ())
       else Inr ())"

definition check_protected_method ::
  "verifier \<Rightarrow> int \<Rightarrow> nat \<Rightarrow> string \<Rightarrow> string \<Rightarrow> vtype \<Rightarrow> vtype \<Rightarrow> unit res" where
  "check_protected_method v bci index method_name method_sig ref_class_type stack_object_type =
     (if is_current_type v stack_object_type then Inr ()
      else
        rbind (rbind (klass_ref_index_at (v_cp v) index) (klass_name_at (v_cp v))) (\<lambda>ref_class_name.
          if name_in_supers ref_class_name (v_klass v) then
            rbind (load_class v ref_class_name) (\<lambda>ref_class.
            rbind (is_protected_access v ref_class method_name method_sig True) (\<lambda>prot.
              if prot then
                rbind (is_assignable_from (v_resolve v) (current_type v) stack_object_type) (\<lambda>is_assignable.
                  if \<not> is_assignable \<and>
                     \<not> (name_of ref_class_type = ''java/lang/Object'' \<and> is_array stack_object_type \<and>
                        method_name = ''clone'')
                  then Inl (VerifyError ''Bad access to protected data in invokevirtual'') else Inr ())
              else Inr ()))
          else Inr ()))"

text \<open>The check of the receiver.\<close>

definition verify_objectref ::
  "verifier \<Rightarrow> int \<Rightarrow> int \<Rightarrow> nat \<Rightarrow> string \<Rightarrow> string \<Rightarrow> vtype \<Rightarrow> (frame, bool) vm" where
  "verify_objectref v opcode bci index method_name method_sig ref_class_type =
     (if opcode = bc_invokestatic then vreturn False
      else if method_name = ''<init>'' then verify_invoke_init v index ref_class_type
      else if opcode = bc_invokespecial then
        vthen (pop_stack (v_resolve v) (current_type v)) (vreturn False)
      else if opcode = bc_invokevirtual then
        vbind (pop_stack (v_resolve v) ref_class_type) (\<lambda>stack_object_type.
        vthen (vlift (check_protected_method v bci index method_name method_sig ref_class_type stack_object_type))
        (vreturn False))
      else vthen (pop_stack (v_resolve v) ref_class_type) (vreturn False))"

definition push_result :: "string \<Rightarrow> sig_stream \<Rightarrow> (frame, unit) vm" where
  "push_result method_name ss =
     (if ss_type ss \<noteq> T_VOID then
        (if method_name = ''<init>'' then vfail (VerifyError ''Return type must be void in <init> method'')
         else vbind (vlift (change_sig_to_verificationType ss)) (\<lambda>return_type. vfor push_stack return_type))
      else vreturn ())"

definition verify_invoke_instructions :: "verifier \<Rightarrow> bc_stream \<Rightarrow> (frame, bool) vm" where
  "verify_invoke_instructions v s =
     (let cp = v_cp v; opcode = s_code s; bci = s_bci s in
      vbind (vlift (get_index_big (v_mem v) s)) (\<lambda>index.
      vthen (vlift (verify_cp_type cp index
        (if opcode = bc_invokeinterface then shl1 JVM_CONSTANT_InterfaceMethodref
         else shl1 JVM_CONSTANT_Methodref)))
      (vbind (vlift (name_ref_at cp index)) (\<lambda>method_name.
       vbind (vlift (signature_ref_at cp index)) (\<lambda>method_sig.
       vthen (vcheck (is_valid_method_signature method_sig) (ClassFormatError ''Invalid method signature''))
       (vbind (vlift (cp_ref_index_to_type cp index)) (\<lambda>ref_class_type.
        vbind (vlift (sig_types method_sig)) (\<lambda>(types, ss).
        vthen (if opcode = bc_invokeinterface
               then vlift (check_interface_operands v bci (length types)) else vreturn ())
        (vthen (vlift (check_method_name v opcode method_name ref_class_type))
        (vthen (pop_types v types)
        (vbind (verify_objectref v opcode bci index method_name method_sig ref_class_type) (\<lambda>this_uninit.
         vthen (push_result method_name ss)
         (vreturn this_uninit)))))))))))))"

section \<open>Arrays\<close>

definition get_newarray_type :: "nat \<Rightarrow> vtype res" where
  "get_newarray_type index =
     (let from_bt = [[], [], [], [], ''[Z'', ''[C'', ''[F'', ''[D'', ''[B'', ''[S'', ''[I'', ''[J''] in
      if index < 4 \<or> index > 11 then Inl (VerifyError ''Illegal newarray instruction'')
      else rbind (arr_get from_bt index) (\<lambda>sig. rbind (allocate_symbol sig) (\<lambda>n. Inr (Reference n))))"

definition verify_anewarray :: "verifier \<Rightarrow> nat \<Rightarrow> (frame, unit) vm" where
  "verify_anewarray v index =
     vthen (vlift (verify_cp_class_type (v_cp v) index))
     (vthen (pop_stack (v_resolve v) Integer)
     (vbind (vlift (cp_index_to_type (v_cp v) index)) (\<lambda>component_type.
        let arr_sig_str = (if is_array component_type then CHR ''['' # name_of component_type
              else CHR ''['' # CHR ''L'' # name_of component_type @ '';'') in
        vbind (vlift (allocate_symbol arr_sig_str)) (\<lambda>arr_sig. push_stack (Reference arr_sig)))))"

section \<open>The helpers keep the frame well-formed and do not fault\<close>

text \<open>
  What the parser and the resolution of classes guarantee: the constant pool is well-formed,
  resolution delivers classes whose methods are sorted or throws, and the class under
  verification has a superclass, since \<^verbatim>\<open>java/lang/Object\<close> is not verified.
\<close>

definition verifier_ok :: "verifier \<Rightarrow> bool" where
  "verifier_ok v \<longleftrightarrow>
     cp_wf (v_cp v) \<and> resolve_safe (v_resolve v) \<and> inj (v_addr v) \<and>
     (\<forall>n k. v_resolve v n = Inr k \<longrightarrow> klass_sorted (v_addr v) k) \<and>
     legal_class_name (k_name (v_klass v)) \<and> k_super (v_klass v) \<noteq> None"

lemma verifier_okD:
  assumes "verifier_ok v"
  shows "cp_wf (v_cp v)" "cp_cache (v_cp v) = None" "resolve_safe (v_resolve v)"
    "vtype_wf (current_type v)" "type_ok (current_type v)" "single (current_type v)"
  using assms by (auto simp: verifier_ok_def cp_wf_def current_type_def)

lemma assignable_reference_query:
  "assignable r u ReferenceQuery \<Longrightarrow> type_ok u \<Longrightarrow> is_reference u \<or> is_uninitialized u"
  by (auto simp: assignable_def is_assignable_from.simps [of r ReferenceQuery] type_ok_def is_check_def
      split: if_splits)

lemma reference_single: "is_reference u \<or> is_uninitialized u \<Longrightarrow> single u"
  by (cases u) (auto simp: is_reference_def is_uninitialized_def single_def)

lemmas popped_single = reference_single [OF assignable_reference_query]

text \<open>The rules for sequences with a result that is not used.\<close>

lemma keeps_any: "fr.keeps ml ms A m \<Longrightarrow> fr.keeps ml ms (\<lambda>_. True) m"
  by (erule fr.keeps_weaken) simp

lemma keeps_lift_any: "no_fault r \<Longrightarrow> fr.keeps ml ms (\<lambda>_. True) (vlift r)"
  by (rule fr.keeps_lift) auto

lemma keeps_then_lift:
  "no_fault r \<Longrightarrow> (\<And>x. r = Inr x \<Longrightarrow> fr.keeps ml ms B n) \<Longrightarrow> fr.keeps ml ms B (vthen (vlift r) n)"
  unfolding vthen_def by (rule fr.keeps_bind_lift)

lemma keeps_then_check:
  "\<not> is_fault e \<Longrightarrow> (c \<Longrightarrow> fr.keeps ml ms B n) \<Longrightarrow> fr.keeps ml ms B (vthen (vcheck c e) n)"
  unfolding vthen_def by (rule fr.keeps_bind [OF fr.keeps_check])

lemma keeps_check_any: "\<not> is_fault e \<Longrightarrow> fr.keeps ml ms (\<lambda>_. True) (vcheck c e)"
  by (rule keeps_any [OF fr.keeps_check])

lemmas keeps_intros = keeps_then_lift keeps_then_check fr.keeps_bind_lift keeps_lift_any keeps_check_any
  fr.keeps_if fr.keeps_return fr.keeps_fail

lemma loads_keep:
  assumes "resolve_safe (v_resolve v)"
  shows "fr.keeps ml ms (\<lambda>_. True) (verify_iload v i)" "fr.keeps ml ms (\<lambda>_. True) (verify_lload v i)"
    "fr.keeps ml ms (\<lambda>_. True) (verify_fload v i)" "fr.keeps ml ms (\<lambda>_. True) (verify_dload v i)"
    "fr.keeps ml ms (\<lambda>_. True) (verify_aload v i)"
  unfolding verify_iload_def verify_lload_def verify_fload_def verify_dload_def verify_aload_def vthen_def
  by (auto intro!: fr.keeps_bind [OF get_local_keeps] fr.keeps_bind [OF get_local_2_keeps]
      push_stack_keeps push_stack_2_keeps assms)

lemma stores_keep:
  assumes "resolve_safe (v_resolve v)"
  shows "fr.keeps ml ms (\<lambda>_. True) (verify_istore v i)" "fr.keeps ml ms (\<lambda>_. True) (verify_lstore v i)"
    "fr.keeps ml ms (\<lambda>_. True) (verify_fstore v i)" "fr.keeps ml ms (\<lambda>_. True) (verify_dstore v i)"
    "fr.keeps ml ms (\<lambda>_. True) (verify_astore v i)" "fr.keeps ml ms (\<lambda>_. True) (verify_iinc v i)"
  unfolding verify_istore_def verify_lstore_def verify_fstore_def verify_dstore_def verify_astore_def
    verify_iinc_def vthen_def
  by (auto intro!: fr.keeps_bind [OF pop_stack_keeps] fr.keeps_bind [OF pop_stack_2_keeps]
      fr.keeps_bind [OF get_local_keeps] set_local_keeps set_local_2_keeps assms
      dest: popped_single assignable_Integer_Null)

lemma get_index_no_fault [simp]: "no_fault (get_index m s)"
  by (auto simp: get_index_def intro!: no_fault_rbind)

lemma get_index_big_no_fault [simp]: "no_fault (get_index_big m s)"
  by (simp add: get_index_big_def)

lemma dest_no_fault [simp]: "no_fault (dest m s)" "no_fault (dest_w m s)"
  by (auto simp: dest_def dest_w_def intro!: no_fault_rbind)

lemma legal_names [simp]:
  "legal_class_name ''java/lang/String''" "legal_class_name ''java/lang/Class''"
  "legal_class_name ''java/lang/Throwable''"
  by (auto simp: legal_class_name_def invalid_name_char_def)

lemma verify_return_value_keeps:
  assumes "resolve_safe (v_resolve v)" and "vtype_wf rt" and "type_ok t"
  shows "fr.keeps ml ms (\<lambda>_. True) (verify_return_value v rt t)"
  unfolding verify_return_value_def
  by (intro keeps_intros) (use assms is_assignable_from_no_fault [of "v_resolve v" rt t] in \<open>auto simp: type_ok_def\<close>)

lemma verify_ldc_keeps:
  assumes "cp_cache (v_cp v) = None"
  shows "fr.keeps ml ms (\<lambda>_. True) (verify_ldc v opcode i)"
proof -
  have t: "no_fault (tag_at (v_cp v) i)" if "verify_cp_index (v_cp v) i = Inr u" for u
    using verify_cp_index_Inr [OF that] by (simp add: tag_at_Inr)
  show ?thesis
    unfolding verify_ldc_def
    by (intro keeps_then_lift fr.keeps_bind_lift fr.keeps_then [of ml ms "\<lambda>_. True"] keeps_intros push_stack_keeps
        push_stack_2_keeps verify_cp_index_no_fault verify_cp_type_no_fault assms)
      (auto dest: t)
qed

lemma padding_no_fault: "no_fault (padding_is_zero m bci al)"
proof -
  have "no_fault (foldr (\<lambda>i r. rbind (bcp_u1 m (bci + int i)) (\<lambda>b.
         if b \<noteq> 0 then Inl (VerifyError ''Nonzero padding byte in lookswitch or tableswitch'') else r))
       is (Inr ()))" for "is" by (induction "is") (auto intro!: no_fault_rbind)
  then show ?thesis by (simp add: padding_is_zero_def)
qed

lemma keys_sorted_no_fault: "no_fault (keys_sorted m al is)"
  by (induction m al "is" rule: keys_sorted.induct) (auto intro!: no_fault_rbind)

lemma tableswitch_keys_no_fault: "no_fault (tableswitch_keys m al)"
  by (auto simp: tableswitch_keys_def Let_def intro!: no_fault_rbind)

lemma lookupswitch_keys_no_fault: "no_fault (lookupswitch_keys m al)"
  by (auto simp: lookupswitch_keys_def Let_def intro!: no_fault_rbind keys_sorted_no_fault)

lemma verify_switch_keeps:
  assumes "resolve_safe (v_resolve v)" and "table_ok ml ms cd tb"
  shows "fr.keeps ml ms (\<lambda>_. True) (verify_switch v tb s)"
  unfolding verify_switch_def Let_def
  by (intro keeps_then_lift fr.keeps_bind_lift fr.keeps_then [OF pop_stack_keeps] fr.keeps_for
      fr.keeps_then [OF check_jump_target_keeps [OF assms(2,1)]] check_jump_target_keeps [OF assms(2,1)]
      padding_no_fault assms(1))
    (auto simp: assms tableswitch_keys_no_fault lookupswitch_keys_no_fault)

lemma is_protected_access_no_fault:
  assumes "verifier_ok v" and "load_class v n = Inr k"
  shows "no_fault (is_protected_access v k name sig b)"
  using assms uncached_lookup_no_fault [of "v_addr v" k name sig]
  by (auto simp: is_protected_access_def verifier_ok_def load_class_def Let_def intro!: no_fault_rbind
      split: option.splits)

lemma load_class_no_fault: "verifier_ok v \<Longrightarrow> no_fault (load_class v n)"
  by (simp add: verifier_ok_def load_class_def resolve_safe_def)

lemma assignable_no_fault:
  "verifier_ok v \<Longrightarrow> vtype_wf t \<Longrightarrow> vtype_wf u \<Longrightarrow> no_fault (is_assignable_from (v_resolve v) t u)"
  by (simp add: verifier_ok_def is_assignable_from_no_fault)

lemma pop_types_keeps:
  assumes "resolve_safe (v_resolve v)" and "list_all vtype_wf ts"
  shows "fr.keeps ml ms (\<lambda>_. True) (pop_types v ts)"
  unfolding pop_types_def
  by (intro fr.keeps_for fr.keeps_then [OF pop_stack_keeps] fr.keeps_return)
    (use assms in \<open>auto simp: list_all_iff\<close>)

lemma push_types_keeps: "list_all type_ok ts \<Longrightarrow> fr.keeps ml ms (\<lambda>_. True) (vfor push_stack ts)"
  by (intro fr.keeps_for push_stack_keeps) (auto simp: list_all_iff)

text \<open>What a checked member reference gives.\<close>

lemma ref_accessD:
  assumes "ref_access_ok legal cp i"
  shows "no_fault (name_ref_at cp i)" "no_fault (signature_ref_at cp i)"
    "name_ref_at cp i = Inr n \<Longrightarrow> n \<noteq> []" "signature_ref_at cp i = Inr sig \<Longrightarrow> legal sig"
    "no_fault (cp_ref_index_to_type cp i)" "cp_ref_index_to_type cp i = Inr t \<Longrightarrow> type_ok t \<and> single t"
    "no_fault (rbind (klass_ref_index_at cp i) (klass_name_at cp))"
  using assms by (auto simp: ref_access_ok_def cp_ref_index_to_type_def cp_index_to_type_def)

lemma check_protected_keeps:
  assumes "verifier_ok v" and "ref_access_ok legal (v_cp v) i" and "type_ok t"
  shows "fr.keeps ml ms (\<lambda>_. True) (check_protected v b i name sig t)"
  unfolding check_protected_def
  by (intro keeps_intros load_class_no_fault is_protected_access_no_fault assignable_no_fault assms(1)
      ref_accessD(7) [OF assms(2)] verifier_okD(4) [OF assms(1)])
    (use assms(3) in \<open>auto simp: type_ok_def\<close>)

lemma field_types:
  assumes "legal_field_sig sig"
  obtains ss ts where "signature_stream sig False = Inr ss" and "change_sig_to_verificationType ss = Inr ts"
    and "list_all type_ok ts" and "list_all vtype_wf ts"
proof -
  from assms obtain t where t: "jtype_ok t" "sig = desc t" by (auto simp: legal_field_sig_def)
  with field_stream [OF t(1)] vtypes_of_ok [OF t(1)] vtypes_of_wf [OF t(1)] that show ?thesis by auto
qed

lemma field_access_keeps:
  assumes v: "verifier_ok v" and c: "s_code s \<in> {bc_getstatic, bc_putstatic, bc_getfield, bc_putfield}"
    and ref: "ref_access_ok legal (v_cp v) i" and t: "type_ok t" and ts: "list_all type_ok ts" "list_all vtype_wf ts"
  shows "fr.keeps ml ms (\<lambda>_. True) (field_access v s i n sig t ts)"
  unfolding field_access_def Let_def
  by (intro fr.keeps_if fr.keeps_bind [OF pop_stack_keeps] fr.keeps_bind [OF pop_stack_any_keeps]
      fr.keeps_then [OF pop_types_keeps] fr.keeps_then [OF push_types_keeps] pop_types_keeps push_types_keeps
      check_protected_keeps [OF v ref] fr.keeps_bind_lift keeps_then_check ts verifier_okD(3) [OF v]
      assignable_no_fault [OF v])
    (use c t verifier_okD(4,5) [OF v] in \<open>auto simp: type_ok_def\<close>)

lemma field_ref:
  assumes v: "verifier_ok v" and i: "verify_cp_type (v_cp v) i (shl1 JVM_CONSTANT_Fieldref) = Inr u"
  shows "ref_access_ok legal_field_sig (v_cp v) i"
    and "signature_ref_at (v_cp v) i = Inr sig \<Longrightarrow> no_fault (signature_stream sig False)"
    and "signature_ref_at (v_cp v) i = Inr sig \<Longrightarrow> signature_stream sig False = Inr ss \<Longrightarrow>
      no_fault (change_sig_to_verificationType ss)"
    and "signature_ref_at (v_cp v) i = Inr sig \<Longrightarrow> signature_stream sig False = Inr ss \<Longrightarrow>
      change_sig_to_verificationType ss = Inr ts \<Longrightarrow> list_all type_ok ts \<and> list_all vtype_wf ts"
proof -
  show ref: "ref_access_ok legal_field_sig (v_cp v) i"
    using i by (rule verify_cp_type_member(1) [OF verifier_okD(1) [OF v]])
  note legal = ref_accessD(4) [OF ref]
  show "no_fault (signature_stream sig False)" if "signature_ref_at (v_cp v) i = Inr sig"
    by (rule field_types [OF legal [OF that]]) simp
  show "no_fault (change_sig_to_verificationType ss)"
    if "signature_ref_at (v_cp v) i = Inr sig" "signature_stream sig False = Inr ss"
    by (rule field_types [OF legal [OF that(1)]]) (use that(2) in simp)
  show "list_all type_ok ts \<and> list_all vtype_wf ts"
    if "signature_ref_at (v_cp v) i = Inr sig" "signature_stream sig False = Inr ss"
      "change_sig_to_verificationType ss = Inr ts"
    by (rule field_types [OF legal [OF that(1)]]) (use that(2,3) in simp)
qed

lemma verify_field_instructions_keeps:
  assumes v: "verifier_ok v" and c: "s_code s \<in> {bc_getstatic, bc_putstatic, bc_getfield, bc_putfield}"
  shows "fr.keeps ml ms (\<lambda>_. True) (verify_field_instructions v s)"
  unfolding verify_field_instructions_def Let_def
  apply (rule fr.keeps_bind_lift [OF get_index_big_no_fault])
  apply (rule keeps_then_lift [OF verify_cp_type_no_fault [OF verifier_okD(2) [OF v]]])
  subgoal for i u
    using field_ref(2-4) [OF v, of i u] ref_accessD(6) [OF field_ref(1) [OF v, of i u]]
    by (intro keeps_then_check fr.keeps_bind_lift ref_accessD(1,2,5) [OF field_ref(1) [OF v, of i u]]
        field_access_keeps [OF v c field_ref(1) [OF v, of i u]]) auto
  done

lemma find_named_super_no_fault: "no_fault (find_named_super n k)"
  by (induction n k rule: find_named_super.induct) (auto split: option.splits)

lemma class_type:
  assumes "cp_wf cp" and "verify_cp_class_type cp i = Inr u"
  shows "no_fault (cp_index_to_type cp i)" "cp_index_to_type cp i = Inr t \<Longrightarrow> type_ok t \<and> single t"
  using class_entry_type [OF verify_cp_class_type_Inr [OF assms]] by auto

lemma new_class_at_ok:
  assumes "verifier_ok v"
  shows "no_fault (new_class_at v o')" "new_class_at v o' = Inr t \<Longrightarrow> type_ok t \<and> single t"
  using class_type [OF verifier_okD(1) [OF assms]]
  by (auto simp: new_class_at_def Let_def verify_cp_class_type_no_fault intro!: no_fault_rbind split: if_splits)

lemma check_protected_init_no_fault:
  assumes "verifier_ok v" and "ref_access_ok legal (v_cp v) i" and "vtype_wf t"
  shows "no_fault (check_protected_init v n i t)"
proof -
  have "no_fault (uncached_lookup_method (v_addr v) k name sig)" if "load_class v n = Inr k" for k name sig
    using assms(1) that uncached_lookup_no_fault [of "v_addr v" k name sig]
    by (auto simp: verifier_ok_def load_class_def)
  then show ?thesis
    using assms(3) verifier_okD(4) [OF assms(1)] ref_accessD(2) [OF assms(2)] load_class_no_fault [OF assms(1), of n]
    by (auto simp: check_protected_init_def intro!: no_fault_rbind assignable_no_fault [OF assms(1)]
        split: option.splits)
qed

lemma verify_invoke_init_keeps:
  assumes v: "verifier_ok v" and ref: "ref_access_ok legal (v_cp v) i"
  shows "fr.keeps ml ms (\<lambda>_. True) (verify_invoke_init v i t)"
proof -
  have init: "fr.keeps ml ms (\<lambda>_. True) (initialize_object u new)"
    if "type_ok u" "assignable (v_resolve v) u ReferenceQuery" "type_ok new" "single new" for u new
    using that popped_single [OF that(2,1)] assignable_reference_query [OF that(2,1)]
    by (intro initialize_object_keeps) (auto simp: is_reference_def is_uninitialized_def)
  show ?thesis
    unfolding verify_invoke_init_def
    by (intro fr.keeps_bind [OF pop_stack_keeps [OF verifier_okD(3) [OF v]]] fr.keeps_if keeps_then_lift
        keeps_then_check fr.keeps_bind_lift fr.keeps_return fr.keeps_fail fr.keeps_then [OF init]
        find_named_super_no_fault new_class_at_ok(1) [OF v] check_protected_init_no_fault [OF v ref])
      (use verifier_okD(5,6) [OF v] new_class_at_ok(2) [OF v] in \<open>auto simp: type_ok_def\<close>)
qed

text \<open>The buffer for the types of the parameters is large enough.\<close>

lemma sig_types_desc:
  assumes "list_all jtype_ok ps" and "ret_ok r"
  shows "\<exists>ss. sig_types (method_desc ps r) = Inr (args_vtypes ps, ss) \<and>
    (case r of None \<Rightarrow> ss_type ss = T_VOID
     | Some t \<Rightarrow> ss_type ss = basic_of t \<and> change_sig_to_verificationType ss = Inr (vtypes_of t))"
proof -
  let ?sig = "method_desc ps r"
  define cap where "cap = (if (int (length ?sig) - 3) * 2 > 128 then length (args_vtypes ps) else 128)"
  have "length (args_vtypes ps) \<le> (length ?sig - 3) * 2" by (rule args_buffer_bound)
  then have "0 + length (args_vtypes ps) \<le> cap" by (auto simp: cap_def)
  moreover have "(if (int (length ?sig) - 3) * 2 > 128 then argument_size ?sig else Inr 128) = Inr cap"
    using argument_size_desc [OF assms(1)] by (simp add: cap_def)
  ultimately show ?thesis
    using method_stream [OF assms, of 0 cap] by (auto simp: sig_types_def split: option.splits)
qed

lemma method_types:
  assumes "legal_method_sig sig"
  obtains ts ss where "sig_types sig = Inr (ts, ss)" and "list_all vtype_wf ts"
    and "ss_type ss \<noteq> T_VOID \<Longrightarrow> \<exists>us. change_sig_to_verificationType ss = Inr us \<and> list_all type_ok us"
proof -
  from assms obtain ps r where s: "sig = method_desc ps r" and ok: "list_all jtype_ok ps" "ret_ok r"
    by (auto simp: legal_method_sig_def)
  from sig_types_desc [OF ok] obtain ss where ss: "sig_types sig = Inr (args_vtypes ps, ss)"
    and ret: "case r of None \<Rightarrow> ss_type ss = T_VOID
     | Some t \<Rightarrow> ss_type ss = basic_of t \<and> change_sig_to_verificationType ss = Inr (vtypes_of t)"
    using s by blast
  show ?thesis
    by (rule that [OF ss args_vtypes_wf [OF ok(1)]])
      (use ret ok(2) in \<open>auto simp: ret_ok_def vtypes_of_ok split: option.splits\<close>)
qed

lemma push_result_keeps:
  assumes "ss_type ss \<noteq> T_VOID \<Longrightarrow> \<exists>us. change_sig_to_verificationType ss = Inr us \<and> list_all type_ok us"
  shows "fr.keeps ml ms (\<lambda>_. True) (push_result n ss)"
  unfolding push_result_def
  by (intro keeps_intros push_types_keeps) (use assms in auto)

lemma check_method_name_no_fault:
  assumes "verifier_ok v" and "n \<noteq> []" and "vtype_wf t"
  shows "no_fault (check_method_name v opcode n t)"
  using assms verifier_okD(4) [OF assms(1)]
  by (auto simp: check_method_name_def super_type_def verifier_ok_def intro!: no_fault_rbind
      assignable_no_fault [OF assms(1)] split: option.splits)

lemma check_protected_method_no_fault:
  assumes "verifier_ok v" and "ref_access_ok legal (v_cp v) i" and "vtype_wf t"
  shows "no_fault (check_protected_method v bci i n sig rt t)"
  unfolding check_protected_method_def
  using assms(3) verifier_okD(4) [OF assms(1)] ref_accessD(7) [OF assms(2)]
  by (auto intro!: no_fault_rbind load_class_no_fault is_protected_access_no_fault assignable_no_fault assms(1))

lemma check_interface_operands_no_fault: "no_fault (check_interface_operands v bci n)"
  by (auto simp: check_interface_operands_def intro!: no_fault_rbind)

lemma verify_objectref_keeps:
  assumes v: "verifier_ok v" and ref: "ref_access_ok legal (v_cp v) i" and t: "type_ok t"
  shows "fr.keeps ml ms (\<lambda>_. True) (verify_objectref v opcode bci i n sig t)"
  unfolding verify_objectref_def
  by (intro fr.keeps_if fr.keeps_return verify_invoke_init_keeps [OF v ref] keeps_then_lift
      check_protected_method_no_fault [OF v ref] fr.keeps_bind [OF pop_stack_keeps [OF verifier_okD(3) [OF v]]]
      fr.keeps_then [OF pop_stack_keeps [OF verifier_okD(3) [OF v]]])
    (use t verifier_okD(4) [OF v] in \<open>auto simp: type_ok_def\<close>)

text \<open>What the checks at the start of an invocation establish.\<close>

lemma method_ref:
  assumes v: "verifier_ok v"
    and i: "verify_cp_type (v_cp v) i (if b then shl1 JVM_CONSTANT_InterfaceMethodref
      else shl1 JVM_CONSTANT_Methodref) = Inr u"
  shows "ref_access_ok legal_method_sig (v_cp v) i"
    and "signature_ref_at (v_cp v) i = Inr sig \<Longrightarrow> no_fault (sig_types sig)"
    and "signature_ref_at (v_cp v) i = Inr sig \<Longrightarrow> sig_types sig = Inr (ts, ss) \<Longrightarrow> list_all vtype_wf ts"
    and "signature_ref_at (v_cp v) i = Inr sig \<Longrightarrow> sig_types sig = Inr (ts, ss) \<Longrightarrow>
      fr.keeps ml ms (\<lambda>_. True) (push_result n ss)"
proof -
  show ref: "ref_access_ok legal_method_sig (v_cp v) i"
    using i verify_cp_type_member(2,3) [OF verifier_okD(1) [OF v]] by (cases b) auto
  note legal = ref_accessD(4) [OF ref]
  show "no_fault (sig_types sig)" if "signature_ref_at (v_cp v) i = Inr sig"
    by (rule method_types [OF legal [OF that]]) simp
  show "list_all vtype_wf ts" if "signature_ref_at (v_cp v) i = Inr sig" "sig_types sig = Inr (ts, ss)"
    by (rule method_types [OF legal [OF that(1)]]) (use that(2) in simp)
  show "fr.keeps ml ms (\<lambda>_. True) (push_result n ss)"
    if "signature_ref_at (v_cp v) i = Inr sig" "sig_types sig = Inr (ts, ss)"
    by (rule method_types [OF legal [OF that(1)]], rule push_result_keeps) (use that(2) in simp)
qed

lemma keeps_bind_lift_pair:
  "no_fault r \<Longrightarrow> (\<And>x y. r = Inr (x, y) \<Longrightarrow> fr.keeps ml ms B (f x y)) \<Longrightarrow>
   fr.keeps ml ms B (vbind (vlift r) (\<lambda>(x, y). f x y))"
  by (rule fr.keeps_bind_lift) auto

lemma verify_invoke_instructions_keeps:
  assumes v: "verifier_ok v"
  shows "fr.keeps ml ms (\<lambda>_. True) (verify_invoke_instructions v s)"
  unfolding verify_invoke_instructions_def Let_def
  apply (rule fr.keeps_bind_lift [OF get_index_big_no_fault])
  apply (rule keeps_then_lift [OF verify_cp_type_no_fault [OF verifier_okD(2) [OF v]]])
  subgoal premises p for i u
  proof -
    note m = method_ref [OF v p(2)] and ref = method_ref(1) [OF v p(2)]
    show ?thesis
      by (intro keeps_then_check keeps_bind_lift_pair fr.keeps_bind_lift keeps_then_lift
          ref_accessD(1,2,5) [OF ref] fr.keeps_then [where A = "\<lambda>_. True"] fr.keeps_if fr.keeps_return
          keeps_lift_any check_interface_operands_no_fault check_method_name_no_fault [OF v]
          pop_types_keeps [OF verifier_okD(3) [OF v]] fr.keeps_bind [OF verify_objectref_keeps [OF v ref]] m)
        (auto dest: ref_accessD(3,6) [OF ref] simp: type_ok_def)
  qed
  done

section \<open>Arrays\<close>

lemma allocate_symbol_Inr: "allocate_symbol n = Inr m \<Longrightarrow> m = n"
  by (auto simp: allocate_symbol_def split: if_splits)

lemma allocate_symbol_no_fault: "no_fault (allocate_symbol n)"
  by (simp add: allocate_symbol_def)

definition newarray_names :: "string list" where
  "newarray_names = [[], [], [], [], ''[Z'', ''[C'', ''[F'', ''[D'', ''[B'', ''[S'', ''[I'', ''[J'']"

lemma newarray_names_legal:
  assumes "\<not> i < 4" and "\<not> 11 < i"
  shows "legal_class_name (newarray_names ! i)"
proof -
  have "legal_class_name [CHR ''['', c]" if "c \<in> set ''BCDFIJSZ''" for c
    using legal_array_name [of "JPrim c"] that by auto
  then have l: "list_all legal_class_name (drop 4 newarray_names)" by (simp add: newarray_names_def)
  have "length newarray_names = 12" by (simp add: newarray_names_def)
  with assms have "i - 4 < length (drop 4 newarray_names)" "newarray_names ! i = drop 4 newarray_names ! (i - 4)"
    by auto
  with l show ?thesis by (simp add: list_all_length)
qed

lemma get_newarray_type_eq:
  "get_newarray_type i = (if i < 4 \<or> i > 11 then Inl (VerifyError ''Illegal newarray instruction'')
     else Inr (Reference (newarray_names ! i)))"
proof (cases "i < 4 \<or> i > 11")
  case False
  then have "i \<in> {4, 5, 6, 7, 8, 9, 10, 11}" by auto
  then show ?thesis by (auto simp: get_newarray_type_def newarray_names_def allocate_symbol_def)
qed (simp add: get_newarray_type_def)

lemma get_newarray_type_ok:
  "no_fault (get_newarray_type i)" "get_newarray_type i = Inr t \<Longrightarrow> type_ok t"
  using newarray_names_legal [of i] by (auto simp: get_newarray_type_eq split: if_splits)

lemma legal_array_of:
  assumes "legal_class_name n"
  shows "legal_class_name (if is_array (Reference n) then CHR ''['' # n else CHR ''['' # CHR ''L'' # n @ '';'')"
proof (cases "is_array (Reference n)")
  case True
  with assms obtain t where "n = CHR ''['' # desc t" "jtype_ok t"
    by (auto simp: is_array_def legal_class_name_def split: list.splits if_splits)
  with True legal_array_name [of "JArr t"] show ?thesis by simp
next
  case False
  have "\<forall>c\<in>set n. \<not> invalid_name_char c"
  proof (cases n)
    case (Cons c cs)
    show ?thesis
    proof (cases "c = CHR ''[''")
      case True
      with assms Cons obtain t where "jtype_ok t" "cs = desc t" by (auto simp: legal_class_name_def)
      with desc_first [of t] Cons True False show ?thesis by (auto simp: is_array_def)
    qed (use assms Cons in \<open>simp add: legal_class_name_def\<close>)
  qed simp
  with False legal_array_name [of "JObj n"] show ?thesis by simp
qed

lemma verify_anewarray_keeps:
  assumes v: "verifier_ok v"
  shows "fr.keeps ml ms (\<lambda>_. True) (verify_anewarray v i)"
proof -
  have "type_ok (Reference n)"
    if "verify_cp_class_type (v_cp v) i = Inr u" "cp_index_to_type (v_cp v) i = Inr t"
      "allocate_symbol (if is_array t then CHR ''['' # name_of t else CHR ''['' # CHR ''L'' # name_of t @ '';'') = Inr n"
    for u t n
  proof -
    from class_entry_type [OF verify_cp_class_type_Inr [OF verifier_okD(1) [OF v] that(1)]] that(2)
    obtain m where "t = Reference m" "legal_class_name m" by auto
    with legal_array_of [of m] allocate_symbol_Inr [OF that(3)] show ?thesis
      by (cases "is_array (Reference m)") simp_all
  qed
  then show ?thesis
    unfolding verify_anewarray_def Let_def
    by (intro keeps_then_lift fr.keeps_bind_lift fr.keeps_then [OF pop_stack_keeps [OF verifier_okD(3) [OF v]]]
        push_stack_keeps verify_cp_class_type_no_fault allocate_symbol_no_fault
        class_type(1) [OF verifier_okD(1) [OF v]]) auto
qed

section \<open>The tables of the switches\<close>

lemma raw_next_switch:
  assumes n: "raw_next m s = Inr (c, t)" and c: "c \<in> {bc_tableswitch, bc_lookupswitch}" and t: "0 \<le> s_next_bci t"
  shows "\<exists>l. special_length_at m (s_bci t) = Inr l \<and> 0 < l \<and> s_next_bci t = s_bci t + l \<and>
    code_at m (s_bci t) = Inr c \<and> s_next_bci t \<le> s_end_bci t"
proof -
  let ?b = "s_next_bci s"
  from c have c': "c \<noteq> bc_illegal" by auto
  note r = raw_next_Inr [OF n c']
  obtain code where code: "code_or_bp_at m ?b = Inr code" using n by (auto simp: raw_next_def Let_def)
  have wide: "code \<noteq> bc_wide"
  proof
    assume w: "code = bc_wide"
    have "l = 0" if "raw_special_length_at m ?b = Inr l" "bcp_u1 m (?b + 1) = Inr b" "uint b = c" for l b
      using that code w c by (auto simp: raw_special_length_at_def special_length_at_def code_at_def wide_length_for_eq wide_codes_def)
    with n code w c' c show False
      by (auto simp: raw_next_def raw_next_special_def Let_def length_for_ranges length_ranges_def split: if_splits)
  qed
  then have cc: "code = c"
    using n code by (auto simp: raw_next_def raw_next_special_def Let_def c' split: if_splits)
  with c have len: "length_for (m_beyond m) code = 0" by (auto simp: length_for_ranges length_ranges_def)
  from n code wide cc c' len obtain l where l: "raw_special_length_at m ?b = Inr l" "0 < l" "s_next_bci t = jint_add ?b l"
    by (auto simp: raw_next_def raw_next_special_def Let_def split: if_splits)
  from l(1) code cc c have sp: "special_length_at m ?b = Inr l"
    by (auto simp: raw_special_length_at_def split: if_splits)
  have "jint_add ?b l = ?b + l"
  proof (cases "?b + l < 2147483648")
    case False
    with r special_length_at_less [OF sp] have "jint_add ?b l < 0"
      using mod_add_self2 [of "?b + l - 2147483648" 4294967296] by (simp add: jint_add_def add.commute)
    with t l show ?thesis by simp
  qed (use r l in \<open>simp add: jint_add_eq\<close>)
  with l sp r code cc c show ?thesis by (auto simp: code_at_def)
qed

lemma positive_jint_pos: "0 < positive_jint x \<Longrightarrow> positive_jint x = x \<and> 0 < x \<and> x < 2147483648"
  by (auto simp: positive_jint_def split: if_splits)

lemma round_to_next: "b + 1 \<le> round_to (b + 1) 4 \<and> round_to (b + 1) 4 \<le> b + 4"
  by (auto simp: round_to_4)

lemma tableswitch_table:
  assumes "special_length_at m b = Inr l" "0 < l" "code_at m b = Inr bc_tableswitch"
    and "tableswitch_keys m (round_to (b + 1) 4) = Inr n"
  shows "\<exists>lo hi. get_Java_u4 m (round_to (b + 1) 4 + 4) = Inr lo \<and> get_Java_u4 m (round_to (b + 1) 4 + 8) = Inr hi \<and>
     0 < n \<and> n = s4_of hi - s4_of lo + 1 \<and> round_to (b + 1) 4 + (3 + n) * 4 = b + l"
proof -
  let ?al = "round_to (b + 1) 4"
  from assms(4) obtain lo hi where g: "get_Java_u4 m (?al + 4) = Inr lo" "get_Java_u4 m (?al + 8) = Inr hi"
    and k: "s4_of lo \<le> s4_of hi" "n = jint_add (jint_add (s4_of hi) (- s4_of lo)) 1"
    by (auto simp: tableswitch_keys_def Let_def split: if_splits)
  from assms(1-3) g have l: "l = ?al - b + (3 + s4_of hi - s4_of lo + 1) * 4" "l < 2147483648"
    using positive_jint_pos [of "?al - b + (3 + s4_of hi - s4_of lo + 1) * 4"] by (auto simp: special_length_at_def Let_def)
  have "(s4_of hi - s4_of lo) * 4 < 2147483648" using l round_to_next [of b] by (simp add: algebra_simps)
  then have "s4_of hi - s4_of lo < 600000000" by presburger
  with k have "n = s4_of hi - s4_of lo + 1" by (simp add: jint_add_eq)
  with g k l show ?thesis by auto
qed

lemma lookupswitch_table:
  assumes "special_length_at m b = Inr l" "0 < l" "code_at m b = Inr bc_lookupswitch"
    and "lookupswitch_keys m (round_to (b + 1) 4) = Inr n"
  shows "0 \<le> n \<and> round_to (b + 1) 4 + (2 + 2 * n) * 4 = b + l"
proof -
  let ?al = "round_to (b + 1) 4"
  from assms(4) obtain k where g: "get_Java_u4 m (?al + 4) = Inr k" "n = s4_of k" "0 \<le> n"
    by (auto simp: lookupswitch_keys_def Let_def split: if_splits)
  from assms(1-3) g have "l = ?al - b + (2 + 2 * n) * 4"
    using positive_jint_pos [of "?al - b + (2 + 2 * s4_of k) * 4"] by (auto simp: special_length_at_def Let_def)
  with g show ?thesis by simp
qed

definition lookup_key :: "code_mem \<Rightarrow> int \<Rightarrow> nat \<Rightarrow> int res" where
  "lookup_key m aligned i = rbind (get_Java_u4 m (aligned + (2 + 2 * int i) * 4)) (\<lambda>k. Inr (s4_of k))"

lemma keys_sorted_Inr:
  assumes "keys_sorted m al is = Inr ()" and "i \<in> set is"
  shows "\<exists>a b. lookup_key m al i = Inr a \<and> lookup_key m al (Suc i) = Inr b \<and> a < b"
  using assms by (induction m al "is" rule: keys_sorted.induct) (auto simp: lookup_key_def algebra_simps split: if_splits)

lemma keys_increasing:
  assumes "\<And>i. Suc i < n \<Longrightarrow> \<exists>a b. lookup_key m al i = Inr a \<and> lookup_key m al (Suc i) = Inr b \<and> a < b"
    and "i < j" "j < n"
  shows "\<exists>a b. lookup_key m al i = Inr a \<and> lookup_key m al j = Inr b \<and> a < b"
  using assms(2,3)
proof (induction j)
  case (Suc j)
  with assms(1) [of j] obtain a b where ab: "lookup_key m al j = Inr a" "lookup_key m al (Suc j) = Inr b" "a < b" by auto
  with Suc show ?case by (cases "i = j") (auto dest: order_less_trans)
qed simp

lemma tableswitch_in_code:
  assumes "raw_next m s = Inr (bc_tableswitch, t)" and "0 \<le> s_next_bci t"
    and "tableswitch_keys m (round_to (s_bci t + 1) 4) = Inr n"
  shows "round_to (s_bci t + 1) 4 + (3 + n) * 4 = s_next_bci t \<and> s_next_bci t \<le> s_end_bci t \<and>
     (\<exists>low high. get_Java_u4 m (round_to (s_bci t + 1) 4 + 4) = Inr low \<and>
        get_Java_u4 m (round_to (s_bci t + 1) 4 + 8) = Inr high \<and> n = s4_of high - s4_of low + 1)"
proof -
  from raw_next_switch [OF assms(1) _ assms(2)] obtain l where l: "special_length_at m (s_bci t) = Inr l" "0 < l"
    "s_next_bci t = s_bci t + l" "code_at m (s_bci t) = Inr bc_tableswitch" "s_next_bci t \<le> s_end_bci t"
    by auto
  from tableswitch_table [OF l(1,2,4) assms(3)] l show ?thesis by auto
qed

lemma lookupswitch_in_code:
  assumes "raw_next m s = Inr (bc_lookupswitch, t)" and "0 \<le> s_next_bci t"
    and "lookupswitch_keys m (round_to (s_bci t + 1) 4) = Inr n"
  shows "round_to (s_bci t + 1) 4 + (2 + 2 * n) * 4 = s_next_bci t \<and> s_next_bci t \<le> s_end_bci t"
proof -
  from raw_next_switch [OF assms(1) _ assms(2)] obtain l where l: "special_length_at m (s_bci t) = Inr l" "0 < l"
    "s_next_bci t = s_bci t + l" "code_at m (s_bci t) = Inr bc_lookupswitch" "s_next_bci t \<le> s_end_bci t"
    by auto
  from lookupswitch_table [OF l(1,2,4) assms(3)] l show ?thesis by auto
qed

lemma lookupswitch_increasing:
  assumes "lookupswitch_keys m al = Inr n" and "i < j" and "int j < n"
  shows "\<exists>a b. lookup_key m al i = Inr a \<and> lookup_key m al j = Inr b \<and> a < b"
proof -
  from assms(1) have "keys_sorted m al [0..<nat (n - 1)] = Inr ()"
    by (auto simp: lookupswitch_keys_def Let_def split: if_splits)
  note k = keys_sorted_Inr [OF this]
  show ?thesis
    by (rule keys_increasing [OF _ assms(2), of "nat n"]) (use k assms(3) in auto)
qed

text \<open>
  C6. The table of a switch that the stream delivers, when the position behind it is not negative, lies in front of the end of the code, so the
  checks of its targets read no byte behind it; the number of keys of a \<^verbatim>\<open>tableswitch\<close> is computed without overflow, and the keys of a
  \<^verbatim>\<open>lookupswitch\<close> increase strictly. The position is negative only when the sum of position and length has overflowed; the stream stops then
  (\<open>raw_next_overflows\<close> in \<open>BytecodeStream\<close>).
\<close>

theorem switch_table_in_code:
  assumes "raw_next m s = Inr (c, t)" and "0 \<le> s_next_bci t" and "al = round_to (s_bci t + 1) 4"
  shows "(c = bc_tableswitch \<and> tableswitch_keys m al = Inr n \<longrightarrow>
      al + (3 + n) * 4 = s_next_bci t \<and> s_next_bci t \<le> s_end_bci t \<and>
      (\<exists>low high. get_Java_u4 m (al + 4) = Inr low \<and> get_Java_u4 m (al + 8) = Inr high \<and> n = s4_of high - s4_of low + 1)) \<and>
    (c = bc_lookupswitch \<and> lookupswitch_keys m al = Inr n \<longrightarrow>
      al + (2 + 2 * n) * 4 = s_next_bci t \<and> s_next_bci t \<le> s_end_bci t \<and>
      (\<forall>i j. i < j \<and> int j < n \<longrightarrow> (\<exists>a b. lookup_key m al i = Inr a \<and> lookup_key m al j = Inr b \<and> a < b)))"
  unfolding assms(3) using assms(1,2) tableswitch_in_code lookupswitch_in_code lookupswitch_increasing by blast

text \<open>A \<^verbatim>\<open>lookupswitch\<close> with the keys 1 and 5.\<close>

definition ex_lookup :: code_mem where
  "ex_lookup = \<lparr> m_code = [171, 0, 0, 0,  0, 0, 0, 28,  0, 0, 0, 2,  0, 0, 0, 1,  0, 0, 0, 28,  0, 0, 0, 5,  0, 0, 0, 28,  177],
     m_after = (\<lambda>_. 0), m_orig = (\<lambda>_. - 1), m_beyond = (\<lambda>_. 0) \<rparr>"

theorem switch_table_in_code_witness:
  "\<exists>a b. lookup_key ex_lookup 4 0 = Inr a \<and> lookup_key ex_lookup 4 1 = Inr b \<and> a < b"
proof -
  let ?t = "\<lparr> s_bci = 0, s_next_bci = 28, s_end_bci = 29, s_code = bc_lookupswitch, s_is_wide = False \<rparr>"
  have "raw_next ex_lookup (raw_stream ex_lookup) = Inr (bc_lookupswitch, ?t)"
    by (simp add: stream_eval ex_lookup_def cong: rbind_weak_cong)
  moreover have "lookupswitch_keys ex_lookup 4 = Inr 2"
    by (simp add: lookupswitch_keys_def stream_eval ex_lookup_def cong: rbind_weak_cong)
  moreover have "4 = round_to (s_bci ?t + 1) 4" by (simp add: round_to_4)
  ultimately show ?thesis
    using switch_table_in_code [of ex_lookup "raw_stream ex_lookup" bc_lookupswitch ?t 4 2] by simp
qed

end
