(* ===== verification/VerifierInstr.thy ===== *)
theory VerifierInstr
  imports Verifier
begin

text \<open>
  The switch of \<^verbatim>\<open>ClassVerifier::verify_method\<close> (\<^verbatim>\<open>classfile/verifier.cpp\<close>): the effect of each instruction
  on the current frame. The cases are divided into groups in the order of the source; a group
  delivers \<open>None\<close> for an opcode that is not among its cases. The result of a case is the value
  that it gives to \<^verbatim>\<open>no_control_flow\<close>: whether control cannot reach the next instruction.
\<close>

section \<open>The shapes of the cases\<close>

text \<open>The steps of a case one after the other, then \<open>no_control_flow = false; break\<close>, or \<open>true\<close>.\<close>

definition go_on :: "(frame, unit) vm list \<Rightarrow> (frame, bool) vm" where
  "go_on steps = foldr vthen steps (vreturn False)"

definition ends :: "(frame, unit) vm list \<Rightarrow> (frame, bool) vm" where
  "ends steps = foldr vthen steps (vreturn True)"

text \<open>A call of \<^verbatim>\<open>pop_stack\<close> whose result is not used.\<close>

definition pop_one :: "verifier \<Rightarrow> vtype \<Rightarrow> (frame, unit) vm" where
  "pop_one v t = vthen (pop_stack (v_resolve v) t) (vreturn ())"

definition bad_type :: "string \<Rightarrow> verr" where
  "bad_type instr = VerifyError (''Bad type on operand stack in '' @ instr)"

section \<open>Constants, loads and stores\<close>

definition switch_consts :: "verifier \<Rightarrow> bc_stream \<Rightarrow> int \<Rightarrow> (frame, bool) vm option" where
  "switch_consts v s opcode =
     (if opcode = bc_nop then Some (go_on [])
      else if opcode = bc_aconst_null then Some (go_on [push_stack Null])
      else if opcode \<in> {bc_iconst_m1, bc_iconst_0, bc_iconst_1, bc_iconst_2, bc_iconst_3, bc_iconst_4, bc_iconst_5}
      then Some (go_on [push_stack Integer])
      else if opcode \<in> {bc_lconst_0, bc_lconst_1} then Some (go_on [push_stack_2 Long Long_2nd])
      else if opcode \<in> {bc_fconst_0, bc_fconst_1, bc_fconst_2} then Some (go_on [push_stack Float])
      else if opcode \<in> {bc_dconst_0, bc_dconst_1} then Some (go_on [push_stack_2 Double Double_2nd])
      else if opcode \<in> {bc_sipush, bc_bipush} then Some (go_on [push_stack Integer])
      else if opcode = bc_ldc then
        Some (go_on [vbind (vlift (get_index (v_mem v) s)) (verify_ldc v opcode)])
      else if opcode \<in> {bc_ldc_w, bc_ldc2_w} then
        Some (go_on [vbind (vlift (get_index_big (v_mem v) s)) (verify_ldc v opcode)])
      else None)"

definition switch_loads :: "verifier \<Rightarrow> bc_stream \<Rightarrow> int \<Rightarrow> (frame, bool) vm option" where
  "switch_loads v s opcode =
     (let with_index = (\<lambda>f. Some (go_on [vbind (vlift (get_index (v_mem v) s)) f]));
          numbered = (\<lambda>f first. Some (go_on [f (nat (opcode - first))])) in
      if opcode = bc_iload then with_index (verify_iload v)
      else if opcode \<in> {bc_iload_0, bc_iload_1, bc_iload_2, bc_iload_3} then numbered (verify_iload v) bc_iload_0
      else if opcode = bc_lload then with_index (verify_lload v)
      else if opcode \<in> {bc_lload_0, bc_lload_1, bc_lload_2, bc_lload_3} then numbered (verify_lload v) bc_lload_0
      else if opcode = bc_fload then with_index (verify_fload v)
      else if opcode \<in> {bc_fload_0, bc_fload_1, bc_fload_2, bc_fload_3} then numbered (verify_fload v) bc_fload_0
      else if opcode = bc_dload then with_index (verify_dload v)
      else if opcode \<in> {bc_dload_0, bc_dload_1, bc_dload_2, bc_dload_3} then numbered (verify_dload v) bc_dload_0
      else if opcode = bc_aload then with_index (verify_aload v)
      else if opcode \<in> {bc_aload_0, bc_aload_1, bc_aload_2, bc_aload_3} then numbered (verify_aload v) bc_aload_0
      else None)"

definition array_load :: "verifier \<Rightarrow> (vtype \<Rightarrow> bool) \<Rightarrow> string \<Rightarrow> (vtype \<Rightarrow> (frame, unit) vm) \<Rightarrow> (frame, bool) vm option" where
  "array_load v is_type instr push =
     Some (go_on [pop_one v Integer,
       vbind (pop_stack (v_resolve v) ReferenceQuery) (\<lambda>atype.
         if \<not> is_type atype then vfail (bad_type instr) else push atype)])"

definition switch_array_loads :: "verifier \<Rightarrow> int \<Rightarrow> (frame, bool) vm option" where
  "switch_array_loads v opcode =
     (if opcode = bc_iaload then array_load v (is_x_array CHR ''I'') ''iaload'' (\<lambda>_. push_stack Integer)
      else if opcode = bc_baload then
        array_load v (\<lambda>t. is_x_array CHR ''Z'' t \<or> is_x_array CHR ''B'' t) ''baload'' (\<lambda>_. push_stack Integer)
      else if opcode = bc_caload then array_load v (is_x_array CHR ''C'') ''caload'' (\<lambda>_. push_stack Integer)
      else if opcode = bc_saload then array_load v (is_x_array CHR ''S'') ''saload'' (\<lambda>_. push_stack Integer)
      else if opcode = bc_laload then
        array_load v (is_x_array CHR ''J'') ''laload'' (\<lambda>_. push_stack_2 Long Long_2nd)
      else if opcode = bc_faload then array_load v (is_x_array CHR ''F'') ''faload'' (\<lambda>_. push_stack Float)
      else if opcode = bc_daload then
        array_load v (is_x_array CHR ''D'') ''daload'' (\<lambda>_. push_stack_2 Double Double_2nd)
      else if opcode = bc_aaload then
        array_load v is_reference_array ''aaload'' (\<lambda>atype.
          if atype = Null then push_stack Null
          else vbind (vlift (get_component atype)) (\<lambda>component. push_stack component))
      else None)"

definition switch_stores :: "verifier \<Rightarrow> bc_stream \<Rightarrow> int \<Rightarrow> (frame, bool) vm option" where
  "switch_stores v s opcode =
     (let with_index = (\<lambda>f. Some (go_on [vbind (vlift (get_index (v_mem v) s)) f]));
          numbered = (\<lambda>f first. Some (go_on [f (nat (opcode - first))])) in
      if opcode = bc_istore then with_index (verify_istore v)
      else if opcode \<in> {bc_istore_0, bc_istore_1, bc_istore_2, bc_istore_3} then numbered (verify_istore v) bc_istore_0
      else if opcode = bc_lstore then with_index (verify_lstore v)
      else if opcode \<in> {bc_lstore_0, bc_lstore_1, bc_lstore_2, bc_lstore_3} then numbered (verify_lstore v) bc_lstore_0
      else if opcode = bc_fstore then with_index (verify_fstore v)
      else if opcode \<in> {bc_fstore_0, bc_fstore_1, bc_fstore_2, bc_fstore_3} then numbered (verify_fstore v) bc_fstore_0
      else if opcode = bc_dstore then with_index (verify_dstore v)
      else if opcode \<in> {bc_dstore_0, bc_dstore_1, bc_dstore_2, bc_dstore_3} then numbered (verify_dstore v) bc_dstore_0
      else if opcode = bc_astore then with_index (verify_astore v)
      else if opcode \<in> {bc_astore_0, bc_astore_1, bc_astore_2, bc_astore_3} then numbered (verify_astore v) bc_astore_0
      else None)"

definition array_store :: "verifier \<Rightarrow> (vtype \<Rightarrow> bool) \<Rightarrow> string \<Rightarrow> (frame, unit) vm \<Rightarrow> (frame, bool) vm option" where
  "array_store v is_type instr pop_value =
     Some (go_on [pop_value, pop_one v Integer,
       vbind (pop_stack (v_resolve v) ReferenceQuery) (\<lambda>atype. vcheck (is_type atype) (bad_type instr))])"

definition switch_array_stores :: "verifier \<Rightarrow> int \<Rightarrow> (frame, bool) vm option" where
  "switch_array_stores v opcode =
     (if opcode = bc_iastore then array_store v (is_x_array CHR ''I'') ''iastore'' (pop_one v Integer)
      else if opcode = bc_bastore then
        array_store v (\<lambda>t. is_x_array CHR ''Z'' t \<or> is_x_array CHR ''B'' t) ''bastore'' (pop_one v Integer)
      else if opcode = bc_castore then array_store v (is_x_array CHR ''C'') ''castore'' (pop_one v Integer)
      else if opcode = bc_sastore then array_store v (is_x_array CHR ''S'') ''sastore'' (pop_one v Integer)
      else if opcode = bc_lastore then
        array_store v (is_x_array CHR ''J'') ''lastore'' (pop_stack_2 (v_resolve v) Long_2nd Long)
      else if opcode = bc_fastore then array_store v (is_x_array CHR ''F'') ''fastore'' (pop_one v Float)
      else if opcode = bc_dastore then
        array_store v (is_x_array CHR ''D'') ''dastore'' (pop_stack_2 (v_resolve v) Double_2nd Double)
      else if opcode = bc_aastore then
        array_store v is_reference_array ''aastore'' (pop_one v ReferenceQuery)
      else None)"

section \<open>The operand stack\<close>

text \<open>
  The type under a popped \<open>type\<close> of a two-slot operand: another one-slot type, or the first
  half when \<open>type\<close> is the second half.
\<close>

definition pop_under :: "verifier \<Rightarrow> vtype \<Rightarrow> string \<Rightarrow> (frame, vtype) vm" where
  "pop_under v type instr =
     (if is_category1 type then pop_stack (v_resolve v) Category1Query
      else if is_category2_2nd type then pop_stack (v_resolve v) Category2Query
      else vfail (bad_type instr))"

definition switch_stack :: "verifier \<Rightarrow> int \<Rightarrow> (frame, bool) vm option" where
  "switch_stack v opcode =
     (let r = v_resolve v; pop1 = pop_stack r Category1Query in
      if opcode = bc_pop then Some (go_on [pop_one v Category1Query])
      else if opcode = bc_pop2 then
        Some (vbind pop_stack_any (\<lambda>type. vthen (pop_under v type ''pop2'') (go_on [])))
      else if opcode = bc_dup then
        Some (vbind pop1 (\<lambda>type. go_on [push_stack type, push_stack type]))
      else if opcode = bc_dup_x1 then
        Some (vbind pop1 (\<lambda>type. vbind pop1 (\<lambda>type2.
          go_on [push_stack type, push_stack type2, push_stack type])))
      else if opcode = bc_dup_x2 then
        Some (vbind pop1 (\<lambda>type. vbind pop_stack_any (\<lambda>type2.
          vbind (pop_under v type2 ''dup_x2'') (\<lambda>type3.
            go_on [push_stack type, push_stack type3, push_stack type2, push_stack type]))))
      else if opcode = bc_dup2 then
        Some (vbind pop_stack_any (\<lambda>type. vbind (pop_under v type ''dup2'') (\<lambda>type2.
          go_on [push_stack type2, push_stack type, push_stack type2, push_stack type])))
      else if opcode = bc_dup2_x1 then
        Some (vbind pop_stack_any (\<lambda>type. vbind (pop_under v type ''dup2_x1'') (\<lambda>type2.
          vbind pop1 (\<lambda>type3.
            go_on [push_stack type2, push_stack type, push_stack type3, push_stack type2, push_stack type]))))
      else if opcode = bc_dup2_x2 then
        Some (vbind pop_stack_any (\<lambda>type. vbind (pop_under v type ''dup2_x2'') (\<lambda>type2.
          vbind pop_stack_any (\<lambda>type3. vbind (pop_under v type3 ''dup2_x2'') (\<lambda>type4.
            go_on [push_stack type2, push_stack type, push_stack type4, push_stack type3,
              push_stack type2, push_stack type])))))
      else if opcode = bc_swap then
        Some (vbind pop1 (\<lambda>type. vbind pop1 (\<lambda>type2. go_on [push_stack type, push_stack type2])))
      else None)"

section \<open>Arithmetic, conversions and comparisons\<close>

text \<open>A case that falls through into the next one does its own step first.\<close>

definition switch_arith :: "verifier \<Rightarrow> bc_stream \<Rightarrow> int \<Rightarrow> (frame, bool) vm option" where
  "switch_arith v s opcode =
     (let popI = pop_one v Integer; popF = pop_one v Float;
          popL = pop_stack_2 (v_resolve v) Long_2nd Long; popD = pop_stack_2 (v_resolve v) Double_2nd Double;
          pushL = push_stack_2 Long Long_2nd; pushD = push_stack_2 Double Double_2nd in
      if opcode \<in> {bc_iadd, bc_isub, bc_imul, bc_idiv, bc_irem, bc_ishl, bc_ishr, bc_iushr, bc_ior, bc_ixor, bc_iand}
      then Some (go_on [popI, popI, push_stack Integer])
      else if opcode = bc_ineg then Some (go_on [popI, push_stack Integer])
      else if opcode \<in> {bc_ladd, bc_lsub, bc_lmul, bc_ldiv, bc_lrem, bc_land, bc_lor, bc_lxor}
      then Some (go_on [popL, popL, pushL])
      else if opcode = bc_lneg then Some (go_on [popL, pushL])
      else if opcode \<in> {bc_lshl, bc_lshr, bc_lushr} then Some (go_on [popI, popL, pushL])
      else if opcode \<in> {bc_fadd, bc_fsub, bc_fmul, bc_fdiv, bc_frem} then Some (go_on [popF, popF, push_stack Float])
      else if opcode = bc_fneg then Some (go_on [popF, push_stack Float])
      else if opcode \<in> {bc_dadd, bc_dsub, bc_dmul, bc_ddiv, bc_drem} then Some (go_on [popD, popD, pushD])
      else if opcode = bc_dneg then Some (go_on [popD, pushD])
      else if opcode = bc_iinc then Some (go_on [vbind (vlift (get_index (v_mem v) s)) (verify_iinc v)])
      else None)"

definition switch_convert :: "verifier \<Rightarrow> int \<Rightarrow> (frame, bool) vm option" where
  "switch_convert v opcode =
     (let popI = pop_one v Integer; popF = pop_one v Float;
          popL = pop_stack_2 (v_resolve v) Long_2nd Long; popD = pop_stack_2 (v_resolve v) Double_2nd Double;
          pushI = push_stack Integer; pushF = push_stack Float;
          pushL = push_stack_2 Long Long_2nd; pushD = push_stack_2 Double Double_2nd in
      if opcode = bc_i2l then Some (go_on [popI, pushL])
      else if opcode = bc_l2i then Some (go_on [popL, pushI])
      else if opcode = bc_i2f then Some (go_on [popI, pushF])
      else if opcode = bc_i2d then Some (go_on [popI, pushD])
      else if opcode = bc_l2f then Some (go_on [popL, pushF])
      else if opcode = bc_l2d then Some (go_on [popL, pushD])
      else if opcode = bc_f2i then Some (go_on [popF, pushI])
      else if opcode = bc_f2l then Some (go_on [popF, pushL])
      else if opcode = bc_f2d then Some (go_on [popF, pushD])
      else if opcode = bc_d2i then Some (go_on [popD, pushI])
      else if opcode = bc_d2l then Some (go_on [popD, pushL])
      else if opcode = bc_d2f then Some (go_on [popD, pushF])
      else if opcode \<in> {bc_i2b, bc_i2c, bc_i2s} then Some (go_on [popI, pushI])
      else if opcode = bc_lcmp then Some (go_on [popL, popL, pushI])
      else if opcode \<in> {bc_fcmpl, bc_fcmpg} then Some (go_on [popF, popF, pushI])
      else if opcode \<in> {bc_dcmpl, bc_dcmpg} then Some (go_on [popD, popD, pushI])
      else None)"

section \<open>Transfer of control\<close>

definition switch_branch :: "verifier \<Rightarrow> map_table \<Rightarrow> bc_stream \<Rightarrow> int \<Rightarrow> (frame, bool) vm option" where
  "switch_branch v tb s opcode =
     (let popI = pop_one v Integer; popA = pop_one v ReferenceQuery;
          jump = (\<lambda>d. vbind (vlift d) (\<lambda>target. check_jump_target (v_resolve v) tb target)) in
      if opcode \<in> {bc_if_icmpeq, bc_if_icmpne, bc_if_icmplt, bc_if_icmpge, bc_if_icmpgt, bc_if_icmple}
      then Some (go_on [popI, popI, jump (dest (v_mem v) s)])
      else if opcode \<in> {bc_ifeq, bc_ifne, bc_iflt, bc_ifge, bc_ifgt, bc_ifle}
      then Some (go_on [popI, jump (dest (v_mem v) s)])
      else if opcode \<in> {bc_if_acmpeq, bc_if_acmpne} then Some (go_on [popA, popA, jump (dest (v_mem v) s)])
      else if opcode \<in> {bc_ifnull, bc_ifnonnull} then Some (go_on [popA, jump (dest (v_mem v) s)])
      else if opcode = bc_goto then Some (ends [jump (dest (v_mem v) s)])
      else if opcode = bc_goto_w then Some (ends [jump (dest_w (v_mem v) s)])
      else if opcode \<in> {bc_tableswitch, bc_lookupswitch} then Some (ends [verify_switch v tb s])
      else None)"

definition switch_return :: "verifier \<Rightarrow> vtype \<Rightarrow> int \<Rightarrow> (frame, bool) vm option" where
  "switch_return v return_type opcode =
     (let pop_ret = (\<lambda>t. vbind (pop_stack (v_resolve v) t) (verify_return_value v return_type)) in
      if opcode = bc_ireturn then Some (ends [pop_ret Integer])
      else if opcode = bc_lreturn then Some (ends [pop_one v Long_2nd, pop_ret Long])
      else if opcode = bc_freturn then Some (ends [pop_ret Float])
      else if opcode = bc_dreturn then Some (ends [pop_one v Double_2nd, pop_ret Double])
      else if opcode = bc_areturn then Some (ends [pop_ret ReferenceQuery])
      else if opcode = bc_return then
        Some (ends [
          vcheck (return_type = Bogus) (VerifyError ''Method expects no return value''),
          vbind (vget flag_this_uninit) (\<lambda>uninit.
            vcheck (\<not> (mt_name (v_method v) = ''<init>'' \<and> uninit))
              (VerifyError ''Constructor must call super() or this() before return''))])
      else None)"

section \<open>Objects and arrays\<close>

definition switch_objects :: "verifier \<Rightarrow> bc_stream \<Rightarrow> int \<Rightarrow> (frame, bool) vm option" where
  "switch_objects v s opcode =
     (let cp = v_cp v; big = vlift (get_index_big (v_mem v) s) in
      if opcode \<in> {bc_getstatic, bc_putstatic, bc_getfield, bc_putfield}
      then Some (go_on [verify_field_instructions v s])
      else if opcode = bc_new then
        Some (go_on [vbind big (\<lambda>index.
          vthen (vlift (verify_cp_class_type cp index))
          (vbind (vlift (cp_index_to_type cp index)) (\<lambda>new_class_type.
           vthen (vcheck (is_object new_class_type) (VerifyError ''Illegal new instruction''))
           (push_stack (Uninitialized (nat (s_bci s mod 65536)))))))])
      else if opcode = bc_newarray then
        Some (go_on [vbind (vlift (get_index (v_mem v) s)) (\<lambda>index.
          vbind (vlift (get_newarray_type index)) (\<lambda>type.
            vthen (pop_stack (v_resolve v) Integer) (push_stack type)))])
      else if opcode = bc_anewarray then Some (go_on [vbind big (verify_anewarray v)])
      else if opcode = bc_arraylength then
        Some (go_on [vbind (pop_stack (v_resolve v) ReferenceQuery) (\<lambda>type.
            vcheck (type = Null \<or> is_array type) (bad_type ''arraylength'')),
          push_stack Integer])
      else if opcode = bc_checkcast then
        Some (go_on [vbind big (\<lambda>index.
          vthen (vlift (verify_cp_class_type cp index))
          (vthen (pop_stack (v_resolve v) ReferenceQuery)
          (vbind (vlift (cp_index_to_type cp index)) (\<lambda>klass_type. push_stack klass_type))))])
      else if opcode = bc_instanceof then
        Some (go_on [vbind big (\<lambda>index.
          vthen (vlift (verify_cp_class_type cp index))
          (vthen (pop_stack (v_resolve v) ReferenceQuery) (push_stack Integer)))])
      else if opcode \<in> {bc_monitorenter, bc_monitorexit} then Some (go_on [pop_one v ReferenceQuery])
      else if opcode = bc_multianewarray then
        Some (go_on [vbind big (\<lambda>index.
          vbind (vlift (bcp_u1 (v_mem v) (s_bci s + 3))) (\<lambda>dim.
          vthen (vlift (verify_cp_class_type cp index))
          (vbind (vlift (cp_index_to_type cp index)) (\<lambda>new_array_type.
           vthen (vcheck (is_array new_array_type)
             (VerifyError ''Illegal constant pool index in multianewarray instruction''))
           (vbind (vlift (dimensions new_array_type)) (\<lambda>dims.
            vthen (vcheck (\<not> (unat dim < 1 \<or> dims < unat dim))
              (VerifyError ''Illegal dimension in multianewarray instruction''))
            (vthen (vfor (\<lambda>_. pop_one v Integer) [0..<unat dim])
            (push_stack new_array_type))))))))])
      else if opcode = bc_athrow then Some (ends [pop_one v (Reference ''java/lang/Throwable'')])
      else None)"

section \<open>The switch\<close>

fun first_case :: "'a option list \<Rightarrow> 'a option" where
  "first_case [] = None"
| "first_case (Some x # xs) = Some x"
| "first_case (None # xs) = first_case xs"

text \<open>
  The result has the values of \<^verbatim>\<open>no_control_flow\<close> and \<^verbatim>\<open>this_uninit\<close> after the switch; only an invocation
  sets the latter.
\<close>

definition verify_instruction ::
  "verifier \<Rightarrow> map_table \<Rightarrow> vtype \<Rightarrow> bc_stream \<Rightarrow> int \<Rightarrow> (frame, bool \<times> bool) vm" where
  "verify_instruction v tb return_type s opcode =
     (if opcode \<in> {bc_invokevirtual, bc_invokespecial, bc_invokestatic, bc_invokeinterface} then
        vbind (verify_invoke_instructions v s) (\<lambda>this_uninit. vreturn (False, this_uninit))
      else
        (case first_case
           [switch_consts v s opcode, switch_loads v s opcode, switch_array_loads v opcode,
            switch_stores v s opcode, switch_array_stores v opcode, switch_stack v opcode,
            switch_arith v s opcode, switch_convert v opcode, switch_branch v tb s opcode,
            switch_return v return_type opcode, switch_objects v s opcode] of
           Some m \<Rightarrow> vbind m (\<lambda>no_control_flow. vreturn (no_control_flow, False))
         | None \<Rightarrow> vfail (VerifyError ''Bad instruction'')))"

section \<open>Every case keeps the frame well-formed and does not fault\<close>

lemma go_on_Nil: "fr.keeps ml ms (\<lambda>_. True) (go_on [])"
  by (simp add: go_on_def fr.keeps_return)

lemma go_on_Cons:
  "fr.keeps ml ms (\<lambda>_. True) m \<Longrightarrow> fr.keeps ml ms (\<lambda>_. True) (go_on steps) \<Longrightarrow>
   fr.keeps ml ms (\<lambda>_. True) (go_on (m # steps))"
  by (simp add: go_on_def fr.keeps_then)

lemma ends_Nil: "fr.keeps ml ms (\<lambda>_. True) (ends [])"
  by (simp add: ends_def fr.keeps_return)

lemma ends_Cons:
  "fr.keeps ml ms (\<lambda>_. True) m \<Longrightarrow> fr.keeps ml ms (\<lambda>_. True) (ends steps) \<Longrightarrow>
   fr.keeps ml ms (\<lambda>_. True) (ends (m # steps))"
  by (simp add: ends_def fr.keeps_then)

lemmas seq_intros = go_on_Nil go_on_Cons ends_Nil ends_Cons

lemma pop_one_keeps: "resolve_safe (v_resolve v) \<Longrightarrow> vtype_wf t \<Longrightarrow> fr.keeps ml ms (\<lambda>_. True) (pop_one v t)"
  unfolding pop_one_def by (intro fr.keeps_then [OF pop_stack_keeps] fr.keeps_return) auto

lemma pop_under_keeps: "resolve_safe (v_resolve v) \<Longrightarrow> fr.keeps ml ms type_ok (pop_under v t instr)"
  unfolding pop_under_def bad_type_def
  by (intro fr.keeps_if fr.keeps_fail fr.keeps_weaken [OF pop_stack_keeps]) auto

lemma switch_consts_keeps:
  assumes "verifier_ok v" and "switch_consts v s opcode = Some m"
  shows "fr.keeps ml ms (\<lambda>_. True) m"
  using assms(2)
  by (auto simp: switch_consts_def split: if_splits
      intro!: seq_intros push_stack_keeps push_stack_2_keeps fr.keeps_bind_lift verify_ldc_keeps
        verifier_okD(2) [OF assms(1)])

lemma switch_loads_keeps:
  assumes "verifier_ok v" and "switch_loads v s opcode = Some m"
  shows "fr.keeps ml ms (\<lambda>_. True) m"
  using assms(2) loads_keep [OF verifier_okD(3) [OF assms(1)]]
  by (auto simp: switch_loads_def Let_def split: if_splits intro!: seq_intros fr.keeps_bind_lift)

lemma switch_stores_keeps:
  assumes "verifier_ok v" and "switch_stores v s opcode = Some m"
  shows "fr.keeps ml ms (\<lambda>_. True) m"
  using assms(2) stores_keep [OF verifier_okD(3) [OF assms(1)]]
  by (auto simp: switch_stores_def Let_def split: if_splits intro!: seq_intros fr.keeps_bind_lift)

lemma array_load_keeps:
  assumes "resolve_safe (v_resolve v)" and "array_load v P instr push = Some m"
    and "\<And>t. type_ok t \<Longrightarrow> P t \<Longrightarrow> fr.keeps ml ms (\<lambda>_. True) (push t)"
  shows "fr.keeps ml ms (\<lambda>_. True) m"
  using assms(2)
  by (auto simp: array_load_def bad_type_def
      intro!: seq_intros pop_one_keeps fr.keeps_bind [OF pop_stack_keeps] fr.keeps_fail assms(1,3))

lemma component_push_keeps:
  assumes "type_ok t" and "is_reference_array t"
  shows "fr.keeps ml ms (\<lambda>_. True) (if t = Null then push_stack Null
    else vbind (vlift (get_component t)) (\<lambda>component. push_stack component))"
proof (cases "t = Null")
  case False
  with assms have "is_array t" by (auto simp: is_reference_array_def is_x_array_def)
  with get_component_wf [of t] assms(1) obtain c where "get_component t = Inr c" "vtype_wf c"
    by (auto simp: type_ok_def)
  with get_component_not_check [of t] have "no_fault (get_component t)"
      "\<And>c. get_component t = Inr c \<Longrightarrow> type_ok c"
    by (auto simp: type_ok_def)
  with False show ?thesis by (auto intro!: fr.keeps_bind_lift push_stack_keeps)
qed (auto intro: push_stack_keeps)

lemma switch_array_loads_keeps:
  assumes "verifier_ok v" and "switch_array_loads v opcode = Some m"
  shows "fr.keeps ml ms (\<lambda>_. True) m"
  using assms(2)
  by (auto simp: switch_array_loads_def split: if_splits
      elim!: array_load_keeps [OF verifier_okD(3) [OF assms(1)]]
      intro: push_stack_keeps push_stack_2_keeps component_push_keeps)

lemma array_store_keeps:
  assumes "resolve_safe (v_resolve v)" and "array_store v P instr pop = Some m"
    and "fr.keeps ml ms (\<lambda>_. True) pop"
  shows "fr.keeps ml ms (\<lambda>_. True) m"
  using assms(2)
  by (auto simp: array_store_def bad_type_def
      intro!: seq_intros pop_one_keeps fr.keeps_bind [OF pop_stack_keeps] keeps_check_any assms(1,3))

lemma switch_array_stores_keeps:
  assumes "verifier_ok v" and "switch_array_stores v opcode = Some m"
  shows "fr.keeps ml ms (\<lambda>_. True) m"
  using assms(2)
  by (auto simp: switch_array_stores_def split: if_splits
      elim!: array_store_keeps [OF verifier_okD(3) [OF assms(1)]]
      intro: pop_one_keeps pop_stack_2_keeps verifier_okD(3) [OF assms(1)])

lemma pop_category1_keeps: "resolve_safe r \<Longrightarrow> fr.keeps ml ms type_ok (pop_stack r Category1Query)"
  by (rule fr.keeps_weaken [OF pop_stack_keeps]) auto

lemma switch_stack_keeps:
  assumes "verifier_ok v" and "switch_stack v opcode = Some m"
  shows "fr.keeps ml ms (\<lambda>_. True) m"
proof -
  note r = verifier_okD(3) [OF assms(1)]
  show ?thesis
    using assms(2)
    by (auto simp: switch_stack_def Let_def split: if_splits
        intro!: seq_intros fr.keeps_bind [OF pop_category1_keeps [OF r]] fr.keeps_bind [OF pop_stack_any_keeps]
          fr.keeps_bind [OF pop_under_keeps [OF r]] fr.keeps_then [OF pop_under_keeps [OF r]]
          push_stack_keeps pop_one_keeps [OF r])
qed

lemma switch_arith_keeps:
  assumes "verifier_ok v" and "switch_arith v s opcode = Some m"
  shows "fr.keeps ml ms (\<lambda>_. True) m"
proof -
  note r = verifier_okD(3) [OF assms(1)]
  show ?thesis
    using assms(2)
    by (auto simp: switch_arith_def Let_def split: if_splits
        intro!: seq_intros push_stack_keeps push_stack_2_keeps pop_one_keeps [OF r] pop_stack_2_keeps [OF r]
          fr.keeps_bind_lift stores_keep(6) [OF r])
qed

lemma switch_convert_keeps:
  assumes "verifier_ok v" and "switch_convert v opcode = Some m"
  shows "fr.keeps ml ms (\<lambda>_. True) m"
proof -
  note r = verifier_okD(3) [OF assms(1)]
  show ?thesis
    using assms(2)
    by (auto simp: switch_convert_def Let_def split: if_splits
        intro!: seq_intros push_stack_keeps push_stack_2_keeps pop_one_keeps [OF r] pop_stack_2_keeps [OF r])
qed

lemma switch_branch_keeps:
  assumes "verifier_ok v" and "table_ok ml ms cd tb" and "switch_branch v tb s opcode = Some m"
  shows "fr.keeps ml ms (\<lambda>_. True) m"
proof -
  note r = verifier_okD(3) [OF assms(1)]
  show ?thesis
    using assms(3)
    by (auto simp: switch_branch_def Let_def split: if_splits
        intro!: seq_intros pop_one_keeps [OF r] fr.keeps_bind_lift check_jump_target_keeps [OF assms(2) r]
          verify_switch_keeps [OF r assms(2)])
qed

lemma switch_return_keeps:
  assumes "verifier_ok v" and "vtype_wf rt" and "switch_return v rt opcode = Some m"
  shows "fr.keeps ml ms (\<lambda>_. True) m"
proof -
  note r = verifier_okD(3) [OF assms(1)]
  show ?thesis
    using assms(3)
    by (auto simp: switch_return_def Let_def split: if_splits
        intro!: seq_intros pop_one_keeps [OF r] fr.keeps_bind [OF pop_stack_keeps [OF r]]
          verify_return_value_keeps [OF r assms(2)] keeps_check_any fr.keeps_bind_get)
qed

lemma dimensions_no_fault:
  assumes "is_array t" and "vtype_wf t"
  shows "no_fault (dimensions t)"
proof -
  from assms obtain u where t: "t = Reference (CHR ''['' # desc u)" "jtype_ok u"
    by (auto simp: is_array_def legal_class_name_def split: vtype.splits list.splits if_splits)
  obtain c cs where "desc (base u) = c # cs" "c \<noteq> CHR ''[''" using base_not_bracket [OF t(2)] by blast
  with dimensions_loop_replicate [of c "Suc (dims u)" cs 0] show ?thesis
    by (simp add: dimensions_def t(1) desc_base [of u])
qed

lemma switch_objects_keeps:
  assumes "verifier_ok v" and "s_code s = opcode" and "switch_objects v s opcode = Some m"
  shows "fr.keeps ml ms (\<lambda>_. True) m"
proof -
  note r = verifier_okD(3) [OF assms(1)] and cp = verifier_okD(1) [OF assms(1)]
  have t: "no_fault (cp_index_to_type (v_cp v) i)" "cp_index_to_type (v_cp v) i = Inr t \<Longrightarrow> type_ok t \<and> vtype_wf t"
    if "verify_cp_class_type (v_cp v) i = Inr u" for i t u
    using class_type [OF cp that] by (auto simp: type_ok_def)
  have field: "fr.keeps ml ms (\<lambda>_. True) (verify_field_instructions v s)"
    if "opcode \<in> {bc_getstatic, bc_putstatic, bc_getfield, bc_putfield}"
    using that assms(1,2) by (intro verify_field_instructions_keeps) auto
  show ?thesis
    using assms(3) field
    by (auto simp: switch_objects_def Let_def bad_type_def get_newarray_type_ok split: if_splits
        dest: t(2) intro!: seq_intros pop_one_keeps [OF r] fr.keeps_bind_lift keeps_then_lift keeps_then_check
          fr.keeps_bind [OF pop_stack_keeps [OF r]] fr.keeps_then [OF pop_stack_keeps [OF r]] t(1)
          push_stack_keeps keeps_check_any verify_anewarray_keeps [OF assms(1)] verify_cp_class_type_no_fault
          dimensions_no_fault fr.keeps_then [OF fr.keeps_for [OF pop_one_keeps [OF r]]])
qed

lemma first_case_Some: "first_case xs = Some m \<Longrightarrow> Some m \<in> set xs"
  by (induction xs rule: first_case.induct) auto

lemma verify_instruction_keeps:
  assumes v: "verifier_ok v" and tb: "table_ok ml ms cd tb" and rt: "vtype_wf rt" and s: "s_code s = opcode"
  shows "fr.keeps ml ms (\<lambda>_. True) (verify_instruction v tb rt s opcode)"
proof -
  have "fr.keeps ml ms (\<lambda>_. True) m"
    if "first_case
           [switch_consts v s opcode, switch_loads v s opcode, switch_array_loads v opcode,
            switch_stores v s opcode, switch_array_stores v opcode, switch_stack v opcode,
            switch_arith v s opcode, switch_convert v opcode, switch_branch v tb s opcode,
            switch_return v rt opcode, switch_objects v s opcode] = Some m" for m
    using first_case_Some [OF that]
    by (auto simp: eq_commute [of "Some m"]
        dest: switch_consts_keeps [OF v] switch_loads_keeps [OF v] switch_array_loads_keeps [OF v]
          switch_stores_keeps [OF v] switch_array_stores_keeps [OF v] switch_stack_keeps [OF v]
          switch_arith_keeps [OF v] switch_convert_keeps [OF v] switch_branch_keeps [OF v tb]
          switch_return_keeps [OF v rt] switch_objects_keeps [OF v s])
  then show ?thesis
    unfolding verify_instruction_def
    by (auto split: option.split intro!: fr.keeps_bind [OF verify_invoke_instructions_keeps [OF v]]
        fr.keeps_return fr.keeps_bind [where A = "\<lambda>_. True"] fr.keeps_fail)
qed

end
