(* ===== verification/VerifierMethod.thy ===== *)
theory VerifierMethod
  imports VerifierInstr
begin

text \<open>
  \<^verbatim>\<open>ClassVerifier::verify_method\<close> and what it does before and around the switch over the instructions
  (\<^verbatim>\<open>classfile/verifier.cpp\<close>): the map of the starts of instructions, the exception and local variable
  tables, the stack map at each instruction, the exception handlers in force; then
  \<^verbatim>\<open>verify_class\<close> and \<^verbatim>\<open>Verifier::verify\<close>.
\<close>

section \<open>The starts of instructions\<close>

text \<open>A measure for loops over a stream: an illegal or overflown position ends them.\<close>

definition stream_left :: "bc_stream \<Rightarrow> nat" where
  "stream_left s = (if s_next_bci s < 0 then 0 else nat (s_end_bci s - s_next_bci s) + 1)"

lemma raw_next_left:
  assumes "raw_next m s = Inr (c, s')" and "c \<noteq> bc_illegal" and "\<not> is_last_bytecode s"
  shows "stream_left s' < stream_left s"
  using raw_next_Inr [OF assms(1,2)] assms(3) by (auto simp: stream_left_def is_last_bytecode_def)

function code_data_loop :: "code_mem \<Rightarrow> bc_stream \<Rightarrow> nat list \<Rightarrow> nat list res" where
  "code_data_loop m s code_data =
     (if is_last_bytecode s then Inr code_data
      else
        rbind (raw_next m s) (\<lambda>(code, s').
          if code \<noteq> bc_illegal then
            rbind (arr_set code_data (nat (s_bci s'))
                (if s_code s' = bc_new then NEW_OFFSET else BYTECODE_OFFSET)) (\<lambda>code_data.
              code_data_loop m s' code_data)
          else Inl (VerifyError ''Bad instruction'')))"
  by pat_completeness auto
termination
  by (relation "measure (\<lambda>(m, s, cd). stream_left s)") (auto dest: raw_next_left)

declare code_data_loop.simps [simp del]

definition generate_code_data :: "meth \<Rightarrow> nat list res" where
  "generate_code_data m =
     code_data_loop (mt_mem m) (raw_stream (mt_mem m)) (replicate (length (m_code (mt_mem m))) 0)"

section \<open>The tables of the method\<close>

definition is_instruction_start :: "nat list \<Rightarrow> nat \<Rightarrow> bool res" where
  "is_instruction_start code_data pc =
     (if pc \<ge> length code_data then Inr False
      else rbind (arr_get code_data pc) (\<lambda>d. Inr (d \<noteq> 0)))"

text \<open>The special case: a range may end at the end of the code.\<close>

definition is_end_pc :: "nat list \<Rightarrow> nat \<Rightarrow> bool res" where
  "is_end_pc code_data end_pc =
     (if end_pc \<noteq> length code_data
      then (if end_pc > length code_data then Inr False else is_instruction_start code_data end_pc)
      else Inr True)"

definition is_catch_type :: "verifier \<Rightarrow> nat \<Rightarrow> bool res" where
  "is_catch_type v catch_type_index =
     (if catch_type_index \<noteq> 0 then
        rbind (cp_index_to_type (v_cp v) catch_type_index) (\<lambda>catch_type.
          is_assignable_from (v_resolve v) (Reference ''java/lang/Throwable'') catch_type)
      else Inr True)"

text \<open>The result is the range of positions that some handler covers, \<^verbatim>\<open>min\<close> and \<^verbatim>\<open>max\<close>.\<close>

fun verify_exception_handler_table ::
  "verifier \<Rightarrow> nat list \<Rightarrow> (nat \<times> nat \<times> nat \<times> nat) list \<Rightarrow> int \<Rightarrow> int \<Rightarrow> (int \<times> int) res" where
  "verify_exception_handler_table v code_data [] mn mx = Inr (mn, mx)"
| "verify_exception_handler_table v code_data ((start_pc, end_pc, handler_pc, catch_type_index) # hs) mn mx =
     rbind (is_instruction_start code_data start_pc) (\<lambda>ok.
     if \<not> ok then Inl (ClassFormatError ''Illegal exception table start_pc'')
     else
     rbind (is_end_pc code_data end_pc) (\<lambda>ok.
     if \<not> ok then Inl (ClassFormatError ''Illegal exception table end_pc'')
     else
     rbind (is_instruction_start code_data handler_pc) (\<lambda>ok.
     if \<not> ok then Inl (ClassFormatError ''Illegal exception table handler_pc'')
     else
     rbind (is_catch_type v catch_type_index) (\<lambda>is_subclass.
     if \<not> is_subclass then Inl (VerifyError ''Catch type is not a subclass of Throwable in handler'')
     else
       verify_exception_handler_table v code_data hs
         (if int start_pc < mn then int start_pc else mn)
         (if int end_pc > mx then int end_pc else mx)))))"

fun verify_local_variable_table :: "nat list \<Rightarrow> (nat \<times> nat) list \<Rightarrow> unit res" where
  "verify_local_variable_table code_data [] = Inr ()"
| "verify_local_variable_table code_data ((start_bci, len) # ts) =
     rbind (is_instruction_start code_data start_bci) (\<lambda>ok.
     if \<not> ok then Inl (ClassFormatError ''Illegal local variable table start_pc'')
     else
     rbind (if start_bci + len \<noteq> length code_data then is_instruction_start code_data (start_bci + len)
            else Inr True) (\<lambda>ok.
     if \<not> ok then Inl (ClassFormatError ''Illegal local variable table length'')
     else verify_local_variable_table code_data ts))"

section \<open>The stack map at an instruction\<close>

text \<open>The index stays below the number of frames, a \<open>u2\<close>; offsets are converted to \<open>u2\<close>.\<close>

definition verify_stackmap_table :: "verifier \<Rightarrow> map_table \<Rightarrow> nat \<Rightarrow> int \<Rightarrow> bool \<Rightarrow> (frame, nat) vm" where
  "verify_stackmap_table v tb stackmap_index bci no_control_flow =
     (if stackmap_index < length (tb_frames tb) then
        vbind (vlift (arr_get (tb_frames tb) stackmap_index)) (\<lambda>fr.
          let this_offset = f_offset fr mod 65536 in
          if no_control_flow \<and> this_offset > bci then vfail (VerifyError ''Expecting a stack map frame'')
          else if this_offset = bci then
            vbind (match_stackmap_at (v_resolve v) tb (int stackmap_index) (\<not> no_control_flow) True) (\<lambda>match.
              if \<not> match then vfail (VerifyError ''Instruction type does not match stack map'')
              else vreturn (stackmap_index + 1))
          else if this_offset < bci then vfail (ClassFormatError ''Bad stack map offset'')
          else vreturn stackmap_index)
      else if no_control_flow then vfail (VerifyError ''Expecting a stack map frame'')
      else vreturn stackmap_index)"

fun verify_handlers ::
  "verifier \<Rightarrow> map_table \<Rightarrow> int \<Rightarrow> bool \<Rightarrow> frame \<Rightarrow> (nat \<times> nat \<times> nat \<times> nat) list \<Rightarrow> unit res" where
  "verify_handlers v tb bci this_uninit f [] = Inr ()"
| "verify_handlers v tb bci this_uninit f ((start_pc, end_pc, handler_pc, catch_type_index) # hs) =
     rbind
       (if bci \<ge> int start_pc \<and> bci < int end_pc then
          (let flags = (if this_uninit then f_flags f OR FLAG_THIS_UNINIT else f_flags f);
               new_frame = frame_in_exception_handler f flags in
           rbind (if catch_type_index \<noteq> 0 then cp_index_to_type (v_cp v) catch_type_index
                  else Inr (Reference ''java/lang/Throwable'')) (\<lambda>catch_type.
           rbind (push_stack catch_type new_frame) (\<lambda>(_, new_frame).
           rbind (match_stackmap (v_resolve v) tb (int handler_pc) True False new_frame) (\<lambda>(match, _).
             if \<not> match then Inl (VerifyError ''Stack map does not match the one at exception handler'')
             else Inr ()))))
        else Inr ())
       (\<lambda>_. verify_handlers v tb bci this_uninit f hs)"

definition verify_exception_handler_targets ::
  "verifier \<Rightarrow> map_table \<Rightarrow> int \<Rightarrow> bool \<Rightarrow> (frame, unit) vm" where
  "verify_exception_handler_targets v tb bci this_uninit = (\<lambda>f.
     rbind (verify_handlers v tb bci this_uninit f (mt_exception_table (v_method v))) (\<lambda>_. Inr ((), f)))"

section \<open>The loop over the instructions\<close>

text \<open>The variables that change from one round of the loop to the next.\<close>

record vstate =
  vs_stream :: bc_stream
  vs_index :: nat
  vs_no_control_flow :: bool
  vs_frame :: frame

text \<open>What stays the same: the stack map table, the result type and the range of the handlers.\<close>

record venv =
  ve_table :: map_table
  ve_return :: vtype
  ve_ex_min :: int
  ve_ex_max :: int

definition wide_ok :: "int \<Rightarrow> bool" where
  "wide_ok opcode \<longleftrightarrow> opcode \<in> {bc_iinc, bc_iload, bc_aload, bc_lload, bc_istore, bc_astore, bc_lstore,
     bc_fload, bc_dload, bc_fstore, bc_dstore}"

text \<open>One round of the loop.\<close>

definition verify_step :: "verifier \<Rightarrow> venv \<Rightarrow> vstate \<Rightarrow> vstate res" where
  "verify_step v env st =
     rbind (raw_next (v_mem v) (vs_stream st)) (\<lambda>(opcode, s).
     let bci = s_bci s mod 65536; tb = ve_table env in
     rbind (vbind (verify_stackmap_table v tb (vs_index st) bci (vs_no_control_flow st)) (\<lambda>index.
            vthen (vcheck (\<not> (s_is_wide s \<and> \<not> wide_ok opcode)) (VerifyError ''Bad wide instruction''))
            (vbind (verify_instruction v tb (ve_return env) s opcode) (\<lambda>(no_control_flow, this_uninit).
             vthen (if bci \<ge> ve_ex_min env \<and> bci < ve_ex_max env
                    then verify_exception_handler_targets v tb bci this_uninit else vreturn ())
             (vreturn (index, no_control_flow)))))
        ((vs_frame st)\<lparr> f_offset := bci \<rparr>))
       (\<lambda>((index, no_control_flow), f).
          Inr \<lparr> vs_stream = s, vs_index = index, vs_no_control_flow = no_control_flow, vs_frame = f \<rparr>))"

lemma illegal_instruction: "verify_instruction v tb rt s bc_illegal f = Inl (VerifyError ''Bad instruction'')"
  by (simp add: verify_instruction_def switch_consts_def switch_loads_def switch_array_loads_def
      switch_stores_def switch_array_stores_def switch_stack_def switch_arith_def switch_convert_def
      switch_branch_def switch_return_def switch_objects_def Let_def vfail_def)

text \<open>The parts of a round that succeeds.\<close>

definition step_parts ::
  "verifier \<Rightarrow> venv \<Rightarrow> vstate \<Rightarrow> int \<Rightarrow> bc_stream \<Rightarrow> nat \<Rightarrow> frame \<Rightarrow> bool \<Rightarrow> bool \<Rightarrow> frame \<Rightarrow> bool" where
  "step_parts v env st opcode s index f1 ncf tu f2 \<longleftrightarrow>
     raw_next (v_mem v) (vs_stream st) = Inr (opcode, s) \<and>
     verify_stackmap_table v (ve_table env) (vs_index st) (s_bci s mod 65536) (vs_no_control_flow st)
       ((vs_frame st)\<lparr> f_offset := s_bci s mod 65536 \<rparr>) = Inr (index, f1) \<and>
     (s_is_wide s \<longrightarrow> wide_ok opcode) \<and>
     verify_instruction v (ve_table env) (ve_return env) s opcode f1 = Inr ((ncf, tu), f2) \<and>
     (ve_ex_min env \<le> s_bci s mod 65536 \<and> s_bci s mod 65536 < ve_ex_max env \<longrightarrow>
        verify_handlers v (ve_table env) (s_bci s mod 65536) tu f2 (mt_exception_table (v_method v)) = Inr ())"

lemma verify_step_Inr:
  assumes "verify_step v env st = Inr st'"
  obtains opcode s index f1 ncf tu f2 where "step_parts v env st opcode s index f1 ncf tu f2"
    and "st' = \<lparr> vs_stream = s, vs_index = index, vs_no_control_flow = ncf, vs_frame = f2 \<rparr>"
proof -
  obtain opcode s where n: "raw_next (v_mem v) (vs_stream st) = Inr (opcode, s)"
    using assms by (auto simp: verify_step_def)
  obtain index f1 ncf tu f2 f3
    where p: "verify_stackmap_table v (ve_table env) (vs_index st) (s_bci s mod 65536) (vs_no_control_flow st)
       ((vs_frame st)\<lparr> f_offset := s_bci s mod 65536 \<rparr>) = Inr (index, f1)" "s_is_wide s \<longrightarrow> wide_ok opcode"
      "verify_instruction v (ve_table env) (ve_return env) s opcode f1 = Inr ((ncf, tu), f2)"
    and h: "(if s_bci s mod 65536 \<ge> ve_ex_min env \<and> s_bci s mod 65536 < ve_ex_max env
        then verify_exception_handler_targets v (ve_table env) (s_bci s mod 65536) tu else vreturn ()) f2 = Inr ((), f3)"
    and st': "st' = \<lparr> vs_stream = s, vs_index = index, vs_no_control_flow = ncf, vs_frame = f3 \<rparr>"
    using assms n by (auto simp: verify_step_def vm_Inr Let_def)
  from h have "f3 = f2" by (auto simp: verify_exception_handler_targets_def vreturn_def split: if_splits)
  moreover have "verify_handlers v (ve_table env) (s_bci s mod 65536) tu f2 (mt_exception_table (v_method v)) = Inr ()"
    if "ve_ex_min env \<le> s_bci s mod 65536 \<and> s_bci s mod 65536 < ve_ex_max env"
    using h that by (auto simp: verify_exception_handler_targets_def)
  ultimately show ?thesis
    using n p st' that by (simp add: step_parts_def)
qed

lemma verify_step_left:
  assumes "verify_step v env st = Inr st'" and "\<not> is_last_bytecode (vs_stream st)"
  shows "stream_left (vs_stream st') < stream_left (vs_stream st)"
proof -
  from assms(1) obtain opcode s index f1 ncf tu f2 where p: "step_parts v env st opcode s index f1 ncf tu f2"
    and s: "st' = \<lparr> vs_stream = s, vs_index = index, vs_no_control_flow = ncf, vs_frame = f2 \<rparr>"
    by (rule verify_step_Inr)
  from p have "opcode \<noteq> bc_illegal" by (auto simp: step_parts_def illegal_instruction)
  with p s assms(2) show ?thesis by (auto simp: step_parts_def dest: raw_next_left)
qed

function verify_loop :: "verifier \<Rightarrow> venv \<Rightarrow> vstate \<Rightarrow> vstate res" where
  "verify_loop v env st =
     (if is_last_bytecode (vs_stream st) then Inr st
      else rbind (verify_step v env st) (\<lambda>st'. verify_loop v env st'))"
  by pat_completeness auto
termination
  by (relation "measure (\<lambda>(v, env, st). stream_left (vs_stream st))") (auto dest: verify_step_left)

declare verify_loop.simps [simp del]

section \<open>Methods and classes\<close>

text \<open>What \<^verbatim>\<open>verify_method\<close> sets up before the loop.\<close>

definition verify_setup :: "verifier \<Rightarrow> (venv \<times> vstate) res" where
  "verify_setup v =
     (let m = v_method v; max_stack = mt_max_stack m; max_locals = mt_max_locals m in
      if \<not> is_valid_method_signature (mt_signature m) then Inl (ClassFormatError ''Invalid method signature'')
      else
        rbind (set_locals_from_arg m (current_type v) (stack_map_frame max_locals max_stack)) (\<lambda>(return_type, frame).
        rbind (generate_code_data m) (\<lambda>code_data.
        let code_length = length (m_code (mt_mem m)) in
        rbind (verify_exception_handler_table v code_data (mt_exception_table m) (int code_length) (- 1)) (\<lambda>(mn, mx).
        rbind (verify_local_variable_table code_data (mt_localvariable_table m)) (\<lambda>_.
        rbind (stack_map_table m \<lparr> rd_cp = v_cp v, rd_code_data = code_data, rd_code_length = code_length \<rparr>
                 frame max_locals max_stack) (\<lambda>table.
          Inr (\<lparr> ve_table = table, ve_return = return_type, ve_ex_min = mn, ve_ex_max = mx \<rparr>,
               \<lparr> vs_stream = raw_stream (mt_mem m), vs_index = 0, vs_no_control_flow = False,
                 vs_frame = frame \<rparr>)))))))"

definition verify_method :: "verifier \<Rightarrow> unit res" where
  "verify_method v =
     rbind (verify_setup v) (\<lambda>(env, st).
     rbind (verify_loop v env st) (\<lambda>st.
       if \<not> vs_no_control_flow st then Inl (VerifyError ''Control flow falls through code end'') else Inr ()))"

text \<open>A class: what is fixed for its methods, and the methods with a body to verify.\<close>

fun verify_class :: "verifier \<Rightarrow> meth list \<Rightarrow> unit res" where
  "verify_class v [] = Inr ()"
| "verify_class v (m # ms) =
     (if mt_is_native m \<or> mt_is_abstract m then verify_class v ms
      else rbind (verify_method (v\<lparr> v_method := m \<rparr>)) (\<lambda>_. verify_class v ms))"

section \<open>The entry point\<close>

text \<open>The flags of the VM that \<^verbatim>\<open>Verifier\<close> reads.\<close>

record vm_flags =
  BytecodeVerificationLocal :: bool
  BytecodeVerificationRemote :: bool
  UseSplitVerifier :: bool
  FailOverToOldVerifier :: bool
  VerifyReflectionBytecodes :: bool

definition should_verify_for :: "vm_flags \<Rightarrow> nat option \<Rightarrow> bool" where
  "should_verify_for fl class_loader =
     (if class_loader = None then BytecodeVerificationLocal fl else BytecodeVerificationRemote fl)"

definition relax_verify_for :: "vm_flags \<Rightarrow> bool \<Rightarrow> bool" where
  "relax_verify_for fl trusted =
     (let need_verify =
        (BytecodeVerificationLocal fl \<and> BytecodeVerificationRemote fl) \<or>
        (\<not> BytecodeVerificationLocal fl \<and> BytecodeVerificationRemote fl \<and> \<not> trusted) in
      \<not> need_verify)"

text \<open>
  A class to verify with what is asked of it outside of this model: whether it comes from the
  shared archive, its version, its methods, and whether it is a subtype of the class for the
  accessors of reflection.
\<close>

record class_file =
  cf_klass :: klass
  cf_is_shared :: bool
  cf_major_version :: nat
  cf_is_magic :: bool
  cf_methods :: "meth list"
  cf_verifier :: verifier

definition is_eligible_for_verification :: "vm_flags \<Rightarrow> class_file \<Rightarrow> bool" where
  "is_eligible_for_verification fl c =
     (let name = k_name (cf_klass c) in
      should_verify_for fl (k_loader (cf_klass c)) \<and>
      name \<noteq> ''java/lang/Object'' \<and> name \<noteq> ''java/lang/Class'' \<and>
      name \<noteq> ''java/lang/String'' \<and> name \<noteq> ''java/lang/Throwable'' \<and>
      \<not> cf_is_shared c \<and>
      (\<not> cf_is_magic c \<or> VerifyReflectionBytecodes fl))"

text \<open>
  The old verifier is native code: \<open>native\<close> is its result, and \<open>None\<close> when the library could not be linked.
\<close>

definition inference_verify :: "int option \<Rightarrow> unit res" where
  "inference_verify native =
     (case native of
        None \<Rightarrow> Inl (VerifyError ''Could not link verifier'')
      | Some result \<Rightarrow>
          if result = 0 then Inl (VerifyError ''libverify'')
          else if result = 1 then Inr ()
          else if result = 2 then Inl (Pending ''OutOfMemoryError'')
          else if result = 3 then Inl (ClassFormatError ''libverify'')
          else Inl (Fault ''ShouldNotReachHere''))"

definition STACKMAP_ATTRIBUTE_MAJOR_VERSION :: nat where "STACKMAP_ATTRIBUTE_MAJOR_VERSION = 50"

fun is_verification_error :: "verr \<Rightarrow> bool" where
  "is_verification_error (VerifyError m) = True"
| "is_verification_error (ClassFormatError m) = True"
| "is_verification_error e = False"

definition run_verifiers :: "vm_flags \<Rightarrow> class_file \<Rightarrow> int option \<Rightarrow> unit res" where
  "run_verifiers fl c native =
     (if UseSplitVerifier fl \<and> cf_major_version c \<ge> STACKMAP_ATTRIBUTE_MAJOR_VERSION then
        (case verify_class (cf_verifier c) (cf_methods c) of
           Inr u \<Rightarrow> Inr u
         | Inl e \<Rightarrow> if FailOverToOldVerifier fl \<and> is_verification_error e then inference_verify native else Inl e)
      else inference_verify native)"

text \<open>
  An error becomes an exception of its class. When the class under verification is this
  exception class or a superclass of it, the preallocated error of the VM is thrown instead.
\<close>

definition verification_failure :: "class_file \<Rightarrow> (string \<Rightarrow> klass res) \<Rightarrow> verr \<Rightarrow> verr" where
  "verification_failure c resolve e =
     (let exception_name = (case e of VerifyError m \<Rightarrow> ''java/lang/VerifyError'' | _ \<Rightarrow> ''java/lang/ClassFormatError'') in
      case resolve exception_name of
        Inl e' \<Rightarrow> e'
      | Inr kls \<Rightarrow> if is_subclass_of kls (cf_klass c) then Pending ''virtual_machine_error_instance'' else e)"

definition verify :: "vm_flags \<Rightarrow> (string \<Rightarrow> klass res) \<Rightarrow> class_file \<Rightarrow> int option \<Rightarrow> unit res" where
  "verify fl resolve c native =
     (if is_eligible_for_verification fl c then
        (case run_verifiers fl c native of
           Inr u \<Rightarrow> Inr u
         | Inl e \<Rightarrow> Inl (if is_verification_error e then verification_failure c resolve e else e))
      else Inr ())"

end
