(* ===== verification/VerifierSafe.thy ===== *)
theory VerifierSafe
  imports VerifierMethod
begin

text \<open>
  The outcomes of the verifier: for a class that the parser has accepted, verification
  reads and writes inside of arrays, dereferences no null pointer and does not run into
  \<^verbatim>\<open>ShouldNotReachHere\<close>, apart from the unguarded places that the model names and from the reads behind the code
  and behind the table of lengths, whose values are parameters of the model.
\<close>

section \<open>What the parser guarantees for a method\<close>

definition method_wf :: "verifier \<Rightarrow> bool" where
  "method_wf v \<longleftrightarrow>
     length (m_code (v_mem v)) \<le> 65535 \<and>
     (\<exists>ps r. list_all jtype_ok ps \<and> ret_ok r \<and> mt_signature (v_method v) = method_desc ps r \<and>
        length (entry_this (v_method v) (current_type v)) + length (args_vtypes ps) \<le> mt_max_locals (v_method v)) \<and>
     list_all (\<lambda>(start_pc, end_pc, handler_pc, c). c = 0 \<or> is_class_entry (v_cp v) c) (mt_exception_table (v_method v))"

section \<open>Starts of instructions\<close>

lemma code_data_loop_ok:
  assumes "s_end_bci s = int (length cd)"
  shows "no_fault (code_data_loop m s cd) \<and> (\<forall>cd'. code_data_loop m s cd = Inr cd' \<longrightarrow> length cd' = length cd)"
  using assms
proof (induction m s cd rule: code_data_loop.induct)
  case (1 m s cd)
  show ?case
  proof (cases "is_last_bytecode s")
    case True
    then show ?thesis by (simp add: code_data_loop.simps)
  next
    case False
    show ?thesis
    proof (cases "\<exists>c s'. raw_next m s = Inr (c, s') \<and> c \<noteq> bc_illegal")
      case True
      then obtain c s' where n: "raw_next m s = Inr (c, s')" "c \<noteq> bc_illegal" by blast
      note r = raw_next_Inr [OF n]
      let ?cd = "cd[nat (s_bci s') := if s_code s' = bc_new then NEW_OFFSET else BYTECODE_OFFSET]"
      have i: "nat (s_bci s') < length cd" using r False "1.prems" by (auto simp: is_last_bytecode_def)
      have eq: "code_data_loop m s cd = code_data_loop m s' ?cd"
        using False n i by (subst code_data_loop.simps) simp
      have "no_fault (code_data_loop m s' ?cd) \<and> (\<forall>cd'. code_data_loop m s' ?cd = Inr cd' \<longrightarrow> length cd' = length ?cd)"
        by (rule "1.IH" [OF False n(1) refl n(2)]) (use i r "1.prems" in auto)
      with eq show ?thesis by simp
    next
      case illegal: False
      then have "code_data_loop m s cd = rbind (raw_next m s) (\<lambda>_. Inl (VerifyError ''Bad instruction''))"
        using False by (subst code_data_loop.simps) (auto intro!: rbind_cong)
      then show ?thesis using raw_next_no_fault [of m s] by (cases "raw_next m s") auto
    qed
  qed
qed

lemma generate_code_data_ok:
  "no_fault (generate_code_data m)" "generate_code_data m = Inr cd \<Longrightarrow> length cd = length (m_code (mt_mem m))"
  using code_data_loop_ok [of "raw_stream (mt_mem m)" "replicate (length (m_code (mt_mem m))) 0" "mt_mem m"]
  by (auto simp: generate_code_data_def raw_stream_def)

section \<open>The tables\<close>

lemma is_instruction_start_no_fault: "no_fault (is_instruction_start cd pc)"
  by (auto simp: is_instruction_start_def)

lemma is_end_pc_no_fault: "no_fault (is_end_pc cd pc)"
  by (simp add: is_end_pc_def is_instruction_start_no_fault)

lemma is_catch_type_no_fault:
  assumes "verifier_ok v" and "c = 0 \<or> is_class_entry (v_cp v) c"
  shows "no_fault (is_catch_type v c)"
  using assms(2) class_entry_type [of "v_cp v" c]
  by (auto simp: is_catch_type_def intro!: assignable_no_fault [OF assms(1)])

lemma verify_exception_handler_table_no_fault:
  assumes "verifier_ok v"
  shows "list_all (\<lambda>(start_pc, end_pc, handler_pc, c). c = 0 \<or> is_class_entry (v_cp v) c) hs \<Longrightarrow>
    no_fault (verify_exception_handler_table v cd hs mn mx)"
proof (induction hs arbitrary: mn mx)
  case (Cons h hs)
  obtain a b pc c where h: "h = (a, b, pc, c)" by (cases h)
  with Cons.prems have "no_fault (is_catch_type v c)" by (intro is_catch_type_no_fault [OF assms]) auto
  with Cons show ?case
    unfolding h by (auto intro!: no_fault_rbind is_instruction_start_no_fault is_end_pc_no_fault simp del: if_split)
qed simp

lemma verify_local_variable_table_no_fault: "no_fault (verify_local_variable_table cd ts)"
proof (induction cd ts rule: verify_local_variable_table.induct)
  case (2 cd start_bci len ts)
  then show ?case by (auto intro!: no_fault_rbind is_instruction_start_no_fault)
qed simp

section \<open>One round of the loop\<close>

lemma verify_stackmap_table_keeps:
  assumes "table_ok ml ms cd tb" and "resolve_safe (v_resolve v)"
  shows "fr.keeps ml ms (\<lambda>_. True) (verify_stackmap_table v tb i bci ncf)"
  unfolding verify_stackmap_table_def Let_def
  by (intro fr.keeps_if fr.keeps_bind_lift fr.keeps_return fr.keeps_fail
      fr.keeps_bind [OF match_stackmap_at_keeps [OF assms]]) auto

text \<open>The frame at an exception handler has a stack of one element, whatever the method declares.\<close>

lemma handler_match_no_fault:
  assumes r: "resolve_safe r" and f: "frame_ok ml ms f" and tb: "table_ok ml ms cd tb" and t: "type_ok t"
    and p: "push_stack t (frame_in_exception_handler f fl) = Inr (u, g)"
  shows "no_fault (match_stackmap r tb pc True False g)"
proof -
  have g: "f_locals g = f_locals f" "f_stack g = [t]" "f_stack_size g = 1" "f_max_locals g = ml"
    using p f by (auto simp: push_stack_def frame_in_exception_handler_def frame_ok_def split: if_splits)
  let ?i = "get_index_from_offset tb pc"
  show ?thesis
  proof (cases "?i < length (tb_frames tb)")
    case True
    let ?h = "tb_frames tb ! ?i"
    have h: "table_frame_ok ml ms ?h" using table_ok_frame [OF tb] True by simp
    have "no_fault (types_assignable_to r (f_locals g) (f_locals ?h) (f_locals_size ?h))"
      by (rule types_assignable_to_no_fault [OF r])
        (use f g h in \<open>auto simp: frame_ok_def table_frame_ok_def intro: list_all_take\<close>)
    moreover have "no_fault (types_assignable_to r (f_stack g) (f_stack ?h) (f_stack_size g))"
      if "f_stack_size g = f_stack_size ?h"
      by (rule types_assignable_to_no_fault [OF r])
        (use g h t that in \<open>auto simp: table_frame_ok_def\<close>)
    ultimately have "no_fault (is_assignable_to r g ?h)"
      by (auto simp: is_assignable_to_def Let_def intro!: no_fault_rbind)
    with True show ?thesis by (auto simp: match_stackmap_def match_stackmap_at_def intro!: no_fault_rbind)
  qed (simp add: match_stackmap_def match_stackmap_at_def)
qed

lemma push_handler_no_fault: "frame_ok ml ms f \<Longrightarrow> no_fault (push_stack t (frame_in_exception_handler f fl))"
  by (auto simp: push_stack_def frame_in_exception_handler_def intro!: no_fault_rbind)

lemma verify_handlers_no_fault:
  assumes v: "verifier_ok v" and tb: "table_ok ml ms cd tb" and f: "frame_ok ml ms f"
  shows "list_all (\<lambda>(start_pc, end_pc, handler_pc, c). c = 0 \<or> is_class_entry (v_cp v) c) hs \<Longrightarrow>
    no_fault (verify_handlers v tb bci tu f hs)"
proof (induction hs)
  case (Cons h hs)
  obtain a b pc c where h: "h = (a, b, pc, c)" by (cases h)
  let ?ct = "if c \<noteq> 0 then cp_index_to_type (v_cp v) c else Inr (Reference ''java/lang/Throwable'')"
  obtain t where t: "?ct = Inr t" "type_ok t"
    using Cons.prems h class_entry_type [of "v_cp v" c] by (cases "c = 0") auto
  have m: "no_fault (match_stackmap (v_resolve v) tb (int pc) True False g)"
    if "push_stack t (frame_in_exception_handler f fl) = Inr (u, g)" for fl u g
    by (rule handler_match_no_fault [OF verifier_okD(3) [OF v] f tb t(2) that])
  show ?case
    unfolding h verify_handlers.simps t(1) Let_def
    by (rule no_fault_rbind)
      (use m Cons push_handler_no_fault [OF f] in \<open>auto intro!: no_fault_rbind simp: h split: if_splits\<close>)
qed simp

lemma verify_exception_handler_targets_keeps:
  assumes v: "verifier_ok v" "method_wf v" and tb: "table_ok ml ms cd tb"
  shows "fr.keeps ml ms (\<lambda>_. True) (verify_exception_handler_targets v tb bci tu)"
proof (rule fr.keepsI)
  fix f e
  assume "frame_ok ml ms f" and "verify_exception_handler_targets v tb bci tu f = Inl e"
  then show "\<not> is_fault e"
    using verify_handlers_no_fault [OF v(1) tb, of f "mt_exception_table (v_method v)" bci tu] v(2)
    by (auto simp: verify_exception_handler_targets_def method_wf_def rbind_eq_Inl)
qed (auto simp: verify_exception_handler_targets_def)

lemma verify_instruction_keeps_any:
  assumes v: "verifier_ok v" and tb: "table_ok ml ms cd tb" and rt: "vtype_wf rt"
    and n: "raw_next m s0 = Inr (opcode, s)"
  shows "fr.keeps ml ms (\<lambda>_. True) (verify_instruction v tb rt s opcode)"
proof (cases "opcode = bc_illegal")
  case True
  then show ?thesis by (intro fr.keepsI) (auto simp: illegal_instruction)
next
  case False
  with raw_next_Inr [OF n] show ?thesis by (intro verify_instruction_keeps [OF v tb rt]) auto
qed

definition env_ok :: "nat \<Rightarrow> nat \<Rightarrow> nat list \<Rightarrow> venv \<Rightarrow> bool" where
  "env_ok ml ms cd env \<longleftrightarrow> table_ok ml ms cd (ve_table env) \<and> vtype_wf (ve_return env)"

lemma verify_step_ok:
  assumes v: "verifier_ok v" "method_wf v" and env: "env_ok ml ms cd env" and f: "frame_ok ml ms (vs_frame st)"
  shows "no_fault (verify_step v env st)" "verify_step v env st = Inr st' \<Longrightarrow> frame_ok ml ms (vs_frame st')"
proof -
  have tb: "table_ok ml ms cd (ve_table env)" and rt: "vtype_wf (ve_return env)"
    using env by (auto simp: env_ok_def)
  let ?prog = "\<lambda>opcode s. vbind (verify_stackmap_table v (ve_table env) (vs_index st) (s_bci s mod 65536) (vs_no_control_flow st)) (\<lambda>index.
            vthen (vcheck (\<not> (s_is_wide s \<and> \<not> wide_ok opcode)) (VerifyError ''Bad wide instruction''))
            (vbind (verify_instruction v (ve_table env) (ve_return env) s opcode) (\<lambda>(no_control_flow, this_uninit).
             vthen (if s_bci s mod 65536 \<ge> ve_ex_min env \<and> s_bci s mod 65536 < ve_ex_max env
                    then verify_exception_handler_targets v (ve_table env) (s_bci s mod 65536) this_uninit else vreturn ())
             (vreturn (index, no_control_flow)))))"
  have k: "fr.keeps ml ms (\<lambda>_. True) (?prog opcode s)" if "raw_next (v_mem v) (vs_stream st) = Inr (opcode, s)" for opcode s
    by (intro fr.keeps_bind [OF verify_stackmap_table_keeps [OF tb verifier_okD(3) [OF v(1)]]] keeps_then_check
        fr.keeps_bind [OF verify_instruction_keeps_any [OF v(1) tb rt that]])
      (auto intro!: fr.keeps_then [OF fr.keeps_return [where A = "\<lambda>_. True"]] fr.keeps_return
        fr.keeps_then [OF verify_exception_handler_targets_keeps [OF v tb]])
  have f': "frame_ok ml ms ((vs_frame st)\<lparr> f_offset := b \<rparr>)" for b using f by (simp add: frame_ok_def)
  show "no_fault (verify_step v env st)"
    unfolding verify_step_def Let_def
    using fr.keeps_no_fault [OF k f'] by (intro no_fault_rbind raw_next_no_fault) (auto intro!: no_fault_rbind)
  show "frame_ok ml ms (vs_frame st')" if "verify_step v env st = Inr st'"
    using that fr.keeps_Inr [OF k f'] unfolding verify_step_def Let_def by auto
qed

lemma verify_loop_ok:
  assumes v: "verifier_ok v" "method_wf v" and env: "env_ok ml ms cd env"
  shows "frame_ok ml ms (vs_frame st) \<Longrightarrow> no_fault (verify_loop v env st)"
  using assms
proof (induction v env st rule: verify_loop.induct)
  case (1 v env st)
  note step = verify_step_ok [OF "1.prems"(2-4,1)]
  show ?case
  proof (cases "is_last_bytecode (vs_stream st)")
    case True
    then show ?thesis by (simp add: verify_loop.simps)
  next
    case False
    then show ?thesis
      by (subst verify_loop.simps) (use "1.IH" [OF False] step "1.prems" in auto)
  qed
qed

section \<open>Methods\<close>

lemma verify_setup_ok:
  assumes v: "verifier_ok v" "method_wf v"
  shows "no_fault (verify_setup v)"
    and "verify_setup v = Inr (env, st) \<Longrightarrow> \<exists>cd. generate_code_data (v_method v) = Inr cd \<and>
      env_ok (mt_max_locals (v_method v)) (mt_max_stack (v_method v)) cd env \<and>
      frame_ok (mt_max_locals (v_method v)) (mt_max_stack (v_method v)) (vs_frame st) \<and>
      vs_stream st = raw_stream (v_mem v) \<and> vs_index st = 0 \<and> \<not> vs_no_control_flow st"
proof -
  let ?m = "v_method v"
  from v(2) obtain ps r where d: "mt_signature ?m = method_desc ps r" "list_all jtype_ok ps" "ret_ok r"
      "length (entry_this ?m (current_type v)) + length (args_vtypes ps) \<le> mt_max_locals ?m"
    by (auto simp: method_wf_def)
  obtain f where f: "set_locals_from_arg ?m (current_type v) (stack_map_frame (mt_max_locals ?m) (mt_max_stack ?m)) =
      Inr (method_ret_vtype r, f)" "frame_ok (mt_max_locals ?m) (mt_max_stack ?m) f" "vtype_wf (method_ret_vtype r)"
    using entry_frame_ok [OF d(1,2,3) d(4) verifier_okD(5,6) [OF v(1)], of "mt_max_stack ?m"] by blast
  have ex: "no_fault (verify_exception_handler_table v cd (mt_exception_table ?m) mn mx)" for cd mn mx
    using v(2) by (intro verify_exception_handler_table_no_fault [OF v(1)]) (auto simp: method_wf_def)
  have rd: "reader_ok \<lparr> rd_cp = v_cp v, rd_code_data = cd, rd_code_length = length (m_code (v_mem v)) \<rparr>"
    if "generate_code_data ?m = Inr cd" for cd
    using generate_code_data_ok(2) [OF that] verifier_okD(1) [OF v(1)] by (simp add: reader_ok_def)
  note tb = stack_map_table_ok [OF rd f(2)]
  show "no_fault (verify_setup v)"
    unfolding verify_setup_def Let_def f(1)
    using tb(1) by (auto intro!: no_fault_rbind generate_code_data_ok(1) ex verify_local_variable_table_no_fault)
  show "\<exists>cd. generate_code_data ?m = Inr cd \<and>
      env_ok (mt_max_locals ?m) (mt_max_stack ?m) cd env \<and> frame_ok (mt_max_locals ?m) (mt_max_stack ?m) (vs_frame st) \<and>
      vs_stream st = raw_stream (v_mem v) \<and> vs_index st = 0 \<and> \<not> vs_no_control_flow st"
    if "verify_setup v = Inr (env, st)"
    using that tb(2) f(2,3) unfolding verify_setup_def Let_def f(1)
    by (auto simp: env_ok_def split: if_splits)
qed

lemma verify_method_safe:
  assumes "verifier_ok v" "method_wf v"
  shows "no_fault (verify_method v)"
  unfolding verify_method_def
  using verify_setup_ok [OF assms] verify_loop_ok [OF assms]
  by (auto intro!: no_fault_rbind)

lemma verify_class_safe:
  assumes "verifier_ok v" and "list_all (\<lambda>m. mt_is_native m \<or> mt_is_abstract m \<or> method_wf (v\<lparr> v_method := m \<rparr>)) ms"
  shows "no_fault (verify_class v ms)"
  using assms(2)
proof (induction ms)
  case (Cons m ms)
  have "verifier_ok (v\<lparr> v_method := m \<rparr>)" using assms(1) by (simp add: verifier_ok_def)
  with Cons show ?case by (auto intro!: no_fault_rbind verify_method_safe)
qed simp

end
