(* ===== verification/VerifierSound.thy ===== *)
theory VerifierSound
  imports VerifierSafe
begin

text \<open>
  What acceptance by \<^verbatim>\<open>verify_method\<close> means: there is an assignment of a frame to every instruction, the
  method type, such that each instruction is applicable to its frame and the frame it leaves is
  assignable to the frames of all its successors: the next instruction, the targets of its
  jumps and the exception handlers that cover it. The frames at the offsets of the stack map
  table are those of the table.
\<close>

section \<open>The instructions of a method\<close>

text \<open>\<open>instr_at m s t\<close>: from position \<open>s\<close>, the stream delivers an instruction and is then in \<open>t\<close>.\<close>

inductive instr_at :: "code_mem \<Rightarrow> bc_stream \<Rightarrow> bc_stream \<Rightarrow> bool" for m where
  here: "\<not> is_last_bytecode s \<Longrightarrow> raw_next m s = Inr (c, t) \<Longrightarrow> c \<noteq> bc_illegal \<Longrightarrow> instr_at m s t"
| later: "\<not> is_last_bytecode s \<Longrightarrow> raw_next m s = Inr (c, s') \<Longrightarrow> c \<noteq> bc_illegal \<Longrightarrow> instr_at m s' t \<Longrightarrow> instr_at m s t"

inductive_cases instr_atE: "instr_at m s t"

lemma instr_at_ge: "instr_at m s t \<Longrightarrow> 0 \<le> s_next_bci s \<and> s_next_bci s \<le> s_bci t \<and> s_bci t < s_end_bci s"
proof (induction rule: instr_at.induct)
  case (here s c t)
  with raw_next_Inr [of m s c t] show ?case by (auto simp: is_last_bytecode_def)
next
  case (later s c s' t)
  with raw_next_Inr [of m s c s'] show ?case by auto
qed

lemma instr_at_last: "is_last_bytecode s \<Longrightarrow> \<not> instr_at m s t"
  by (auto elim: instr_atE)

lemma instr_at_next:
  "\<not> is_last_bytecode s \<Longrightarrow> raw_next m s = Inr (c, s') \<Longrightarrow> c \<noteq> bc_illegal \<Longrightarrow>
   instr_at m s t \<longleftrightarrow> t = s' \<or> instr_at m s' t"
  by (auto elim: instr_atE intro: instr_at.intros)

lemma instr_at_code: "instr_at m s t \<Longrightarrow> s_end_bci t = s_end_bci s \<and> s_code t \<noteq> bc_illegal"
proof (induction rule: instr_at.induct)
  case (here s c t)
  with raw_next_Inr [of m s c t] show ?case by auto
next
  case (later s c s' t)
  with raw_next_Inr [of m s c s'] show ?case by auto
qed

text \<open>An instruction is determined by its position.\<close>

lemma instr_at_after:
  assumes "raw_next m s = Inr (c, s')" and "c \<noteq> bc_illegal" and "instr_at m s' t"
  shows "s_bci s' < s_bci t"
  using raw_next_Inr [OF assms(1,2)] instr_at_ge [OF assms(3)] by linarith

lemma instr_at_unique: "instr_at m s t \<Longrightarrow> instr_at m s u \<Longrightarrow> s_bci t = s_bci u \<Longrightarrow> t = u"
proof (induction arbitrary: u rule: instr_at.induct)
  case (here s c t)
  from here.prems(1) have "u = t \<or> instr_at m t u" using instr_at_next [OF here.hyps] by blast
  with instr_at_after [OF here.hyps(2,3)] here.prems(2) show ?case by (metis less_irrefl)
next
  case (later s c s' t)
  from later.prems(1) have "u = s' \<or> instr_at m s' u" using instr_at_next [OF later.hyps(1-3)] by blast
  with instr_at_after [OF later.hyps(2,3,4)] later.prems(2) later.IH show ?case by (metis less_irrefl)
qed

section \<open>The map of the starts of instructions is exact\<close>

lemma code_data_loop_exact:
  assumes "code_data_loop m s cd = Inr cd'" and "s_end_bci s = int (length cd)" and "pc < length cd"
    and "int pc \<ge> s_next_bci s \<Longrightarrow> cd ! pc = 0"
  shows "cd' ! pc = (if int pc < s_next_bci s then cd ! pc
    else if \<exists>t. instr_at m s t \<and> s_bci t = int pc \<and> s_code t = bc_new then NEW_OFFSET
    else if \<exists>t. instr_at m s t \<and> s_bci t = int pc then BYTECODE_OFFSET else 0)"
  using assms
proof (induction m s cd rule: code_data_loop.induct)
  case (1 m s cd)
  show ?case
  proof (cases "is_last_bytecode s")
    case True
    with "1.prems" instr_at_last [OF True, of m] show ?thesis by (auto simp: code_data_loop.simps [of m s])
  next
    case False
    with "1.prems"(1) obtain c s' where n: "raw_next m s = Inr (c, s')" "c \<noteq> bc_illegal"
      by (auto simp: code_data_loop.simps [of m s] split: if_splits)
    note r = raw_next_Inr [OF n] and nx = instr_at_next [OF False n]
    let ?d = "if s_code s' = bc_new then NEW_OFFSET else BYTECODE_OFFSET"
    let ?cd = "cd[nat (s_bci s') := ?d]"
    have i: "nat (s_bci s') < length cd" using r False "1.prems"(2) by (auto simp: is_last_bytecode_def)
    have loop: "code_data_loop m s' ?cd = Inr cd'"
      using "1.prems"(1) False n i by (simp add: code_data_loop.simps [of m s])
    have pos: "s_next_bci s < s_next_bci s'"
    proof (rule ccontr)
      assume "\<not> ?thesis"
      with r have neg: "s_next_bci s' < 0" by auto
      then have "\<not> is_last_bytecode s'" using r "1.prems"(2) by (auto simp: is_last_bytecode_def)
      moreover have "\<not> (\<exists>c t. raw_next m s' = Inr (c, t) \<and> c \<noteq> bc_illegal)" using raw_next_Inr [of m s'] neg by force
      ultimately show False using loop by (auto simp: code_data_loop.simps [of m s'] split: if_splits)
    qed
    have later: "\<not> (instr_at m s' t \<and> s_bci t = s_bci s')" for t using instr_at_ge [of m s' t] r pos by auto
    have ih: "cd' ! pc = (if int pc < s_next_bci s' then ?cd ! pc
      else if \<exists>t. instr_at m s' t \<and> s_bci t = int pc \<and> s_code t = bc_new then NEW_OFFSET
      else if \<exists>t. instr_at m s' t \<and> s_bci t = int pc then BYTECODE_OFFSET else 0)"
      by (rule "1.IH" [OF False n(1) refl n(2) _ loop]) (use i r pos "1.prems" in \<open>auto simp: nth_list_update\<close>)
    consider "int pc < s_next_bci s" | "int pc = s_next_bci s" | "s_next_bci s < int pc" "int pc < s_next_bci s'"
      | "s_next_bci s' \<le> int pc" by linarith
    then show ?thesis
    proof cases
      case 1
      then show ?thesis using ih r pos i by (auto simp: nth_list_update)
    next
      case 2
      then show ?thesis using ih r pos i nx later by (auto simp: nth_list_update)
    next
      case 3
      have "\<not> (instr_at m s t \<and> s_bci t = int pc)" for t
        using 3 nx instr_at_ge [of m s' t] r by auto
      then show ?thesis using ih 3 r i "1.prems"(4) by (auto simp: nth_list_update)
    next
      case 4
      then show ?thesis using ih r pos nx by auto
    qed
  qed
qed

lemma generate_code_data_exact:
  assumes "generate_code_data m = Inr cd" and "pc < length (m_code (mt_mem m))"
  shows "cd ! pc = (if \<exists>t. instr_at (mt_mem m) (raw_stream (mt_mem m)) t \<and> s_bci t = int pc \<and> s_code t = bc_new
      then NEW_OFFSET
    else if \<exists>t. instr_at (mt_mem m) (raw_stream (mt_mem m)) t \<and> s_bci t = int pc then BYTECODE_OFFSET else 0)"
  using code_data_loop_exact [OF assms(1) [unfolded generate_code_data_def], of pc] assms(2)
  by (simp add: raw_stream_def)

section \<open>Jumps\<close>

text \<open>The conditional branches with \<^verbatim>\<open>goto\<close>, whose offset has two bytes.\<close>

definition short_branches :: "int set" where
  "short_branches = {bc_ifeq, bc_ifne, bc_iflt, bc_ifge, bc_ifgt, bc_ifle, bc_if_icmpeq, bc_if_icmpne,
     bc_if_icmplt, bc_if_icmpge, bc_if_icmpgt, bc_if_icmple, bc_if_acmpeq, bc_if_acmpne, bc_goto,
     bc_ifnull, bc_ifnonnull}"

text \<open>The positions an instruction can jump to, from its operands.\<close>

definition is_jump_target :: "code_mem \<Rightarrow> bc_stream \<Rightarrow> int \<Rightarrow> bool" where
  "is_jump_target m s t \<longleftrightarrow>
     s_code s \<in> short_branches \<and> dest m s = Inr t \<or>
     s_code s = bc_goto_w \<and> dest_w m s = Inr t \<or>
     s_code s \<in> {bc_tableswitch, bc_lookupswitch} \<and>
       (let aligned = round_to (s_bci s + 1) 4; table = (s_code s = bc_tableswitch);
            delta = (if table then 1 else 2) in
        (\<exists>off. get_Java_u4 m aligned = Inr off \<and> t = jint_add (s_bci s) (s4_of off)) \<or>
        (\<exists>keys off i. (if table then tableswitch_keys m aligned else lookupswitch_keys m aligned) = Inr keys \<and>
           i < nat keys \<and> get_Java_u4 m (aligned + (3 + int i * delta) * 4) = Inr off \<and>
           t = jint_add (s_bci s) (s4_of off)))"

lemma go_on_Inr:
  "go_on [] f = Inr (b, f') \<longleftrightarrow> \<not> b \<and> f' = f"
  "go_on (m # ms) f = Inr (b, f') \<longleftrightarrow> (\<exists>f1. m f = Inr ((), f1) \<and> go_on ms f1 = Inr (b, f'))"
  by (auto simp: go_on_def vm_Inr)

lemma ends_Inr:
  "ends [] f = Inr (b, f') \<longleftrightarrow> b \<and> f' = f"
  "ends (m # ms) f = Inr (b, f') \<longleftrightarrow> (\<exists>f1. m f = Inr ((), f1) \<and> ends ms f1 = Inr (b, f'))"
  by (auto simp: ends_def vm_Inr)

lemma vfor_unchanged:
  assumes "vfor g xs f = Inr (u, f')" and "\<And>x u f f'. P f \<Longrightarrow> g x f = Inr (u, f') \<Longrightarrow> f' = f \<and> Q x f" and "P f"
  shows "f' = f \<and> (\<forall>x\<in>set xs. Q x f)"
  using assms(1,3)
proof (induction xs arbitrary: f)
  case (Cons x xs)
  then obtain u1 f1 where 1: "g x f = Inr (u1, f1)" "vfor g xs f1 = Inr (u, f')" by (auto simp: vm_Inr)
  with assms(2) [OF Cons.prems(2) 1(1)] Cons show ?case by auto
qed (simp add: vm_Inr)

lemma pop_one_frame_ok:
  "resolve_safe (v_resolve v) \<Longrightarrow> vtype_wf t \<Longrightarrow> frame_ok ml ms f \<Longrightarrow> pop_one v t f = Inr (u, f') \<Longrightarrow> frame_ok ml ms f'"
  using fr.keeps_Inr [OF pop_one_keeps] by blast

lemma pop_stack_offset: "pop_stack r t f = Inr (x, f') \<Longrightarrow> f_offset f' = f_offset f"
  by (auto simp: pop_stack_def pop_stack_any_def pop_stack_ex_def Let_def vm_Inr split: if_splits)

lemma pop_one_offset: "pop_one v t f = Inr (x, f') \<Longrightarrow> f_offset f' = f_offset f"
  by (auto simp: pop_one_def vm_Inr dest: pop_stack_offset)

lemma verify_switch_Inr:
  assumes r: "resolve_safe (v_resolve v)" and tb: "table_ok ml ms cd tb" and f: "frame_ok ml ms f"
    and s: "verify_switch v tb s f = Inr (u, f')" and t: "is_jump_target (v_mem v) s t"
    and c: "s_code s \<in> {bc_tableswitch, bc_lookupswitch}"
  shows "target_ok (v_resolve v) tb f' t \<and> f_offset f' = f_offset f"
proof -
  let ?m = "v_mem v" and ?al = "round_to (s_bci s + 1) 4"
  let ?delta = "if s_code s = bc_tableswitch then 1 else 2"
  from s obtain off x f1 keys f2 where
      o: "get_Java_u4 ?m ?al = Inr off" and p: "pop_stack (v_resolve v) Integer f = Inr (x, f1)"
    and k: "(if s_code s = bc_tableswitch then tableswitch_keys ?m ?al else lookupswitch_keys ?m ?al) = Inr keys"
    and d: "check_jump_target (v_resolve v) tb (jint_add (s_bci s) (s4_of off)) f1 = Inr ((), f2)"
    and l: "vfor (\<lambda>i. vbind (vlift (get_Java_u4 ?m (?al + (3 + int i * ?delta) * 4))) (\<lambda>off.
             check_jump_target (v_resolve v) tb (jint_add (s_bci s) (s4_of off)))) [0..<nat keys] f2 = Inr (u, f')"
    by (auto simp: verify_switch_def Let_def vm_Inr)
  have f1: "frame_ok ml ms f1" using fr.keeps_Inr [OF pop_stack_keeps [OF r] f p] by simp
  have off: "f_offset f1 = f_offset f" by (rule pop_stack_offset [OF p])
  note d' = check_jump_target_Inr [OF d tb f1]
  let ?off = "\<lambda>i. get_Java_u4 ?m (?al + (3 + int i * ?delta) * 4)"
  have "f' = f2 \<and> (\<forall>i\<in>set [0..<nat keys]. \<forall>off. ?off i = Inr off \<longrightarrow>
      target_ok (v_resolve v) tb f2 (jint_add (s_bci s) (s4_of off)))"
  proof (rule vfor_unchanged [OF l, where P = "frame_ok ml ms"])
    fix i u g g'
    assume g: "frame_ok ml ms g" and e: "vbind (vlift (?off i)) (\<lambda>off.
             check_jump_target (v_resolve v) tb (jint_add (s_bci s) (s4_of off))) g = Inr (u, g')"
    from e obtain o' where "?off i = Inr o'"
        "check_jump_target (v_resolve v) tb (jint_add (s_bci s) (s4_of o')) g = Inr ((), g')"
      by (auto simp: vm_Inr)
    with check_jump_target_Inr [OF _ tb g] show "g' = g \<and> (\<forall>off. ?off i = Inr off \<longrightarrow>
      target_ok (v_resolve v) tb g (jint_add (s_bci s) (s4_of off)))" by auto
  qed (use d' f1 in simp)
  with d' o k t c off show ?thesis by (auto simp: is_jump_target_def short_branches_def Let_def split: if_splits)
qed

lemma groups_below:
  assumes "152 < opcode"
  shows "switch_consts v s opcode = None" "switch_loads v s opcode = None" "switch_array_loads v opcode = None"
    "switch_stores v s opcode = None" "switch_array_stores v opcode = None" "switch_stack v opcode = None"
    "switch_arith v s opcode = None" "switch_convert v opcode = None"
  using assms
  by (auto simp: switch_consts_def switch_loads_def switch_array_loads_def switch_stores_def
      switch_array_stores_def switch_stack_def switch_arith_def switch_convert_def Let_def)

lemma branch_instruction:
  assumes "152 < opcode" and "opcode \<notin> {bc_invokevirtual, bc_invokespecial, bc_invokestatic, bc_invokeinterface}"
    and "switch_branch v tb s opcode = Some m"
  shows "verify_instruction v tb rt s opcode = vbind m (\<lambda>ncf. vreturn (ncf, False))"
  using assms(2,3) by (simp add: verify_instruction_def groups_below [OF assms(1)] del: insert_iff)

text \<open>The case of a branch: it pops operands, then checks its target.\<close>

definition jumps :: "verifier \<Rightarrow> map_table \<Rightarrow> int res \<Rightarrow> (frame, unit) vm" where
  "jumps v tb d = vbind (vlift d) (\<lambda>target. check_jump_target (v_resolve v) tb target)"

lemma switch_branch_short:
  assumes "opcode \<in> short_branches"
  shows "\<exists>pops. set pops \<subseteq> {pop_one v Integer, pop_one v ReferenceQuery} \<and>
    switch_branch v tb s opcode \<in> {Some (go_on (pops @ [jumps v tb (dest (v_mem v) s)])),
      Some (ends (pops @ [jumps v tb (dest (v_mem v) s)]))}"
proof -
  let ?I = "pop_one v Integer" and ?A = "pop_one v ReferenceQuery"
  consider "opcode \<in> {bc_if_icmpeq, bc_if_icmpne, bc_if_icmplt, bc_if_icmpge, bc_if_icmpgt, bc_if_icmple}"
    | "opcode \<in> {bc_ifeq, bc_ifne, bc_iflt, bc_ifge, bc_ifgt, bc_ifle}" | "opcode \<in> {bc_if_acmpeq, bc_if_acmpne}"
    | "opcode \<in> {bc_ifnull, bc_ifnonnull}" | "opcode = bc_goto"
    using assms by (auto simp: short_branches_def)
  then show ?thesis
  proof cases
    case 1
    then show ?thesis by (intro exI [of _ "[?I, ?I]"]) (auto simp: switch_branch_def jumps_def Let_def)
  next
    case 2
    then show ?thesis by (intro exI [of _ "[?I]"]) (auto simp: switch_branch_def jumps_def Let_def)
  next
    case 3
    then show ?thesis by (intro exI [of _ "[?A, ?A]"]) (auto simp: switch_branch_def jumps_def Let_def)
  next
    case 4
    then show ?thesis by (intro exI [of _ "[?A]"]) (auto simp: switch_branch_def jumps_def Let_def)
  next
    case 5
    then show ?thesis by (intro exI [of _ "[]"]) (auto simp: switch_branch_def jumps_def Let_def)
  qed
qed

lemma jump_after_pops:
  assumes r: "resolve_safe (v_resolve v)" and tb: "table_ok ml ms cd tb" and f: "frame_ok ml ms f"
    and p: "set pops \<subseteq> {pop_one v Integer, pop_one v ReferenceQuery}"
    and m: "foldr vthen (pops @ [jumps v tb (Inr t)]) (vreturn b) f = Inr (c, f')"
  shows "target_ok (v_resolve v) tb f' t \<and> f_offset f' = f_offset f"
  using f p m
proof (induction pops arbitrary: f)
  case Nil
  then obtain f1 where "check_jump_target (v_resolve v) tb t f = Inr ((), f1)" "f' = f1"
    by (auto simp: jumps_def vm_Inr)
  with check_jump_target_Inr [OF _ tb Nil(1)] show ?case by auto
next
  case (Cons q pops)
  then obtain f1 where q: "q f = Inr ((), f1)" "foldr vthen (pops @ [jumps v tb (Inr t)]) (vreturn b) f1 = Inr (c, f')"
    by (auto simp: vm_Inr)
  with Cons.prems(2) have "frame_ok ml ms f1" "f_offset f1 = f_offset f"
    using pop_one_offset pop_one_frame_ok [OF r _ Cons.prems(1), of Integer] pop_one_frame_ok [OF r _ Cons.prems(1), of ReferenceQuery]
    by auto
  with Cons q show ?case by auto
qed

lemma jump_targets_checked:
  assumes v: "verifier_ok v" and tb: "table_ok ml ms cd tb" and f: "frame_ok ml ms f"
    and i: "verify_instruction v tb rt s (s_code s) f = Inr ((ncf, tu), f')"
    and t: "is_jump_target (v_mem v) s t"
  shows "target_ok (v_resolve v) tb f' t \<and> f_offset f' = f_offset f"
proof -
  note r = verifier_okD(3) [OF v]
  have m: "m f = Inr (ncf, f')" if "switch_branch v tb s (s_code s) = Some m"
      "s_code s \<in> short_branches \<or> s_code s \<in> {bc_goto_w, bc_tableswitch, bc_lookupswitch}" for m
    using branch_instruction [OF _ _ that(1), of rt] that(2) i by (auto simp: short_branches_def vm_Inr)
  consider "s_code s \<in> short_branches" "dest (v_mem v) s = Inr t" | "s_code s = bc_goto_w" "dest_w (v_mem v) s = Inr t"
    | "s_code s \<in> {bc_tableswitch, bc_lookupswitch}"
    using t unfolding is_jump_target_def by blast
  then show ?thesis
  proof cases
    case 1
    from switch_branch_short [OF 1(1), of v tb s] 1 obtain pops b where
      p: "set pops \<subseteq> {pop_one v Integer, pop_one v ReferenceQuery}"
        "switch_branch v tb s (s_code s) = Some (foldr vthen (pops @ [jumps v tb (Inr t)]) (vreturn b))"
      by (auto simp: go_on_def ends_def)
    from jump_after_pops [OF r tb f p(1) m [OF p(2)]] 1 show ?thesis by simp
  next
    case 2
    then have "switch_branch v tb s (s_code s) = Some (foldr vthen ([] @ [jumps v tb (Inr t)]) (vreturn True))"
      by (simp add: switch_branch_def jumps_def ends_def Let_def)
    from jump_after_pops [OF r tb f _ m [OF this]] 2 show ?thesis by simp
  next
    case 3
    then have "switch_branch v tb s (s_code s) = Some (ends [verify_switch v tb s])"
      by (auto simp: switch_branch_def Let_def)
    from m [OF this] 3 have "verify_switch v tb s f = Inr ((), f')" by (auto simp: ends_Inr)
    from verify_switch_Inr [OF r tb f this t 3] show ?thesis .
  qed
qed

section \<open>The frame at an instruction\<close>

text \<open>Either the frame itself, at the next offset, or a frame of the table to which it is assignable.\<close>

definition flows_to :: "(string \<Rightarrow> klass res) \<Rightarrow> frame \<Rightarrow> frame \<Rightarrow> bool" where
  "flows_to r f g \<longleftrightarrow> g = f\<lparr> f_offset := f_offset g \<rparr> \<or> is_assignable_to r f g = Inr True"

lemma types_assignable_take:
  "n \<le> length ts \<Longrightarrow> n \<le> length us \<Longrightarrow> take n ts = take n us \<Longrightarrow>
   types_assignable_to r from ts n = types_assignable_to r from us n"
proof (induction n arbitrary: "from" ts us)
  case (Suc n)
  from Suc.prems obtain t ts' us' where c: "ts = t # ts'" "us = t # us'" and
      p: "n \<le> length ts'" "n \<le> length us'" "take n ts' = take n us'"
    by (cases ts; cases us) auto
  note ih = Suc.IH [OF p]
  show ?case unfolding c by (cases "from") (auto simp: ih intro!: rbind_cong)
qed simp

lemma assignable_to_copy:
  assumes g: "table_frame_ok ml ms g" and h: "frame_ok ml ms h" and c: "frame_from ml g h"
  shows "is_assignable_to r f h = is_assignable_to r f g"
proof -
  have sz: "f_locals_size h = f_locals_size g" "f_stack_size h = f_stack_size g" "f_flags h = f_flags g"
      "f_max_locals h = f_max_locals g"
    using assms by (auto simp: frame_from_def frame_ok_def table_frame_ok_def)
  have ls: "types_assignable_to r ts (f_locals h) (f_locals_size g) = types_assignable_to r ts (f_locals g) (f_locals_size g)" for ts
    by (rule types_assignable_take) (use assms in \<open>auto simp: frame_from_def frame_ok_def table_frame_ok_def\<close>)
  have st: "types_assignable_to r ts (f_stack h) (f_stack_size g) = types_assignable_to r ts (f_stack g) (f_stack_size g)" for ts
    by (rule types_assignable_take) (use assms in \<open>auto simp: frame_from_def frame_ok_def table_frame_ok_def\<close>)
  show ?thesis
    using ls st by (simp add: is_assignable_to_def sz)
qed

lemma is_assignable_to_offset: "is_assignable_to r (f\<lparr> f_offset := b \<rparr>) g = is_assignable_to r f g"
  by (simp add: is_assignable_to_def)

text \<open>The index of the next frame is behind all frames with smaller offsets.\<close>

definition index_ok :: "map_table \<Rightarrow> vstate \<Rightarrow> bool" where
  "index_ok tb st \<longleftrightarrow> (\<forall>i<vs_index st. i < length (tb_frames tb) \<longrightarrow> f_offset (tb_frames tb ! i) < s_next_bci (vs_stream st))"

lemma table_offset:
  assumes "table_ok ml ms cd tb" and "length cd \<le> 65535" and "i < length (tb_frames tb)"
  shows "f_offset (tb_frames tb ! i) mod 65536 = f_offset (tb_frames tb ! i)"
    "0 \<le> f_offset (tb_frames tb ! i)" "f_offset (tb_frames tb ! i) < int (length cd)" "cd ! nat (f_offset (tb_frames tb ! i)) \<noteq> 0"
  using assms by (auto simp: table_ok_def list_all_length dest!: spec [of _ i])

lemma table_sorted:
  assumes "table_ok ml ms cd tb" and "i < j" and "j < length (tb_frames tb)"
  shows "f_offset (tb_frames tb ! i) < f_offset (tb_frames tb ! j)"
  using assms sorted_wrt_nth_less [of "\<lambda>f g. f_offset f < f_offset g" "tb_frames tb" i j] by (auto simp: table_ok_def)

text \<open>
  Merging with the table at the offset \<open>b\<close>: a frame of the table with this offset becomes the
  current one.
\<close>

lemma verify_stackmap_table_Inr:
  assumes tb: "table_ok ml ms cd tb" and len: "length cd \<le> 65535" and f: "frame_ok ml ms f"
    and idx: "\<And>i. i < index \<Longrightarrow> i < length (tb_frames tb) \<Longrightarrow> f_offset (tb_frames tb ! i) < b"
    and m: "verify_stackmap_table v tb index b ncf f = Inr (index', f')"
  shows "f_offset f' = f_offset f \<and> (\<not> ncf \<longrightarrow> flows_to (v_resolve v) f f') \<and>
    (\<forall>g\<in>set (tb_frames tb). f_offset g = b \<longrightarrow> frame_from ml g f') \<and>
    (\<forall>i<index'. i < length (tb_frames tb) \<longrightarrow> f_offset (tb_frames tb ! i) \<le> b)"
proof (cases "index < length (tb_frames tb)")
  case True
  let ?g = "tb_frames tb ! index"
  note off = table_offset [OF tb len True]
  have above: "f_offset ?g \<le> f_offset (tb_frames tb ! i)" if "index \<le> i" "i < length (tb_frames tb)" for i
    using table_sorted [OF tb, of index i] that by (cases "i = index") auto
  have only: "g = ?g" if "g \<in> set (tb_frames tb)" "f_offset g = b" "f_offset ?g = b" for g
  proof -
    from that(1) obtain i where i: "i < length (tb_frames tb)" "g = tb_frames tb ! i" by (auto simp: in_set_conv_nth)
    show ?thesis
    proof (rule ccontr)
      assume "g \<noteq> ?g"
      with i have "i < index \<or> index < i" by (metis linorder_neqE_nat)
      with idx [of i] table_sorted [OF tb, of index i] i that show False by auto
    qed
  qed
  have none: "f_offset g \<noteq> b" if "g \<in> set (tb_frames tb)" "b < f_offset ?g" for g
  proof
    assume b: "f_offset g = b"
    from that(1) obtain i where i: "i < length (tb_frames tb)" "g = tb_frames tb ! i" by (auto simp: in_set_conv_nth)
    with idx [of i] above [of i] b that(2) show False by (cases "i < index") auto
  qed
  show ?thesis
  proof (cases "f_offset ?g = b")
    case eq: True
    with m True off obtain mt where mt: "match_stackmap_at (v_resolve v) tb (int index) (\<not> ncf) True f = Inr (mt, f')" "mt"
      and i': "index' = index + 1"
      by (auto simp: verify_stackmap_table_def Let_def vm_Inr split: if_splits)
    note q = match_stackmap_at_Inr [OF tb f mt(1)]
    from q have fr: "frame_from ml ?g f'" "frame_ok ml ms f'" "f_offset f' = f_offset f" by auto
    have "is_assignable_to (v_resolve v) f f' = Inr True" if "\<not> ncf"
      using q that mt(2) assignable_to_copy [OF table_ok_frame [OF tb] fr(2,1)] True by auto
    moreover have "f_offset (tb_frames tb ! i) \<le> b" if "i < index + 1" "i < length (tb_frames tb)" for i
      using that idx [of i] eq by (cases "i = index") auto
    ultimately show ?thesis using fr i' only eq by (auto simp: flows_to_def)
  next
    case False
    with m True off have "b < f_offset ?g" "index' = index" "f' = f"
      by (auto simp: verify_stackmap_table_def Let_def vm_Inr split: if_splits)
    with none idx show ?thesis by (force simp: flows_to_def)
  qed
next
  case False
  with m have "index' = index" "f' = f" by (auto simp: verify_stackmap_table_def vm_Inr split: if_splits)
  moreover have "f_offset g \<noteq> b" if "g \<in> set (tb_frames tb)" for g
  proof -
    from that obtain i where i: "i < length (tb_frames tb)" "g = tb_frames tb ! i" by (auto simp: in_set_conv_nth)
    with idx [of i] False show ?thesis by auto
  qed
  ultimately show ?thesis using idx by (force simp: flows_to_def)
qed

section \<open>Method types\<close>

text \<open>
  \<open>instr_typed v env \<Phi> t\<close>: the instruction \<open>t\<close> is applicable to the frame \<open>\<Phi>\<close> has for it, and what it leaves
  flows to the next instruction, when control can reach it, and to the handlers.
\<close>

definition handlers_typed :: "verifier \<Rightarrow> venv \<Rightarrow> int \<Rightarrow> bool \<Rightarrow> frame \<Rightarrow> bool" where
  "handlers_typed v env b tu f \<longleftrightarrow>
     (ve_ex_min env \<le> b \<and> b < ve_ex_max env \<longrightarrow>
        verify_handlers v (ve_table env) b tu f (mt_exception_table (v_method v)) = Inr ())"

definition instr_typed :: "verifier \<Rightarrow> venv \<Rightarrow> nat \<Rightarrow> nat \<Rightarrow> (int \<Rightarrow> frame) \<Rightarrow> bc_stream \<Rightarrow> bool" where
  "instr_typed v env ml ms \<Phi> t \<longleftrightarrow>
     frame_ok ml ms (\<Phi> (s_bci t)) \<and> f_offset (\<Phi> (s_bci t)) = s_bci t \<and>
     (\<forall>g\<in>set (tb_frames (ve_table env)). f_offset g = s_bci t \<longrightarrow> frame_from ml g (\<Phi> (s_bci t))) \<and>
     (s_is_wide t \<longrightarrow> wide_ok (s_code t)) \<and>
     (\<exists>ncf tu f'.
        verify_instruction v (ve_table env) (ve_return env) t (s_code t) (\<Phi> (s_bci t)) = Inr ((ncf, tu), f') \<and>
        (\<not> ncf \<longrightarrow> s_next_bci t < s_end_bci t \<and> flows_to (v_resolve v) f' (\<Phi> (s_next_bci t))) \<and>
        handlers_typed v env (s_bci t) tu f')"

lemma instr_at_forward: "instr_at m s t \<Longrightarrow> s_bci t < s_next_bci t \<or> s_next_bci t < 0"
proof (induction rule: instr_at.induct)
  case (here s c t)
  with raw_next_Inr [of m s c t] show ?case by auto
qed

lemma instr_typed_cong:
  assumes "\<Phi> (s_bci t) = \<Psi> (s_bci t)" and "\<Phi> (s_next_bci t) = \<Psi> (s_next_bci t)"
  shows "instr_typed v env ml ms \<Phi> t = instr_typed v env ml ms \<Psi> t"
  using assms by (simp add: instr_typed_def)

lemma verify_loop_typed:
  assumes v: "verifier_ok v" "method_wf v" and env: "env_ok ml ms cd env" "length cd = length (m_code (v_mem v))"
    and l: "verify_loop v env st = Inr stE" "vs_no_control_flow stE"
    and f: "frame_ok ml ms (vs_frame st)" and idx: "index_ok (ve_table env) st"
    and e: "s_end_bci (vs_stream st) = int (length (m_code (v_mem v)))"
  shows "\<exists>\<Phi>. (\<forall>t. instr_at (v_mem v) (vs_stream st) t \<longrightarrow> instr_typed v env ml ms \<Phi> t) \<and>
    (\<not> vs_no_control_flow st \<longrightarrow> \<not> is_last_bytecode (vs_stream st) \<and>
       flows_to (v_resolve v) (vs_frame st) (\<Phi> (s_next_bci (vs_stream st))))"
  using assms
proof (induction v env st rule: verify_loop.induct)
  case (1 v env st)
  let ?s = "vs_stream st" and ?tb = "ve_table env" and ?m = "v_mem v" and ?r = "v_resolve v"
  note v = "1.prems"(1,2) and env = "1.prems"(3,4) and f = "1.prems"(7) and e = "1.prems"(9)
  have tb: "table_ok ml ms cd ?tb" using env(1) by (simp add: env_ok_def)
  have len: "length cd \<le> 65535" using v(2) env(2) by (simp add: method_wf_def)
  show ?case
  proof (cases "is_last_bytecode ?s")
    case True
    with "1.prems"(5,6) have "vs_no_control_flow st" by (simp add: verify_loop.simps)
    with True instr_at_last [OF True, of ?m] show ?thesis by auto
  next
    case False
    with "1.prems"(5) obtain st' where st': "verify_step v env st = Inr st'" "verify_loop v env st' = Inr stE"
      by (auto simp: verify_loop.simps [of v env st])
    from st'(1) obtain opcode s index f1 ncf tu f2 where p: "step_parts v env st opcode s index f1 ncf tu f2"
      and st'_eq: "st' = \<lparr> vs_stream = s, vs_index = index, vs_no_control_flow = ncf, vs_frame = f2 \<rparr>"
      by (rule verify_step_Inr)
    from p have leg: "opcode \<noteq> bc_illegal" by (auto simp: step_parts_def illegal_instruction)
    from p have n: "raw_next ?m ?s = Inr (opcode, s)" by (simp add: step_parts_def)
    note r = raw_next_Inr [OF n leg] and nx = instr_at_next [OF False n leg]
    have b: "s_bci s mod 65536 = s_bci s" using r e False len env(2) by (auto simp: is_last_bytecode_def)
    let ?f0 = "(vs_frame st)\<lparr> f_offset := s_bci s \<rparr>"
    have f0: "frame_ok ml ms ?f0" using f by (simp add: frame_ok_def)
    have merge: "verify_stackmap_table v ?tb (vs_index st) (s_bci s) (vs_no_control_flow st) ?f0 = Inr (index, f1)"
      and instr: "verify_instruction v ?tb (ve_return env) s opcode f1 = Inr ((ncf, tu), f2)"
      and wide: "s_is_wide s \<longrightarrow> wide_ok opcode" and hd: "handlers_typed v env (s_bci s) tu f2"
      using p b by (auto simp: step_parts_def handlers_typed_def)
    have m: "f_offset f1 = s_bci s" "\<not> vs_no_control_flow st \<longrightarrow> flows_to ?r ?f0 f1"
        "\<forall>g\<in>set (tb_frames ?tb). f_offset g = s_bci s \<longrightarrow> frame_from ml g f1"
        "\<forall>i<index. i < length (tb_frames ?tb) \<longrightarrow> f_offset (tb_frames ?tb ! i) \<le> s_bci s"
      using verify_stackmap_table_Inr [OF tb len f0 _ merge] "1.prems"(8) r by (auto simp: index_ok_def)
    have f1: "frame_ok ml ms f1"
      using fr.keeps_Inr [OF verify_stackmap_table_keeps [OF tb verifier_okD(3) [OF v(1)]] f0 merge] by simp
    have pos: "s_next_bci ?s < s_next_bci s"
    proof (rule ccontr)
      assume "\<not> ?thesis"
      with r have neg: "s_next_bci s < 0" by auto
      then have "\<not> is_last_bytecode (vs_stream st')" using r e st'_eq by (auto simp: is_last_bytecode_def)
      with st'(2) [unfolded verify_loop.simps [of v env st']] obtain st'' where "verify_step v env st' = Inr st''"
        by auto
      then show False
        by (rule verify_step_Inr)
          (use neg raw_next_Inr [of ?m s] st'_eq in \<open>force simp: step_parts_def illegal_instruction\<close>)
    qed
    have f2: "frame_ok ml ms (vs_frame st')" by (rule verify_step_ok(2) [OF v env(1) f st'(1)])
    have idx: "index_ok ?tb st'" using m(4) r pos by (force simp: index_ok_def st'_eq)
    have e': "s_end_bci (vs_stream st') = int (length (m_code ?m))" using r e st'_eq by simp
    obtain \<Phi> where \<Phi>: "\<And>t. instr_at ?m s t \<Longrightarrow> instr_typed v env ml ms \<Phi> t"
      "\<not> ncf \<Longrightarrow> \<not> is_last_bytecode s \<and> flows_to ?r f2 (\<Phi> (s_next_bci s))"
      using "1.IH" [OF False st'(1) v env st'(2) "1.prems"(6) f2 idx e'] by (auto simp: st'_eq)
    let ?\<Psi> = "\<Phi>(s_bci s := f1)"
    have "instr_typed v env ml ms ?\<Psi> t" if "instr_at ?m s t" for t
    proof -
      have "s_bci s < s_bci t" by (rule instr_at_after [OF n leg that])
      moreover have "s_next_bci t \<noteq> s_bci s" using instr_at_forward [OF that] r calculation by auto
      ultimately show ?thesis using \<Phi>(1) [OF that] instr_typed_cong [of ?\<Psi> t \<Phi>] by auto
    qed
    moreover have "instr_typed v env ml ms ?\<Psi> s"
      using f1 m(1,3) wide instr hd \<Phi>(2) r pos
      by (auto simp: instr_typed_def is_last_bytecode_def)
    moreover have "flows_to ?r (vs_frame st) f1" if "\<not> vs_no_control_flow st"
      using m(2) that by (auto simp: flows_to_def is_assignable_to_offset)
    moreover have "?\<Psi> (s_next_bci ?s) = f1" using r by simp
    ultimately show ?thesis
      using nx False by (intro exI [of _ ?\<Psi>]) (auto simp del: fun_upd_apply)
  qed
qed

section \<open>The handlers\<close>

lemma verify_exception_handler_table_range:
  "verify_exception_handler_table v cd hs mn mx = Inr (mn', mx') \<Longrightarrow>
   mn' \<le> mn \<and> mx \<le> mx' \<and> (\<forall>(start_pc, end_pc, h, c)\<in>set hs. mn' \<le> int start_pc \<and> int end_pc \<le> mx')"
proof (induction hs arbitrary: mn mx)
  case (Cons h hs)
  obtain a b pc c where h: "h = (a, b, pc, c)" by (cases h)
  from Cons.prems have "verify_exception_handler_table v cd hs (if int a < mn then int a else mn)
      (if int b > mx then int b else mx) = Inr (mn', mx')"
    unfolding h by (auto split: if_splits)
  from Cons.IH [OF this] show ?case unfolding h by (auto split: if_splits)
qed simp

text \<open>The frame at the start of a handler, when an instruction has left \<open>f\<close>.\<close>

definition handler_frame :: "verifier \<Rightarrow> bool \<Rightarrow> frame \<Rightarrow> nat \<Rightarrow> frame \<Rightarrow> bool" where
  "handler_frame v this_uninit f c nf \<longleftrightarrow>
     (\<exists>t u. (if c \<noteq> 0 then cp_index_to_type (v_cp v) c else Inr (Reference ''java/lang/Throwable'')) = Inr t \<and>
        push_stack t (frame_in_exception_handler f
          (if this_uninit then f_flags f OR FLAG_THIS_UNINIT else f_flags f)) = Inr (u, nf))"

lemma match_stackmap_handler:
  assumes m: "match_stackmap r tb pc True False nf = Inr (True, nf')"
  shows "\<exists>g\<in>set (tb_frames tb). f_offset g = pc \<and> is_assignable_to r nf g = Inr True"
proof -
  let ?i = "get_index_from_offset tb pc"
  have i: "?i < length (tb_frames tb)"
    using m match_stackmap_at_out [of ?i tb] by (fastforce simp: match_stackmap_def)
  with m get_index_found [OF i] show ?thesis
    by (auto simp: match_stackmap_def match_stackmap_at_def)
qed

lemma verify_handlers_Inr:
  "verify_handlers v tb bci tu f hs = Inr () \<Longrightarrow> (start_pc, end_pc, h, c) \<in> set hs \<Longrightarrow>
   int start_pc \<le> bci \<Longrightarrow> bci < int end_pc \<Longrightarrow>
   \<exists>nf. handler_frame v tu f c nf \<and>
     (\<exists>g\<in>set (tb_frames tb). f_offset g = int h \<and> is_assignable_to (v_resolve v) nf g = Inr True)"
proof (induction hs)
  case (Cons x hs)
  show ?case
  proof (cases "x = (start_pc, end_pc, h, c)")
    case True
    with Cons.prems obtain t u nf nf' where
        "(if c \<noteq> 0 then cp_index_to_type (v_cp v) c else Inr (Reference ''java/lang/Throwable'')) = Inr t"
        "push_stack t (frame_in_exception_handler f
          (if tu then f_flags f OR FLAG_THIS_UNINIT else f_flags f)) = Inr (u, nf)"
      and m: "match_stackmap (v_resolve v) tb (int h) True False nf = Inr (True, nf')"
      by (auto simp: Let_def split: if_splits)
    then have "handler_frame v tu f c nf" unfolding handler_frame_def by blast
    with match_stackmap_handler [OF m] show ?thesis by blast
  next
    case False
    with Cons show ?thesis by (cases x) auto
  qed
qed simp

section \<open>Accepted methods are typed\<close>

definition is_start :: "code_mem \<Rightarrow> int \<Rightarrow> bool" where
  "is_start m pc \<longleftrightarrow> (\<exists>u. instr_at m (raw_stream m) u \<and> s_bci u = pc)"

text \<open>
  The instruction \<open>t\<close> has left the frame \<open>f\<close>; \<open>ncf\<close> says that control does not go on behind it. A jump
  backwards is not allowed with an uninitialized object in the frame.
\<close>

definition successors_typed :: "verifier \<Rightarrow> (int \<Rightarrow> frame) \<Rightarrow> bc_stream \<Rightarrow> bool \<Rightarrow> bool \<Rightarrow> frame \<Rightarrow> bool" where
  "successors_typed v \<Phi> t ncf this_uninit f \<longleftrightarrow>
     (\<not> ncf \<longrightarrow> is_start (v_mem v) (s_next_bci t) \<and> flows_to (v_resolve v) f (\<Phi> (s_next_bci t))) \<and>
     (\<forall>pc. is_jump_target (v_mem v) t pc \<longrightarrow>
        is_start (v_mem v) pc \<and> is_assignable_to (v_resolve v) f (\<Phi> pc) = Inr True \<and>
        (pc < s_bci t \<longrightarrow> has_new_object f = Inr False)) \<and>
     (\<forall>(start_pc, end_pc, h, c)\<in>set (mt_exception_table (v_method v)).
        int start_pc \<le> s_bci t \<and> s_bci t < int end_pc \<longrightarrow>
        is_start (v_mem v) (int h) \<and>
        (\<exists>nf. handler_frame v this_uninit f c nf \<and> is_assignable_to (v_resolve v) nf (\<Phi> (int h)) = Inr True))"

definition method_typed :: "verifier \<Rightarrow> venv \<Rightarrow> (int \<Rightarrow> frame) \<Rightarrow> bool" where
  "method_typed v env \<Phi> \<longleftrightarrow>
     (\<forall>t. instr_at (v_mem v) (raw_stream (v_mem v)) t \<longrightarrow>
        frame_ok (mt_max_locals (v_method v)) (mt_max_stack (v_method v)) (\<Phi> (s_bci t)) \<and>
        (s_is_wide t \<longrightarrow> wide_ok (s_code t)) \<and>
        (\<exists>ncf tu f.
           verify_instruction v (ve_table env) (ve_return env) t (s_code t) (\<Phi> (s_bci t)) = Inr ((ncf, tu), f) \<and>
           successors_typed v \<Phi> t ncf tu f))"

lemma table_start:
  assumes cd: "generate_code_data (v_method v) = Inr cd" and tb: "table_ok ml ms cd tb" and g: "g \<in> set (tb_frames tb)"
  shows "is_start (v_mem v) (f_offset g)"
proof -
  have o: "0 \<le> f_offset g" "f_offset g < int (length cd)" "cd ! nat (f_offset g) \<noteq> 0"
    using tb g by (auto simp: table_ok_def list_all_iff)
  with generate_code_data_exact [OF cd, of "nat (f_offset g)"] generate_code_data_ok(2) [OF cd] show ?thesis
    by (auto simp: is_start_def split: if_splits)
qed

lemma typed_target:
  assumes cd: "generate_code_data (v_method v) = Inr cd" and tb: "table_ok ml ms cd (ve_table env)"
    and \<Phi>: "\<And>t. instr_at (v_mem v) (raw_stream (v_mem v)) t \<Longrightarrow> instr_typed v env ml ms \<Phi> t"
    and g: "g \<in> set (tb_frames (ve_table env))"
  shows "is_start (v_mem v) (f_offset g)"
    and "is_assignable_to r f (\<Phi> (f_offset g)) = is_assignable_to r f g"
proof -
  show st: "is_start (v_mem v) (f_offset g)" by (rule table_start [OF cd tb g])
  then obtain u where u: "instr_at (v_mem v) (raw_stream (v_mem v)) u" "s_bci u = f_offset g" by (auto simp: is_start_def)
  from \<Phi> [OF u(1)] u(2) g have "frame_ok ml ms (\<Phi> (f_offset g))" "frame_from ml g (\<Phi> (f_offset g))"
    by (auto simp: instr_typed_def)
  with assignable_to_copy [of ml ms g] g tb show "is_assignable_to r f (\<Phi> (f_offset g)) = is_assignable_to r f g"
    by (auto simp: table_ok_def list_all_iff)
qed

lemma code_data_loop_step:
  assumes "code_data_loop m s cd = Inr cd'" and "\<not> is_last_bytecode s"
  obtains c s' cd1 where "raw_next m s = Inr (c, s')" "c \<noteq> bc_illegal" "code_data_loop m s' cd1 = Inr cd'"
  using assms by (auto simp: code_data_loop.simps [of m s] split: if_splits)

lemma next_start:
  "code_data_loop m s cd = Inr cd' \<Longrightarrow> instr_at m s t \<Longrightarrow> s_next_bci t < s_end_bci t \<Longrightarrow>
   \<exists>u. instr_at m s u \<and> s_bci u = s_next_bci t"
proof (induction "stream_left s" arbitrary: s cd rule: less_induct)
  case less
  from less.prems(2) have nl: "\<not> is_last_bytecode s" by (auto elim: instr_atE)
  from less.prems(1) nl obtain c s' cd1 where n: "raw_next m s = Inr (c, s')" "c \<noteq> bc_illegal"
    and l: "code_data_loop m s' cd1 = Inr cd'" by (rule code_data_loop_step)
  note nx = instr_at_next [OF nl n]
  show ?case
  proof (cases "t = s'")
    case True
    with less.prems(3) have nl': "\<not> is_last_bytecode s'" by (simp add: is_last_bytecode_def)
    from l nl' obtain c' u cd2 where u: "raw_next m s' = Inr (c', u)" "c' \<noteq> bc_illegal" by (rule code_data_loop_step)
    from raw_next_Inr [OF u] instr_at.here [OF nl' u] True nx show ?thesis by auto
  next
    case False
    with less.prems(2) nx have "instr_at m s' t" by simp
    from less.hyps [OF raw_next_left [OF n nl] l this less.prems(3)] nx show ?thesis by blast
  qed
qed

lemma first_start:
  assumes "generate_code_data m = Inr cd" and "m_code (mt_mem m) \<noteq> []"
  shows "is_start (mt_mem m) 0"
proof -
  let ?m = "mt_mem m"
  have nl: "\<not> is_last_bytecode (raw_stream ?m)" using assms(2) by (simp add: is_last_bytecode_def raw_stream_def)
  from assms(1) [unfolded generate_code_data_def] nl obtain c u cd1 where
    u: "raw_next ?m (raw_stream ?m) = Inr (c, u)" "c \<noteq> bc_illegal" by (rule code_data_loop_step)
  from raw_next_Inr [OF u] instr_at.here [OF nl u] show ?thesis
    unfolding is_start_def by (intro exI [of _ u]) (simp add: raw_stream_def)
qed

lemma instr_successors:
  assumes v: "verifier_ok v" and cd: "generate_code_data (v_method v) = Inr cd"
    and tb: "table_ok ml ms cd (ve_table env)"
    and \<Phi>: "\<And>t. instr_at (v_mem v) (raw_stream (v_mem v)) t \<Longrightarrow> instr_typed v env ml ms \<Phi> t"
    and ex: "\<forall>(start_pc, end_pc, h, c)\<in>set (mt_exception_table (v_method v)).
      ve_ex_min env \<le> int start_pc \<and> int end_pc \<le> ve_ex_max env"
    and t: "instr_at (v_mem v) (raw_stream (v_mem v)) t"
  shows "\<exists>ncf tu f. verify_instruction v (ve_table env) (ve_return env) t (s_code t) (\<Phi> (s_bci t)) = Inr ((ncf, tu), f) \<and>
    successors_typed v \<Phi> t ncf tu f"
proof -
  let ?tb = "ve_table env" and ?m = "v_mem v"
  from \<Phi> [OF t] obtain ncf tu f where f0: "frame_ok ml ms (\<Phi> (s_bci t))" "f_offset (\<Phi> (s_bci t)) = s_bci t"
    and i: "verify_instruction v ?tb (ve_return env) t (s_code t) (\<Phi> (s_bci t)) = Inr ((ncf, tu), f)"
    and n: "\<not> ncf \<longrightarrow> s_next_bci t < s_end_bci t \<and> flows_to (v_resolve v) f (\<Phi> (s_next_bci t))"
    and h: "handlers_typed v env (s_bci t) tu f"
    by (auto simp: instr_typed_def)
  have "\<not> ncf \<longrightarrow> is_start ?m (s_next_bci t) \<and> flows_to (v_resolve v) f (\<Phi> (s_next_bci t))"
    using n next_start [OF cd [unfolded generate_code_data_def] t] by (auto simp: is_start_def)
  moreover have "is_start ?m pc \<and> is_assignable_to (v_resolve v) f (\<Phi> pc) = Inr True \<and>
      (pc < s_bci t \<longrightarrow> has_new_object f = Inr False)" if pc: "is_jump_target ?m t pc" for pc
  proof -
    from jump_targets_checked [OF v tb f0(1) i pc] f0(2) obtain g where g: "g \<in> set (tb_frames ?tb)" "f_offset g = pc"
        "is_assignable_to (v_resolve v) f g = Inr True" "pc < s_bci t \<longrightarrow> has_new_object f = Inr False"
      by (auto simp: target_ok_def)
    with typed_target [OF cd tb \<Phi> g(1)] show ?thesis by auto
  qed
  moreover have "is_start ?m (int hp) \<and>
      (\<exists>nf. handler_frame v tu f c nf \<and> is_assignable_to (v_resolve v) nf (\<Phi> (int hp)) = Inr True)"
    if e: "(a, b, hp, c) \<in> set (mt_exception_table (v_method v))" "int a \<le> s_bci t" "s_bci t < int b" for a b hp c
  proof -
    from ex e h have "verify_handlers v ?tb (s_bci t) tu f (mt_exception_table (v_method v)) = Inr ()"
      by (force simp: handlers_typed_def)
    from verify_handlers_Inr [OF this e] obtain nf g where "handler_frame v tu f c nf"
        and g: "g \<in> set (tb_frames ?tb)" "f_offset g = int hp" "is_assignable_to (v_resolve v) nf g = Inr True" by blast
    with typed_target [OF cd tb \<Phi> g(1)] show ?thesis by auto
  qed
  ultimately have "successors_typed v \<Phi> t ncf tu f" by (auto simp: successors_typed_def)
  with i show ?thesis by blast
qed

lemma verify_setup_range:
  assumes "verify_setup v = Inr (env, st)"
  shows "\<forall>(start_pc, end_pc, h, c)\<in>set (mt_exception_table (v_method v)).
      ve_ex_min env \<le> int start_pc \<and> int end_pc \<le> ve_ex_max env"
proof -
  from assms obtain cd where "verify_exception_handler_table v cd (mt_exception_table (v_method v))
      (int (length (m_code (v_mem v)))) (- 1) = Inr (ve_ex_min env, ve_ex_max env)"
    by (auto simp: verify_setup_def Let_def split: if_splits)
  from verify_exception_handler_table_range [OF this] show ?thesis by blast
qed

lemma verify_method_typed:
  assumes v: "verifier_ok v" "method_wf v" and m: "verify_method v = Inr ()"
  shows "\<exists>env st \<Phi>. verify_setup v = Inr (env, st) \<and> is_start (v_mem v) 0 \<and>
    flows_to (v_resolve v) (vs_frame st) (\<Phi> 0) \<and> method_typed v env \<Phi>"
proof -
  let ?ml = "mt_max_locals (v_method v)" and ?ms = "mt_max_stack (v_method v)" and ?m = "v_mem v"
  from m obtain env st stE where s: "verify_setup v = Inr (env, st)" and l: "verify_loop v env st = Inr stE" "vs_no_control_flow stE"
    by (auto simp: verify_method_def split: if_splits)
  from verify_setup_ok(2) [OF v s] obtain cd where cd: "generate_code_data (v_method v) = Inr cd"
    and env: "env_ok ?ml ?ms cd env" and f: "frame_ok ?ml ?ms (vs_frame st)"
    and st: "vs_stream st = raw_stream ?m" "vs_index st = 0" "\<not> vs_no_control_flow st" by blast
  have tb: "table_ok ?ml ?ms cd (ve_table env)" using env by (simp add: env_ok_def)
  obtain \<Phi> where \<Phi>: "\<And>t. instr_at ?m (raw_stream ?m) t \<Longrightarrow> instr_typed v env ?ml ?ms \<Phi> t"
    and e: "\<not> is_last_bytecode (raw_stream ?m)" "flows_to (v_resolve v) (vs_frame st) (\<Phi> 0)"
    using verify_loop_typed [OF v env generate_code_data_ok(2) [OF cd] l f] st
    by (auto simp: index_ok_def raw_stream_def)
  have "is_start ?m 0"
    by (rule first_start [OF cd]) (use e(1) in \<open>auto simp: is_last_bytecode_def raw_stream_def\<close>)
  moreover have "method_typed v env \<Phi>"
    unfolding method_typed_def
    using \<Phi> instr_successors [OF v(1) cd tb \<Phi> verify_setup_range [OF s]] by (auto simp: instr_typed_def)
  ultimately show ?thesis using s e(2) by blast
qed

end
