(* ===== verification/VerifierEffect.thy ===== *)
theory VerifierEffect
  imports VerifierInstr
begin

text \<open>
  What an instruction changes of a number that can be read off the frame: a logic for such
  changes, used for the depth of the operand stack, which has to change as the tables of \<^verbatim>\<open>Bytecodes\<close> say, and for the flag of an
  uninitialized receiver, which only the call of an initializer may clear.
\<close>

interpretation sz: vm_effect "\<lambda>f. int (f_stack_size f)" .

interpretation fl: vm_effect "\<lambda>f. uint (f_flags f)" .

section \<open>The operations on frames\<close>

lemma push_effect: "sz.effect 1 (push_stack t)" "sz.effect 2 (push_stack_2 t u)"
  by (auto simp: sz.effect_def push_stack_def push_stack_2_def split: if_splits)

lemma pop_ex_effect: "sz.effect (- 1) (pop_stack_ex r t)"
  by (auto simp: sz.effect_def pop_stack_ex_def split: if_splits)

lemma pop_effect: "sz.effect (- 1) (pop_stack r t)" "sz.effect (- 1) pop_stack_any"
  by (auto simp: sz.effect_def pop_stack_def pop_stack_ex_def pop_stack_any_def split: if_splits)

lemma pop_2_effect: "sz.effect (- 2) (pop_stack_2 r t u)"
proof -
  have "sz.effect (- 1 + (- 1 + 0)) (vthen (pop_stack_ex r t) (vthen (pop_stack_ex r u) (vreturn ())))"
    by (intro sz.effect_then pop_ex_effect sz.effect_return)
  then show ?thesis
    by (auto simp: sz.effect_def pop_stack_2_def split: if_splits)
qed

lemma if_Inl_Inr: "(if c then Inl e else r) = Inr y \<longleftrightarrow> \<not> c \<and> r = Inr y"
  by simp

lemma get_local_rest: "get_local r i t f = Inr (x, f') \<Longrightarrow> f_stack_size f' = f_stack_size f \<and> f_flags f' = f_flags f"
  unfolding get_local_def if_Inl_Inr rbind_eq_Inr sum.inject prod.inject by (elim exE conjE, drule sym) (simp split: if_splits)

lemma get_local_2_rest: "get_local_2 r i t u f = Inr (x, f') \<Longrightarrow> f' = f"
  unfolding get_local_2_def if_Inl_Inr rbind_eq_Inr by (elim exE conjE) simp

lemma set_local_rest: "set_local i t f = Inr (x, f') \<Longrightarrow> f_stack_size f' = f_stack_size f \<and> f_flags f' = f_flags f"
  unfolding set_local_def if_Inl_Inr rbind_eq_Inr Let_def sum.inject prod.inject
  by (elim exE conjE, drule sym [of _ f']) simp

lemma set_local_2_rest: "set_local_2 i t u f = Inr (x, f') \<Longrightarrow> f_stack_size f' = f_stack_size f \<and> f_flags f' = f_flags f"
  unfolding set_local_2_def if_Inl_Inr rbind_eq_Inr Let_def sum.inject prod.inject
  by (elim exE conjE, drule sym [of _ f']) simp

lemmas local_rest = get_local_rest get_local_2_rest set_local_rest set_local_2_rest

lemma local_effect:
  "sz.effect 0 (get_local r i t)" "sz.effect 0 (get_local_2 r i t u)"
  "sz.effect 0 (set_local i t)" "sz.effect 0 (set_local_2 i t u)"
  by (auto simp: sz.effect_def dest: local_rest)

lemma check_jump_unchanged: "check_jump_target r tb t f = Inr (x, f') \<Longrightarrow> f' = f"
  by (auto simp: check_jump_target_def match_stackmap_def match_stackmap_at_def check_new_object_def vm_Inr split: if_splits)

lemma jump_effect: "sz.effect 0 (check_jump_target r tb t)" "fl.effect 0 (check_jump_target r tb t)"
  by (auto simp: sz.effect_def fl.effect_def dest: check_jump_unchanged)

lemmas sz_ops = push_effect pop_effect pop_2_effect local_effect jump_effect(1)

lemma frame_flags:
  "fl.effect 0 (push_stack t)" "fl.effect 0 (push_stack_2 t u)" "fl.effect 0 pop_stack_any"
  "fl.effect 0 (pop_stack_ex r t)" "fl.effect 0 (pop_stack r t)"
  by (auto simp: fl.effect_def push_stack_def push_stack_2_def pop_stack_any_def pop_stack_ex_def pop_stack_def split: if_splits)

lemma pop_2_flags: "fl.effect 0 (pop_stack_2 r t u)"
  by (auto simp: fl.effect_def pop_stack_2_def pop_stack_ex_def vm_Inr split: if_splits)

lemma local_flags:
  "fl.effect 0 (get_local r i t)" "fl.effect 0 (get_local_2 r i t u)"
  "fl.effect 0 (set_local i t)" "fl.effect 0 (set_local_2 i t u)"
  by (auto simp: fl.effect_def dest: local_rest)

lemmas fl_ops = frame_flags pop_2_flags local_flags jump_effect(2)

section \<open>The helpers of the verifier\<close>

lemma effect_0_rules:
  "fl.effect 0 m \<Longrightarrow> (\<And>x. fl.effect 0 (k x)) \<Longrightarrow> fl.effect 0 (vbind m k)"
  "fl.effect 0 m \<Longrightarrow> fl.effect 0 n \<Longrightarrow> fl.effect 0 (vthen m n)"
  "(\<And>x. fl.effect 0 (h x)) \<Longrightarrow> fl.effect 0 (vfor h xs)"
  using fl.effect_bind [of 0 m 0 k] fl.effect_then [of 0 m 0 n] fl.effect_for [of 0 h xs] by simp_all

lemmas fl_rules = fl.effect_return fl.effect_lift fl.effect_check fl.effect_get fl.effect_fail effect_0_rules

lemma helper_flags:
  "fl.effect 0 (verify_iload v i)" "fl.effect 0 (verify_lload v i)" "fl.effect 0 (verify_fload v i)"
  "fl.effect 0 (verify_dload v i)" "fl.effect 0 (verify_aload v i)" "fl.effect 0 (verify_istore v i)"
  "fl.effect 0 (verify_lstore v i)" "fl.effect 0 (verify_fstore v i)" "fl.effect 0 (verify_dstore v i)"
  "fl.effect 0 (verify_astore v i)" "fl.effect 0 (verify_iinc v i)" "fl.effect 0 (verify_return_value v t u)"
  "fl.effect 0 (verify_ldc v opc i)" "fl.effect 0 (verify_switch v tb s)" "fl.effect 0 (pop_types v ts)"
  "fl.effect 0 (pop_one v t)" "fl.effect 0 (pop_under v t w)" "fl.effect 0 (verify_anewarray v i)"
  by (simp_all add: verify_iload_def verify_lload_def verify_fload_def verify_dload_def verify_aload_def verify_istore_def
      verify_lstore_def verify_fstore_def verify_dstore_def verify_astore_def verify_iinc_def verify_return_value_def
      verify_ldc_def verify_switch_def pop_types_def pop_one_def pop_under_def verify_anewarray_def Let_def fl_rules fl_ops)

lemmas sz_basic = sz_ops sz.effect_return sz.effect_lift sz.effect_check sz.effect_get

lemmas sz_rules = sz_basic [THEN sz.effect_is] sz_basic [THEN sz.effect_then_by] sz_basic [THEN sz.effect_bind_by] sz.effect_fail

lemma helper_effect:
  "sz.effect 1 (verify_iload v i)" "sz.effect 2 (verify_lload v i)" "sz.effect 1 (verify_fload v i)"
  "sz.effect 2 (verify_dload v i)" "sz.effect 1 (verify_aload v i)" "sz.effect (- 1) (verify_istore v i)"
  "sz.effect (- 2) (verify_lstore v i)" "sz.effect (- 1) (verify_fstore v i)" "sz.effect (- 2) (verify_dstore v i)"
  "sz.effect (- 1) (verify_astore v i)" "sz.effect 0 (verify_iinc v i)" "sz.effect 0 (verify_return_value v t u)"
  "sz.effect (- 1) (pop_one v t)" "sz.effect (- 1) (pop_under v t w)" "sz.effect 0 (verify_anewarray v i)"
  by (simp_all add: verify_iload_def verify_lload_def verify_fload_def verify_dload_def verify_aload_def verify_istore_def
    verify_lstore_def verify_fstore_def verify_dstore_def verify_astore_def verify_iinc_def verify_return_value_def
    pop_one_def pop_under_def verify_anewarray_def Let_def sz_rules)

lemma switch_effect: "sz.effect (- 1) (verify_switch v tb s)"
proof -
  have f: "sz.effect 0 (vfor (\<lambda>i. vbind (vlift (r i)) (\<lambda>off. check_jump_target (v_resolve v) tb (h off))) xs)" for r h xs
    using sz.effect_for [of 0 "\<lambda>i. vbind (vlift (r i)) (\<lambda>off. check_jump_target (v_resolve v) tb (h off))" xs]
    by (simp add: sz_rules)
  show ?thesis by (simp add: verify_switch_def Let_def sz_rules f)
qed

lemma cp_type_tag:
  assumes "verify_cp_type cp i types = Inr ()" and "tag_at cp i = Inr tag"
    and "types \<notin> {shl1 JVM_CONSTANT_InterfaceMethodref, shl1 JVM_CONSTANT_Methodref, shl1 JVM_CONSTANT_Fieldref}"
  shows "types AND shl1 tag \<noteq> 0"
  using assms by (auto simp: verify_cp_type_def split: if_splits)

lemma ldc_effect: "opc \<in> {bc_ldc, bc_ldc_w} \<Longrightarrow> sz.effect 1 (verify_ldc v opc i)"
proof -
  assume o: "opc \<in> {bc_ldc, bc_ldc_w}"
  let ?types = "shl1 JVM_CONSTANT_Integer OR shl1 JVM_CONSTANT_Float OR shl1 JVM_CONSTANT_String OR shl1 JVM_CONSTANT_Class"
  have "sz.effect 1
      (vthen (if \<not> is_unresolved_string_tag tag \<and> \<not> is_unresolved_klass_tag tag then vlift (verify_cp_type (v_cp v) i ?types)
              else vreturn ())
        (if is_string_tag tag \<or> is_unresolved_string_tag tag then push_stack (Reference ''java/lang/String'')
         else if is_klass_tag tag \<or> is_unresolved_klass_tag tag then push_stack (Reference ''java/lang/Class'')
         else if tag = JVM_CONSTANT_Integer then push_stack Integer
         else if tag = JVM_CONSTANT_Float then push_stack Float
         else if tag = JVM_CONSTANT_Double then push_stack_2 Double Double_2nd
         else if tag = JVM_CONSTANT_Long then push_stack_2 Long Long_2nd
         else vfail (VerifyError ''Invalid index in ldc'')))" (is "sz.effect 1 ?m")
    if t: "tag_at (v_cp v) i = Inr tag" for tag
  proof (cases "tag \<in> {JVM_CONSTANT_Double, JVM_CONSTANT_Long}")
    case True
    then have "verify_cp_type (v_cp v) i ?types \<noteq> Inr ()"
      using cp_type_tag [of "v_cp v" i ?types, OF _ t] by (auto simp: shl1_def)
    moreover have "\<not> is_unresolved_string_tag tag" "\<not> is_unresolved_klass_tag tag"
      using True by (auto simp: is_unresolved_string_tag_def is_unresolved_klass_tag_def)
    ultimately show ?thesis by (simp add: sz.effect_def vm_Inr)
  next
    case False
    then show ?thesis by (simp add: sz_rules)
  qed
  moreover have "opc = bc_ldc \<or> opc = bc_ldc_w" using o by simp
  ultimately show ?thesis
    unfolding verify_ldc_def by (simp only: if_True simp_thms sz.effect_then_0 [OF sz.effect_lift sz.effect_bind_lift])
qed

section \<open>The cases of the switch\<close>

lemmas sz_helpers = helper_effect switch_effect

lemmas sz_steps = sz_rules sz_helpers [THEN sz.effect_is] sz_helpers [THEN sz.effect_then_by] sz_helpers [THEN sz.effect_bind_by]
  go_on_def ends_def depth_values vm_assoc

lemma consts_effect: "switch_consts v s opc = Some m \<Longrightarrow> opc \<noteq> bc_ldc2_w \<Longrightarrow> sz.effect (depth opc) m"
  by (auto simp: switch_consts_def sz_steps ldc_effect [THEN sz.effect_then_by] split: if_splits)

lemma loads_effect: "switch_loads v s opc = Some m \<Longrightarrow> sz.effect (depth opc) m"
  by (auto simp: switch_loads_def Let_def sz_steps split: if_splits)

lemma array_loads_effect: "switch_array_loads v opc = Some m \<Longrightarrow> sz.effect (depth opc) m"
  by (auto simp: switch_array_loads_def array_load_def Let_def sz_steps split: if_splits)

lemma stores_effect: "switch_stores v s opc = Some m \<Longrightarrow> sz.effect (depth opc) m"
  by (auto simp: switch_stores_def Let_def sz_steps split: if_splits)


lemma array_stores_effect: "switch_array_stores v opc = Some m \<Longrightarrow> sz.effect (depth opc) m"
  by (auto simp: switch_array_stores_def array_store_def Let_def sz_steps split: if_splits)

lemma stack_effect: "switch_stack v opc = Some m \<Longrightarrow> sz.effect (depth opc) m"
  by (auto simp: switch_stack_def Let_def sz_steps split: if_splits)

lemma arith_effect: "switch_arith v s opc = Some m \<Longrightarrow> sz.effect (depth opc) m"
  by (auto simp: switch_arith_def Let_def sz_steps split: if_splits)

lemma convert_effect: "switch_convert v opc = Some m \<Longrightarrow> sz.effect (depth opc) m"
  by (auto simp: switch_convert_def Let_def sz_steps split: if_splits)

lemma branch_effect: "switch_branch v tb s opc = Some m \<Longrightarrow> sz.effect (depth opc) m"
  by (auto simp: switch_branch_def Let_def sz_steps split: if_splits)

lemma return_effect: "switch_return v rt opc = Some m \<Longrightarrow> sz.effect (depth opc) m"
  by (auto simp: switch_return_def Let_def sz_steps split: if_splits)

text \<open>The instructions for which the tables do not fix the depth, or the check of constants lets a wrong one pass.\<close>

definition open_depth :: "int set" where
  "open_depth = {bc_ldc2_w, bc_getstatic, bc_putstatic, bc_getfield, bc_putfield, bc_invokevirtual, bc_invokespecial,
     bc_invokestatic, bc_invokeinterface, bc_multianewarray}"

lemma objects_effect: "switch_objects v s opc = Some m \<Longrightarrow> opc \<notin> open_depth \<Longrightarrow> sz.effect (depth opc) m"
  by (auto simp: switch_objects_def open_depth_def Let_def sz_steps split: if_splits)

lemma instruction_effect:
  assumes "opc \<notin> open_depth"
  shows "sz.effect (depth opc) (verify_instruction v tb rt s opc)"
proof -
  have ldc: "opc \<noteq> bc_ldc2_w" using assms by (simp add: open_depth_def)
  have "sz.effect (depth opc) m"
    if "first_case
           [switch_consts v s opc, switch_loads v s opc, switch_array_loads v opc,
            switch_stores v s opc, switch_array_stores v opc, switch_stack v opc,
            switch_arith v s opc, switch_convert v opc, switch_branch v tb s opc,
            switch_return v rt opc, switch_objects v s opc] = Some m" for m
    using first_case_Some [OF that]
    by (auto simp: eq_commute [of "Some m"]
        dest: consts_effect [OF _ ldc] loads_effect array_loads_effect stores_effect array_stores_effect stack_effect
          arith_effect convert_effect branch_effect return_effect objects_effect [OF _ assms])
  then have "sz.effect (depth opc + 0) (vbind m (\<lambda>n. vreturn (n, False)))"
    if "first_case
           [switch_consts v s opc, switch_loads v s opc, switch_array_loads v opc,
            switch_stores v s opc, switch_array_stores v opc, switch_stack v opc,
            switch_arith v s opc, switch_convert v opc, switch_branch v tb s opc,
            switch_return v rt opc, switch_objects v s opc] = Some m" for m
    using that by (intro sz.effect_bind sz.effect_return)
  with assms show ?thesis
    by (auto simp: verify_instruction_def open_depth_def sz.effect_fail split: option.split)
qed

section \<open>The flag of an uninitialized receiver\<close>

lemmas fl_steps = fl_rules fl_ops helper_flags go_on_def ends_def

lemma effect_pair: "(\<And>a b. fl.effect 0 (k a b)) \<Longrightarrow> fl.effect 0 (case x of (a, b) \<Rightarrow> k a b)"
  by (cases x) simp

lemma field_flags: "fl.effect 0 (verify_field_instructions v s)"
  by (simp add: verify_field_instructions_def field_access_def check_protected_def Let_def fl_steps)

lemma initialize_object_flags: "old \<noteq> uninitialized_this_type \<Longrightarrow> fl.effect 0 (initialize_object old new)"
  by (auto simp: fl.effect_def initialize_object_def Let_def)

lemma invoke_init_flags:
  assumes "verify_invoke_init v i t f = Inr (tu, f')" and "\<not> tu"
  shows "uint (f_flags f') = uint (f_flags f)"
proof -
  from assms obtain u f1 n where p: "pop_stack (v_resolve v) ReferenceQuery f = Inr (u, f1)"
    and u: "u \<noteq> uninitialized_this_type" and o: "initialize_object u n f1 = Inr ((), f')"
    by (auto simp: verify_invoke_init_def vm_Inr split: if_splits)
  from fl.effect_Inr [OF frame_flags(5) p] fl.effect_Inr [OF initialize_object_flags [OF u] o] show ?thesis by simp
qed

lemma objectref_flags:
  assumes "verify_objectref v opc b i n sig t f = Inr (tu, f')" and "\<not> tu"
  shows "uint (f_flags f') = uint (f_flags f)"
proof (cases "opc \<noteq> bc_invokestatic \<and> n = ''<init>''")
  case True
  with assms show ?thesis by (auto simp: verify_objectref_def dest: invoke_init_flags)
next
  case False
  then have "fl.effect 0 (verify_objectref v opc b i n sig t)"
    by (auto simp: verify_objectref_def fl_steps)
  from fl.effect_Inr [OF this assms(1)] show ?thesis by simp
qed

lemma push_result_flags: "fl.effect 0 (push_result n ss)"
  by (simp add: push_result_def fl_steps)

lemma objectref_init:
  "verify_objectref v opc b i n sig t f = Inr (True, f') \<Longrightarrow> n = ''<init>'' \<and> opc \<noteq> bc_invokestatic"
  by (auto simp: verify_objectref_def vm_Inr split: if_splits)

lemma invoke_flags:
  assumes "verify_invoke_instructions v s f = Inr (tu, f')"
  shows "(\<not> tu \<longrightarrow> uint (f_flags f') = uint (f_flags f)) \<and> (tu \<longrightarrow> s_code s = bc_invokespecial)"
proof -
  from assms obtain i n sig t ts ss f1 f2 where
      c: "check_method_name v (s_code s) n t = Inr ()" and p: "pop_types v ts f = Inr ((), f1)"
      and o: "verify_objectref v (s_code s) (s_bci s) i n sig t f1 = Inr (tu, f2)"
      and r: "push_result n ss f2 = Inr ((), f')"
    unfolding verify_invoke_instructions_def Let_def vm_Inr by (auto simp: vm_Inr split: if_splits)
  from fl.effect_Inr [OF helper_flags(15) p] fl.effect_Inr [OF push_result_flags r] objectref_flags [OF o]
  have "\<not> tu \<Longrightarrow> uint (f_flags f') = uint (f_flags f)" by simp
  moreover have "s_code s = bc_invokespecial" if tu
    using objectref_init [of v "s_code s" "s_bci s" i n sig t f1 f2] o that c
    by (auto simp: check_method_name_def arr_get_def split: if_splits)
  ultimately show ?thesis by blast
qed

lemmas switch_defs = switch_consts_def switch_loads_def array_load_def switch_array_loads_def switch_stores_def array_store_def
  switch_array_stores_def switch_stack_def switch_arith_def switch_convert_def switch_branch_def switch_return_def

lemma switch_flags:
  "switch_consts v s opc = Some m \<Longrightarrow> fl.effect 0 m" "switch_loads v s opc = Some m \<Longrightarrow> fl.effect 0 m"
  "switch_array_loads v opc = Some m \<Longrightarrow> fl.effect 0 m" "switch_stores v s opc = Some m \<Longrightarrow> fl.effect 0 m"
  "switch_array_stores v opc = Some m \<Longrightarrow> fl.effect 0 m" "switch_stack v opc = Some m \<Longrightarrow> fl.effect 0 m"
  "switch_arith v s opc = Some m \<Longrightarrow> fl.effect 0 m" "switch_convert v opc = Some m \<Longrightarrow> fl.effect 0 m"
  "switch_branch v tb s opc = Some m \<Longrightarrow> fl.effect 0 m" "switch_return v rt opc = Some m \<Longrightarrow> fl.effect 0 m"
  by (auto simp: switch_defs Let_def fl_steps split: if_splits)

lemma objects_flags: "switch_objects v s opc = Some m \<Longrightarrow> fl.effect 0 m"
  by (auto simp: switch_objects_def Let_def fl_steps field_flags split: if_splits)

lemma instruction_flags:
  assumes "verify_instruction v tb rt s (s_code s) f = Inr ((ncf, tu), f')"
  shows "(\<not> tu \<longrightarrow> f_flags f' = f_flags f) \<and> (tu \<longrightarrow> s_code s = bc_invokespecial)"
proof (cases "s_code s \<in> {bc_invokevirtual, bc_invokespecial, bc_invokestatic, bc_invokeinterface}")
  case True
  with assms have "verify_invoke_instructions v s f = Inr (tu, f')" by (auto simp: verify_instruction_def vm_Inr)
  from invoke_flags [OF this] show ?thesis by (simp add: word_uint_eq_iff)
next
  case False
  with assms obtain m where m: "first_case
           [switch_consts v s (s_code s), switch_loads v s (s_code s), switch_array_loads v (s_code s),
            switch_stores v s (s_code s), switch_array_stores v (s_code s), switch_stack v (s_code s),
            switch_arith v s (s_code s), switch_convert v (s_code s), switch_branch v tb s (s_code s),
            switch_return v rt (s_code s), switch_objects v s (s_code s)] = Some m" "m f = Inr (ncf, f')" "\<not> tu"
    by (auto simp: verify_instruction_def vm_Inr split: option.splits)
  from first_case_Some [OF m(1)] have "fl.effect 0 m"
    by (auto simp: eq_commute [of "Some m"] dest: switch_flags objects_flags)
  from fl.effect_Inr [OF this m(2)] m(3) show ?thesis by (simp add: word_uint_eq_iff)
qed

end
