(* ===== verification/VerifierInit.thy ===== *)
theory VerifierInit
  imports VerifierSound VerifierEffect
begin

text \<open>
  Constructors: on every path through an accepted constructor, whatever jumps and exceptions it
  contains, the receiver has been initialized by a call of another constructor before \<^verbatim>\<open>return\<close>.
\<close>

section \<open>Instructions that control does not pass\<close>

definition ending_codes :: "int set" where
  "ending_codes = {bc_goto, bc_goto_w, bc_tableswitch, bc_lookupswitch, bc_ireturn, bc_lreturn, bc_freturn, bc_dreturn,
     bc_areturn, bc_return, bc_athrow}"

definition yields :: "'a \<Rightarrow> ('s, 'a) vm \<Rightarrow> bool" where
  "yields y m \<longleftrightarrow> (\<forall>f x f'. m f = Inr (x, f') \<longrightarrow> x = y)"

lemma yields_bind: "(\<And>x. yields y (k x)) \<Longrightarrow> yields y (vbind m k)" "yields y n \<Longrightarrow> yields y (vthen m n)"
  by (auto simp: yields_def vm_Inr)

lemma yields_seq: "yields False (go_on ms)" "yields True (ends ms)"
  by (induction ms) (auto simp: go_on_def ends_def yields_bind, auto simp: yields_def vm_Inr)

lemma switch_ends:
  "switch_consts v s opc = Some m \<Longrightarrow> yields (opc \<in> ending_codes) m"
  "switch_loads v s opc = Some m \<Longrightarrow> yields (opc \<in> ending_codes) m"
  "switch_array_loads v opc = Some m \<Longrightarrow> yields (opc \<in> ending_codes) m"
  "switch_stores v s opc = Some m \<Longrightarrow> yields (opc \<in> ending_codes) m"
  "switch_array_stores v opc = Some m \<Longrightarrow> yields (opc \<in> ending_codes) m"
  "switch_stack v opc = Some m \<Longrightarrow> yields (opc \<in> ending_codes) m"
  "switch_arith v s opc = Some m \<Longrightarrow> yields (opc \<in> ending_codes) m"
  "switch_convert v opc = Some m \<Longrightarrow> yields (opc \<in> ending_codes) m"
  "switch_branch v tb s opc = Some m \<Longrightarrow> yields (opc \<in> ending_codes) m"
  "switch_return v rt opc = Some m \<Longrightarrow> yields (opc \<in> ending_codes) m"
  "switch_objects v s opc = Some m \<Longrightarrow> yields (opc \<in> ending_codes) m"
  by (auto simp: switch_defs switch_objects_def Let_def ending_codes_def yields_bind yields_seq split: if_splits)

lemma instruction_ends:
  assumes "verify_instruction v tb rt s (s_code s) f = Inr ((ncf, tu), f')"
  shows "ncf \<longleftrightarrow> s_code s \<in> ending_codes"
proof (cases "s_code s \<in> {bc_invokevirtual, bc_invokespecial, bc_invokestatic, bc_invokeinterface}")
  case True
  with assms show ?thesis by (auto simp: verify_instruction_def vm_Inr ending_codes_def)
next
  case False
  with assms obtain m where m: "first_case
           [switch_consts v s (s_code s), switch_loads v s (s_code s), switch_array_loads v (s_code s),
            switch_stores v s (s_code s), switch_array_stores v (s_code s), switch_stack v (s_code s),
            switch_arith v s (s_code s), switch_convert v (s_code s), switch_branch v tb s (s_code s),
            switch_return v rt (s_code s), switch_objects v s (s_code s)] = Some m" "m f = Inr (ncf, f')"
    by (auto simp: verify_instruction_def vm_Inr split: option.splits)
  from first_case_Some [OF m(1)] have "yields (s_code s \<in> ending_codes) m"
    by (auto simp: eq_commute [of "Some m"] dest: switch_ends)
  with m(2) show ?thesis by (auto simp: yields_def)
qed

section \<open>Paths\<close>

text \<open>
  \<open>path v ini pc d\<close>: control can reach the position \<open>pc\<close>, and \<open>d\<close> says whether one of the instructions on the
  way that have completed satisfies \<open>ini\<close>. An instruction that throws has not completed.
\<close>

inductive path :: "verifier \<Rightarrow> (bc_stream \<Rightarrow> bool) \<Rightarrow> int \<Rightarrow> bool \<Rightarrow> bool" for v ini where
  start: "path v ini 0 False"
| fall_through: "path v ini (s_bci t) d \<Longrightarrow> instr_at (v_mem v) (raw_stream (v_mem v)) t \<Longrightarrow> s_code t \<notin> ending_codes \<Longrightarrow>
    path v ini (s_next_bci t) (d \<or> ini t)"
| jump: "path v ini (s_bci t) d \<Longrightarrow> instr_at (v_mem v) (raw_stream (v_mem v)) t \<Longrightarrow> is_jump_target (v_mem v) t pc \<Longrightarrow>
    path v ini pc (d \<or> ini t)"
| throw: "path v ini (s_bci t) d \<Longrightarrow> instr_at (v_mem v) (raw_stream (v_mem v)) t \<Longrightarrow>
    (a, e, h, c) \<in> set (mt_exception_table (v_method v)) \<Longrightarrow> int a \<le> s_bci t \<Longrightarrow> s_bci t < int e \<Longrightarrow>
    path v ini (int h) d"

text \<open>The call of a constructor on the receiver, by the types of the operands.\<close>

definition initializes_this :: "verifier \<Rightarrow> venv \<Rightarrow> (int \<Rightarrow> frame) \<Rightarrow> bc_stream \<Rightarrow> bool" where
  "initializes_this v env \<Phi> t \<longleftrightarrow> s_code t = bc_invokespecial \<and>
     (\<exists>ncf f. verify_instruction v (ve_table env) (ve_return env) t (s_code t) (\<Phi> (s_bci t)) = Inr ((ncf, True), f))"

lemma flag_bit: "flag_this_uninit f \<longleftrightarrow> bit (f_flags f) 0"
  by (simp add: flag_this_uninit_def and_one_eq bit_0 odd_iff_mod_2_eq_one)

lemma flag_mono: "f_flags f OR f_flags g = f_flags g \<Longrightarrow> flag_this_uninit f \<Longrightarrow> flag_this_uninit g"
  by (metis flag_bit bit_or_iff)

lemma assignable_flag: "is_assignable_to r f g = Inr True \<Longrightarrow> flag_this_uninit f \<Longrightarrow> flag_this_uninit g"
  by (auto simp: is_assignable_to_def Let_def split: if_splits intro: flag_mono)

lemma flows_flag: "flows_to r f g \<Longrightarrow> flag_this_uninit f \<Longrightarrow> flag_this_uninit g"
  unfolding flows_to_def by (metis assignable_flag flag_this_uninit_def frame.select_convs(6) frame.surjective frame.update_convs(1))


lemma handler_flag:
  assumes "handler_frame v tu f c nf" and "tu \<or> flag_this_uninit f"
  shows "flag_this_uninit nf"
proof -
  from assms(1) obtain t u where
      p: "push_stack t (frame_in_exception_handler f (if tu then f_flags f OR FLAG_THIS_UNINIT else f_flags f)) = Inr (u, nf)"
    by (auto simp: handler_frame_def)
  from fl.effect_Inr [OF frame_flags(1) p]
  have "f_flags nf = (if tu then f_flags f OR FLAG_THIS_UNINIT else f_flags f)"
    by (simp add: frame_in_exception_handler_def word_uint_eq_iff)
  with assms(2) show ?thesis by (auto simp: flag_bit bit_or_iff)
qed

section \<open>Constructors initialize the receiver\<close>

lemma setup_flag:
  assumes v: "verifier_ok v" "method_wf v" and s: "verify_setup v = Inr (env, st)"
    and n: "mt_name (v_method v) = ''<init>''" "\<not> mt_is_static (v_method v)" "k_name (v_klass v) \<noteq> ''java/lang/Object''"
  shows "flag_this_uninit (vs_frame st)"
proof -
  let ?m = "v_method v"
  from v(2) obtain ps r where d: "mt_signature ?m = method_desc ps r" "list_all jtype_ok ps" "ret_ok r"
      "length (entry_this ?m (current_type v)) + length (args_vtypes ps) \<le> mt_max_locals ?m"
    by (auto simp: method_wf_def)
  from s obtain rt where rt: "set_locals_from_arg ?m (current_type v)
      (stack_map_frame (mt_max_locals ?m) (mt_max_stack ?m)) = Inr (rt, vs_frame st)"
    by (auto simp: verify_setup_def Let_def split: if_splits)
  from rt [symmetric, unfolded set_locals_from_arg_eq [OF d]]
  have "f_flags (vs_frame st) = entry_flags ?m (current_type v)" by simp
  with n show ?thesis by (simp add: flag_bit entry_flags_def current_type_def)
qed

lemma path_flag:
  assumes ty: "method_typed v env \<Phi>" and f0: "flag_this_uninit (\<Phi> 0)"
    and p: "path v (initializes_this v env \<Phi>) pc d"
  shows "\<not> d \<Longrightarrow> flag_this_uninit (\<Phi> pc)"
  using p
proof (induction rule: path.induct)
  case start
  show ?case by (rule f0)
next
  case (fall_through t d)
  from ty fall_through.hyps(2) obtain ncf tu f where
      i: "verify_instruction v (ve_table env) (ve_return env) t (s_code t) (\<Phi> (s_bci t)) = Inr ((ncf, tu), f)"
      and st: "successors_typed v \<Phi> t ncf tu f"
    unfolding method_typed_def by blast
  from instruction_ends [OF i] fall_through.hyps(3) st have "flows_to (v_resolve v) f (\<Phi> (s_next_bci t))"
    by (simp add: successors_typed_def)
  moreover have "\<not> tu" using fall_through.prems instruction_flags [OF i] i by (auto simp: initializes_this_def)
  ultimately show ?case
    using fall_through.prems fall_through.IH instruction_flags [OF i] by (auto simp: flag_bit intro: flows_flag [unfolded flag_bit])
next
  case (jump t d pc)
  from ty jump.hyps(2) obtain ncf tu f where
      i: "verify_instruction v (ve_table env) (ve_return env) t (s_code t) (\<Phi> (s_bci t)) = Inr ((ncf, tu), f)"
      and st: "successors_typed v \<Phi> t ncf tu f"
    unfolding method_typed_def by blast
  from jump.hyps(3) st have "is_assignable_to (v_resolve v) f (\<Phi> pc) = Inr True"
    by (simp add: successors_typed_def)
  moreover have "\<not> tu" using jump.prems instruction_flags [OF i] i by (auto simp: initializes_this_def)
  ultimately show ?case
    using jump.prems jump.IH instruction_flags [OF i] by (auto simp: flag_bit intro: assignable_flag [unfolded flag_bit])
next
  case (throw t d a e h c)
  from ty throw.hyps(2) obtain ncf tu f where
      i: "verify_instruction v (ve_table env) (ve_return env) t (s_code t) (\<Phi> (s_bci t)) = Inr ((ncf, tu), f)"
      and st: "successors_typed v \<Phi> t ncf tu f"
    unfolding method_typed_def by blast
  from st throw.hyps(3-5) obtain nf where nf: "handler_frame v tu f c nf" "is_assignable_to (v_resolve v) nf (\<Phi> (int h)) = Inr True"
    unfolding successors_typed_def by blast
  have "tu \<or> flag_this_uninit f"
    using throw.IH throw.prems instruction_flags [OF i] by (auto simp: flag_bit)
  from handler_flag [OF nf(1) this] nf(2) show ?case by (rule assignable_flag [rotated])
qed

lemma return_flag:
  "verify_instruction v tb rt s bc_return f = Inr (x, f') \<Longrightarrow> mt_name (v_method v) = ''<init>'' \<Longrightarrow> \<not> flag_this_uninit f"
  by (auto simp: verify_instruction_def switch_defs Let_def vm_Inr ends_Inr)

lemma constructor_path:
  assumes v: "verifier_ok v" "method_wf v" and m: "verify_method v = Inr ()"
    and n: "mt_name (v_method v) = ''<init>''" "\<not> mt_is_static (v_method v)" "k_name (v_klass v) \<noteq> ''java/lang/Object''"
  shows "\<exists>env \<Phi>. method_typed v env \<Phi> \<and>
    (\<forall>t d. instr_at (v_mem v) (raw_stream (v_mem v)) t \<and> s_code t = bc_return \<and>
       path v (initializes_this v env \<Phi>) (s_bci t) d \<longrightarrow> d)"
proof -
  from verify_method_typed [OF v m] obtain env st \<Phi> where s: "verify_setup v = Inr (env, st)"
    and f: "flows_to (v_resolve v) (vs_frame st) (\<Phi> 0)" and ty: "method_typed v env \<Phi>"
    by blast
  from flows_flag [OF f setup_flag [OF v s n]] have f0: "flag_this_uninit (\<Phi> 0)" .
  have "d" if t: "instr_at (v_mem v) (raw_stream (v_mem v)) t" "s_code t = bc_return"
    and p: "path v (initializes_this v env \<Phi>) (s_bci t) d" for t d
  proof -
    from ty t(1) obtain x f where "verify_instruction v (ve_table env) (ve_return env) t (s_code t) (\<Phi> (s_bci t)) = Inr (x, f)"
      unfolding method_typed_def by blast
    with t(2) n(1) have "\<not> flag_this_uninit (\<Phi> (s_bci t))" by (auto dest: return_flag)
    with path_flag [OF ty f0 p] show d by blast
  qed
  with ty show ?thesis by blast
qed

end
