(* ===== verification/VerifierExamples.thy ===== *)
theory VerifierExamples
  imports VerifierInit
begin

text \<open>
  Methods that the verifier accepts, evaluated step by step. The first is a static method of the class \<open>B\<close> with the
  descriptor \<open>(I)V\<close> and the code \<^verbatim>\<open>iload_0; ifeq 5; nop; return\<close>, where 5 is the offset of
  \<^verbatim>\<open>return\<close> and the only offset with a frame in the stack map table. Then follow a constructor, and a method with an
  exception handler around the call of a constructor.
\<close>

section \<open>The class and the method\<close>

definition ex_mem :: "u1 list \<Rightarrow> code_mem" where
  "ex_mem code = \<lparr> m_code = code, m_after = (\<lambda>_. 0), m_orig = (\<lambda>_. - 1), m_beyond = (\<lambda>_. 0) \<rparr>"

definition ex_branch :: meth where
  "ex_branch =
     \<lparr> mt_name = ''f'', mt_signature = ''(I)V'', mt_is_static = True, mt_is_native = False, mt_is_abstract = False,
       mt_max_stack = 1, mt_max_locals = 1, mt_mem = ex_mem [26, 153, 0, 4, 0, 177],
       mt_exception_table = [], mt_localvariable_table = [], mt_stackmap_data = Some [0, 1, 5] \<rparr>"

definition ex_pool :: constant_pool where
  "ex_pool = \<lparr> cp_entries = [CP_Invalid], cp_cache = None \<rparr>"

definition ex_verifier :: verifier where
  "ex_verifier = \<lparr> v_klass = ex_b, v_method = ex_branch, v_cp = ex_pool,
     v_resolve = ex_resolve, v_addr = ex_addr \<rparr>"

lemma ex_branch_sel:
  "mt_max_stack ex_branch = 1" "mt_max_locals ex_branch = 1" "mt_signature ex_branch = ''(I)V''"
  "length (m_code (mt_mem ex_branch)) = 6" "mt_exception_table ex_branch = []" "mt_localvariable_table ex_branch = []"
  "mt_is_static ex_branch" "mt_name ex_branch = ''f''" "mt_stackmap_data ex_branch = Some [0, 1, 5]"
  "mt_is_native ex_branch = False" "mt_is_abstract ex_branch = False"
  by (simp_all add: ex_branch_def ex_mem_def)

lemma ex_verifier_sel:
  "v_method ex_verifier = ex_branch" "current_type ex_verifier = Reference ''B''" "v_cp ex_verifier = ex_pool"
  "v_resolve ex_verifier = ex_resolve"
  by (simp_all add: ex_verifier_def current_type_def ex_b_def)

lemma ex_resolve_ok:
  "no_fault (ex_resolve n)" "ex_resolve n = Inr k \<Longrightarrow> klass_sorted addr k"
  by (auto simp: ex_resolve_def ex_object_def ex_a_def ex_b_def ex_i_def methods_sorted_def split: if_splits)

lemma ex_verifier_ok: "verifier_ok ex_verifier"
proof -
  have "legal_class_name ''B''" by (simp add: legal_class_name_def invalid_name_char_def)
  then show ?thesis
    by (simp add: verifier_ok_def ex_verifier_def ex_pool_def cp_wf_def resolve_safe_def ex_resolve_ok ex_addr_inj
        ex_b_def)
qed

lemma ex_method_wf: "method_wf ex_verifier"
proof -
  have "''(I)V'' = method_desc [JPrim CHR ''I''] None" by (simp add: method_desc_def ret_desc_def)
  then have "\<exists>ps r. list_all jtype_ok ps \<and> ret_ok r \<and> ''(I)V'' = method_desc ps r \<and>
      length (entry_this ex_branch (Reference ''B'')) + length (args_vtypes ps) \<le> 1"
    by (intro exI [of _ "[JPrim CHR ''I'']"] exI [of _ None])
      (simp add: ret_ok_def entry_this_def ex_branch_sel args_vtypes_def)
  then show ?thesis by (simp add: method_wf_def ex_verifier_sel ex_branch_sel)
qed

section \<open>Setting up\<close>

lemmas eval_stream = raw_next_def raw_stream_def length_for_ranges length_ranges_def code_or_bp_at_def bcp_u1_def
  jint_add_def is_last_bytecode_def get_Java_u2_def dest_def u2_of_def s2_of_def

lemmas eval_vm = vbind_def vthen_def vreturn_def vlift_def vget_def vmodify_def vcheck_def vfail_def Let_def
  arr_get_def arr_set_def arr_get_i_def

lemmas eval_table = stack_map_table_def reader_next_def next_same_def get_u1_def get_u2_def u2_of_def
  next_offset_def frame_on_def check_end_def at_end_def copy_locals_def check_verify_def map_stream_of_def

lemmas eval_signature = set_locals_from_arg_def set_this_def stack_map_frame_def signature_stream_def sig_next.simps
  sig_types_loop.simps change_sig_to_verificationType_def return_vtype_def next_non_primitive_def
  is_valid_method_signature_def valid_parameters.simps is_valid_type_def

lemmas eval_instr = verify_instruction_def switch_consts_def switch_loads_def switch_array_loads_def switch_stores_def
  switch_array_stores_def switch_stack_def switch_arith_def switch_convert_def switch_branch_def switch_return_def
  go_on_def ends_def pop_one_def verify_iload_def get_local_def push_stack_def pop_stack_def is_assignable_from.simps

definition ex_frame :: "int \<Rightarrow> nat \<Rightarrow> vtype list \<Rightarrow> frame" where
  "ex_frame b n st = \<lparr> f_offset = b, f_locals_size = 1, f_stack_size = n, f_max_locals = 1, f_max_stack = 1,
     f_flags = 0, f_locals = [Integer], f_stack = st \<rparr>"

definition ex_table :: map_table where
  "ex_table = \<lparr> tb_code_length = 6, tb_frames = [ex_frame 5 0 []] \<rparr>"

definition ex_env :: venv where
  "ex_env = \<lparr> ve_table = ex_table, ve_return = Bogus, ve_ex_min = 6, ve_ex_max = - 1 \<rparr>"

definition ex_s :: "int \<Rightarrow> int \<Rightarrow> int \<Rightarrow> bc_stream" where
  "ex_s b n c = \<lparr> s_bci = b, s_next_bci = n, s_end_bci = 6, s_code = c, s_is_wide = False \<rparr>"

lemma ex_code_data: "generate_code_data ex_branch = Inr [1, 1, 0, 0, 1, 1]"
  by (simp add: generate_code_data_def ex_branch_def ex_mem_def eval_stream code_data_loop.simps cong: rbind_weak_cong)

lemma ex_entry: "set_locals_from_arg ex_branch (Reference ''B'') (stack_map_frame 1 1) = Inr (Bogus, ex_frame 0 0 [Bogus])"
  by (simp add: eval_signature eval_vm ex_branch_sel ex_frame_def cong: rbind_weak_cong)

lemma ex_signature: "is_valid_method_signature ''(I)V''"
  by (simp add: eval_signature)

lemma ex_map_table:
  "stack_map_table ex_branch \<lparr> rd_cp = ex_pool, rd_code_data = [1, 1, 0, 0, 1, 1], rd_code_length = 6 \<rparr>
     (ex_frame 0 0 [Bogus]) 1 1 = Inr ex_table"
  by (simp add: eval_table eval_vm ex_branch_sel ex_frame_def ex_table_def cong: rbind_weak_cong)

lemma ex_setup:
  "verify_setup ex_verifier = Inr (ex_env,
     \<lparr> vs_stream = ex_s 0 0 (- 1), vs_index = 0, vs_no_control_flow = False, vs_frame = ex_frame 0 0 [Bogus] \<rparr>)"
  by (simp add: verify_setup_def ex_verifier_sel ex_branch_sel ex_entry ex_code_data ex_map_table ex_signature
      ex_env_def ex_s_def raw_stream_def Let_def del: One_nat_def)

section \<open>The rounds of the loop\<close>

lemma verify_loop_round:
  assumes "raw_next (v_mem v) s0 = Inr (opcode, s)" and "\<not> is_last_bytecode s0"
    and "verify_stackmap_table v (ve_table env) i (s_bci s mod 65536) ncf (f\<lparr> f_offset := s_bci s mod 65536 \<rparr>) = Inr (j, f1)"
    and "\<not> s_is_wide s"
    and "verify_instruction v (ve_table env) (ve_return env) s opcode f1 = Inr ((ncf', tu), f2)"
    and "\<not> (ve_ex_min env \<le> s_bci s mod 65536 \<and> s_bci s mod 65536 < ve_ex_max env)"
  shows "verify_loop v env \<lparr> vs_stream = s0, vs_index = i, vs_no_control_flow = ncf, vs_frame = f \<rparr> =
    verify_loop v env \<lparr> vs_stream = s, vs_index = j, vs_no_control_flow = ncf', vs_frame = f2 \<rparr>"
  using assms by (subst verify_loop.simps) (auto simp: verify_step_def eval_vm)

lemma ex_next:
  "raw_next (mt_mem ex_branch) (ex_s 0 0 (- 1)) = Inr (26, ex_s 0 1 26)"
  "raw_next (mt_mem ex_branch) (ex_s 0 1 26) = Inr (153, ex_s 1 4 153)"
  "raw_next (mt_mem ex_branch) (ex_s 1 4 153) = Inr (0, ex_s 4 5 0)"
  "raw_next (mt_mem ex_branch) (ex_s 4 5 0) = Inr (177, ex_s 5 6 177)"
  "dest (mt_mem ex_branch) (ex_s 1 4 153) = Inr 5"
  by (simp_all add: ex_branch_def ex_mem_def eval_stream ex_s_def cong: rbind_weak_cong)

lemma ex_merge:
  "b < 5 \<Longrightarrow> verify_stackmap_table ex_verifier ex_table 0 b False f = Inr (0, f)"
  "verify_stackmap_table ex_verifier ex_table 0 5 False (ex_frame 5 0 [Integer]) = Inr (1, ex_frame 5 0 [Integer])"
  by (simp_all add: eval_vm ex_frame_def verify_stackmap_table_def ex_table_def match_stackmap_at_def is_assignable_to_def
      update_from_def reset_def copy_locals_def copy_stack_def ex_verifier_sel is_assignable_from.simps cong: rbind_weak_cong)

lemma ex_instr:
  "verify_instruction ex_verifier ex_table Bogus (ex_s 0 1 26) 26 (ex_frame 0 0 [Bogus]) =
     Inr ((False, False), ex_frame 0 1 [Integer])"
  "verify_instruction ex_verifier ex_table Bogus (ex_s 1 4 153) 153 (ex_frame 1 1 [Integer]) =
     Inr ((False, False), ex_frame 1 0 [Integer])"
  "verify_instruction ex_verifier ex_table Bogus (ex_s 4 5 0) 0 (ex_frame 4 0 [Integer]) =
     Inr ((False, False), ex_frame 4 0 [Integer])"
  "verify_instruction ex_verifier ex_table Bogus (ex_s 5 6 177) 177 (ex_frame 5 0 [Integer]) =
     Inr ((True, False), ex_frame 5 0 [Integer])"
  by (simp_all add: eval_instr eval_vm ex_next check_jump_target_def match_stackmap_def match_stackmap_at_def
      is_assignable_to_def check_new_object_def get_index_from_offset_def ex_table_def ex_frame_def ex_verifier_sel
      flag_this_uninit_def cong: rbind_weak_cong)

lemma ex_loop:
  "verify_loop ex_verifier ex_env
     \<lparr> vs_stream = ex_s 0 0 (- 1), vs_index = 0, vs_no_control_flow = False, vs_frame = ex_frame 0 0 [Bogus] \<rparr> =
   Inr \<lparr> vs_stream = ex_s 5 6 177, vs_index = 1, vs_no_control_flow = True, vs_frame = ex_frame 5 0 [Integer] \<rparr>"
proof -
  let ?L = "verify_loop ex_verifier ex_env"
  let ?st = "\<lambda>s i ncf f. \<lparr> vs_stream = s, vs_index = i, vs_no_control_flow = ncf, vs_frame = f \<rparr>"
  have off: "(ex_frame b n ts)\<lparr> f_offset := c \<rparr> = ex_frame c n ts" for b n ts c by (simp add: ex_frame_def)
  have s: "s_bci (ex_s b n c) = b" "\<not> s_is_wide (ex_s b n c)" "is_last_bytecode (ex_s b n c) = (6 \<le> n)" for b n c
    by (simp_all add: ex_s_def is_last_bytecode_def)
  note sel = ex_verifier_sel ex_next s ex_env_def ex_merge off
  have "?L (?st (ex_s 0 0 (- 1)) 0 False (ex_frame 0 0 [Bogus])) = ?L (?st (ex_s 0 1 26) 0 False (ex_frame 0 1 [Integer]))"
    by (rule verify_loop_round [where tu = False], simp_all add: sel del: One_nat_def) (rule ex_instr)
  also have "\<dots> = ?L (?st (ex_s 1 4 153) 0 False (ex_frame 1 0 [Integer]))"
    by (rule verify_loop_round [where tu = False], simp_all add: sel del: One_nat_def) (rule ex_instr)
  also have "\<dots> = ?L (?st (ex_s 4 5 0) 0 False (ex_frame 4 0 [Integer]))"
    by (rule verify_loop_round [where tu = False], simp_all add: sel del: One_nat_def) (rule ex_instr)
  also have "\<dots> = ?L (?st (ex_s 5 6 177) 1 True (ex_frame 5 0 [Integer]))"
    by (rule verify_loop_round [where tu = False], simp_all add: sel del: One_nat_def) (rule ex_instr)
  also have "\<dots> = Inr (?st (ex_s 5 6 177) 1 True (ex_frame 5 0 [Integer]))"
    by (simp add: verify_loop.simps s)
  finally show ?thesis .
qed

lemma ex_accepted: "verify_method ex_verifier = Inr ()"
  by (simp add: verify_method_def ex_setup ex_loop)

section \<open>A constructor\<close>

text \<open>The constructor of \<open>B\<close> with the code \<^verbatim>\<open>aload_0; invokespecial A.<init>()V; return\<close>.\<close>

definition ex_init :: meth where
  "ex_init =
     \<lparr> mt_name = ''<init>'', mt_signature = ''()V'', mt_is_static = False, mt_is_native = False, mt_is_abstract = False,
       mt_max_stack = 1, mt_max_locals = 1, mt_mem = ex_mem [42, 183, 0, 5, 177],
       mt_exception_table = [], mt_localvariable_table = [], mt_stackmap_data = None \<rparr>"

definition ex_init_pool :: constant_pool where
  "ex_init_pool = \<lparr> cp_entries = [CP_Invalid, CP_UnresolvedClass ''A'', CP_Utf8 ''<init>'', CP_Utf8 ''()V'',
     CP_NameAndType (pair_of_indices 2 3), CP_Methodref (pair_of_indices 1 4)], cp_cache = None \<rparr>"

definition ex_init_verifier :: verifier where
  "ex_init_verifier = ex_verifier\<lparr> v_method := ex_init, v_cp := ex_init_pool \<rparr>"

lemma ex_init_sel:
  "mt_max_stack ex_init = 1" "mt_max_locals ex_init = 1" "mt_signature ex_init = ''()V''"
  "length (m_code (mt_mem ex_init)) = 5" "mt_exception_table ex_init = []" "mt_localvariable_table ex_init = []"
  "mt_is_static ex_init = False" "mt_name ex_init = ''<init>''" "mt_stackmap_data ex_init = None"
  by (simp_all add: ex_init_def ex_mem_def)

lemma ex_init_verifier_sel:
  "v_method ex_init_verifier = ex_init" "current_type ex_init_verifier = Reference ''B''" "v_cp ex_init_verifier = ex_init_pool"
  "v_resolve ex_init_verifier = ex_resolve" "v_klass ex_init_verifier = ex_b"
  by (simp_all add: ex_init_verifier_def ex_verifier_def current_type_def ex_b_def)

lemma ex_init_verifier_ok: "verifier_ok ex_init_verifier"
proof -
  have "legal_class_name ''A''" by (simp add: legal_class_name_def invalid_name_char_def)
  moreover have "legal_method_sig ''()V''"
    unfolding legal_method_sig_def by (intro exI [of _ "[]"] exI [of _ None]) (simp add: method_desc_def ret_desc_def ret_ok_def)
  ultimately have "cp_wf ex_init_pool"
    by (simp add: cp_wf_def ex_init_pool_def member_ref_ok_def is_class_entry_def extract_low_pair extract_high_pair
        klass_name_at_def name_and_type_at_def symbol_at_def)
  with ex_verifier_ok show ?thesis by (simp add: verifier_ok_def ex_init_verifier_def)
qed

lemma ex_init_method_wf: "method_wf ex_init_verifier"
proof -
  have "\<exists>ps r. list_all jtype_ok ps \<and> ret_ok r \<and> ''()V'' = method_desc ps r \<and>
      length (entry_this ex_init (Reference ''B'')) + length (args_vtypes ps) \<le> 1"
    by (intro exI [of _ "[]"] exI [of _ None])
      (simp add: method_desc_def ret_desc_def ret_ok_def entry_this_def ex_init_sel args_vtypes_def)
  then show ?thesis by (simp add: method_wf_def ex_init_verifier_sel ex_init_sel)
qed

definition ex_init_at :: "int \<Rightarrow> nat \<Rightarrow> u1 \<Rightarrow> vtype \<Rightarrow> vtype list \<Rightarrow> frame" where
  "ex_init_at b n fl t st = \<lparr> f_offset = b, f_locals_size = 1, f_stack_size = n, f_max_locals = 1, f_max_stack = 1,
     f_flags = fl, f_locals = [t], f_stack = st \<rparr>"

definition ex_init_env :: venv where
  "ex_init_env = \<lparr> ve_table = \<lparr> tb_code_length = 5, tb_frames = [] \<rparr>, ve_return = Bogus, ve_ex_min = 5, ve_ex_max = - 1 \<rparr>"

definition ex_init_s :: "int \<Rightarrow> int \<Rightarrow> int \<Rightarrow> bc_stream" where
  "ex_init_s b n c = \<lparr> s_bci = b, s_next_bci = n, s_end_bci = 5, s_code = c, s_is_wide = False \<rparr>"

lemma ex_init_code_data: "generate_code_data ex_init = Inr [1, 1, 0, 0, 1]"
  by (simp add: generate_code_data_def ex_init_def ex_mem_def eval_stream code_data_loop.simps cong: rbind_weak_cong)

lemma ex_init_entry: "set_locals_from_arg ex_init (Reference ''B'') (stack_map_frame 1 1) =
    Inr (Bogus, ex_init_at 0 0 1 uninitialized_this_type [Bogus])"
  by (simp add: eval_signature eval_vm ex_init_sel ex_init_at_def cong: rbind_weak_cong)

lemma ex_init_signature: "is_valid_method_signature ''()V''"
  by (simp add: eval_signature)

lemma ex_init_map_table:
  "stack_map_table ex_init \<lparr> rd_cp = ex_init_pool, rd_code_data = [1, 1, 0, 0, 1], rd_code_length = 5 \<rparr> f 1 1 =
   Inr \<lparr> tb_code_length = 5, tb_frames = [] \<rparr>"
  by (simp add: eval_table eval_vm ex_init_sel cong: rbind_weak_cong)

lemma ex_init_setup:
  "verify_setup ex_init_verifier = Inr (ex_init_env,
     \<lparr> vs_stream = ex_init_s 0 0 (- 1), vs_index = 0, vs_no_control_flow = False,
       vs_frame = ex_init_at 0 0 1 uninitialized_this_type [Bogus] \<rparr>)"
  by (simp add: verify_setup_def ex_init_verifier_sel ex_init_sel ex_init_entry ex_init_code_data ex_init_map_table ex_init_signature
      ex_init_env_def ex_init_s_def raw_stream_def Let_def del: One_nat_def)

lemma ex_init_next:
  "raw_next (mt_mem ex_init) (ex_init_s 0 0 (- 1)) = Inr (42, ex_init_s 0 1 42)"
  "raw_next (mt_mem ex_init) (ex_init_s 0 1 42) = Inr (183, ex_init_s 1 4 183)"
  "raw_next (mt_mem ex_init) (ex_init_s 1 4 183) = Inr (177, ex_init_s 4 5 177)"
  "get_index_big (mt_mem ex_init) (ex_init_s 1 4 183) = Inr 5"
  by (simp_all add: ex_init_def ex_mem_def eval_stream ex_init_s_def get_index_big_def cong: rbind_weak_cong)

lemma ex_init_ref:
  "verify_cp_type ex_init_pool 5 (shl1 JVM_CONSTANT_Methodref) = Inr ()" "name_ref_at ex_init_pool 5 = Inr ''<init>''"
  "signature_ref_at ex_init_pool 5 = Inr ''()V''" "cp_ref_index_to_type ex_init_pool 5 = Inr (Reference ''A'')"
  by (simp_all add: ex_init_pool_def verify_cp_type_def verify_cp_index_def cp_length_def tag_at_def shl1_def name_ref_at_def
      signature_ref_at_def name_and_type_ref_index_at_def name_and_type_at_def symbol_at_def cp_ref_index_to_type_def
      klass_ref_index_at_def field_or_method_at_def cache_index_def cp_index_to_type_def klass_name_at_def
      extract_low_pair extract_high_pair)


lemma ex_init_types: "\<exists>ss. sig_types ''()V'' = Inr ([], ss) \<and> ss_type ss = T_VOID"
  by (simp add: sig_types_def eval_signature cong: rbind_weak_cong)

lemma ex_init_call:
  "verify_invoke_instructions ex_init_verifier (ex_init_s 1 4 183) (ex_init_at 1 1 1 uninitialized_this_type [uninitialized_this_type]) =
     Inr (True, ex_init_at 1 0 0 (Reference ''B'') [uninitialized_this_type])"
proof -
  obtain ss where ss: "sig_types ''()V'' = Inr ([], ss)" "ss_type ss = T_VOID" using ex_init_types by blast
  have s: "s_code (ex_init_s 1 4 183) = 183" "s_bci (ex_init_s 1 4 183) = 1" by (simp_all add: ex_init_s_def)
  have f: "find_named_super ''A'' ex_b = Inr ()" by (simp add: ex_b_def ex_a_def)
  show ?thesis
    by (simp add: verify_invoke_instructions_def s ex_init_next ex_init_verifier_sel ex_init_ref ex_init_signature ss f eval_vm
        check_method_name_def pop_types_def verify_objectref_def verify_invoke_init_def push_result_def pop_stack_def
        is_assignable_from.simps is_uninitialized_def initialize_object_def ex_init_at_def cong: rbind_weak_cong)
qed

lemma ex_init_load:
  "verify_instruction ex_init_verifier tb Bogus (ex_init_s 0 1 42) 42 (ex_init_at 0 0 1 uninitialized_this_type [Bogus]) =
     Inr ((False, False), ex_init_at 0 1 1 uninitialized_this_type [uninitialized_this_type])"
  by (simp add: eval_instr eval_vm verify_aload_def ex_init_at_def ex_init_verifier_sel is_uninitialized_def cong: rbind_weak_cong)

lemma ex_init_invoke:
  "verify_instruction ex_init_verifier tb Bogus (ex_init_s 1 4 183) 183 (ex_init_at 1 1 1 uninitialized_this_type [uninitialized_this_type]) =
     Inr ((False, True), ex_init_at 1 0 0 (Reference ''B'') [uninitialized_this_type])"
  by (simp add: verify_instruction_def ex_init_call [simplified] vbind_def vreturn_def)

lemma ex_init_return:
  "verify_instruction ex_init_verifier tb Bogus (ex_init_s 4 5 177) 177 (ex_init_at 4 0 0 (Reference ''B'') st) =
     Inr ((True, False), ex_init_at 4 0 0 (Reference ''B'') st)"
  by (simp add: eval_instr eval_vm ex_init_at_def ex_init_verifier_sel ex_init_sel flag_this_uninit_def cong: rbind_weak_cong)

lemmas ex_init_instr = ex_init_load ex_init_invoke ex_init_return

lemma ex_init_merge: "verify_stackmap_table v \<lparr> tb_code_length = 5, tb_frames = [] \<rparr> 0 b False f = Inr (0, f)"
  by (simp add: verify_stackmap_table_def eval_vm)

lemma ex_init_loop:
  "\<exists>s f. verify_loop ex_init_verifier ex_init_env
     \<lparr> vs_stream = ex_init_s 0 0 (- 1), vs_index = 0, vs_no_control_flow = False,
       vs_frame = ex_init_at 0 0 1 uninitialized_this_type [Bogus] \<rparr> =
   Inr \<lparr> vs_stream = s, vs_index = 0, vs_no_control_flow = True, vs_frame = f \<rparr>"
proof -
  let ?L = "verify_loop ex_init_verifier ex_init_env"
  let ?st = "\<lambda>s ncf f. \<lparr> vs_stream = s, vs_index = 0, vs_no_control_flow = ncf, vs_frame = f \<rparr>"
  let ?u = uninitialized_this_type
  have off: "(ex_init_at b n fl t ts)\<lparr> f_offset := c \<rparr> = ex_init_at c n fl t ts" for b n fl t ts c by (simp add: ex_init_at_def)
  have s: "s_bci (ex_init_s b n c) = b" "\<not> s_is_wide (ex_init_s b n c)" "is_last_bytecode (ex_init_s b n c) = (5 \<le> n)" for b n c
    by (simp_all add: ex_init_s_def is_last_bytecode_def)
  note sel = ex_init_verifier_sel ex_init_next s ex_init_env_def ex_init_merge off
  have "?L (?st (ex_init_s 0 0 (- 1)) False (ex_init_at 0 0 1 ?u [Bogus])) = ?L (?st (ex_init_s 0 1 42) False (ex_init_at 0 1 1 ?u [?u]))"
    by (rule verify_loop_round [where tu = False], simp_all add: sel del: One_nat_def) (rule ex_init_instr)
  also have "\<dots> = ?L (?st (ex_init_s 1 4 183) False (ex_init_at 1 0 0 (Reference ''B'') [?u]))"
    by (rule verify_loop_round [where tu = True], simp_all add: sel del: One_nat_def) (rule ex_init_instr)
  also have "\<dots> = ?L (?st (ex_init_s 4 5 177) True (ex_init_at 4 0 0 (Reference ''B'') [?u]))"
    by (rule verify_loop_round [where tu = False], simp_all add: sel del: One_nat_def) (rule ex_init_instr)
  also have "\<dots> = Inr (?st (ex_init_s 4 5 177) True (ex_init_at 4 0 0 (Reference ''B'') [?u]))"
    by (simp add: verify_loop.simps s)
  finally show ?thesis by blast
qed

lemma ex_init_accepted: "verify_method ex_init_verifier = Inr ()"
proof -
  obtain s f where "verify_loop ex_init_verifier ex_init_env
     \<lparr> vs_stream = ex_init_s 0 0 (- 1), vs_index = 0, vs_no_control_flow = False,
       vs_frame = ex_init_at 0 0 1 uninitialized_this_type [Bogus] \<rparr> =
     Inr \<lparr> vs_stream = s, vs_index = 0, vs_no_control_flow = True, vs_frame = f \<rparr>"
    using ex_init_loop by blast
  then show ?thesis by (simp add: verify_method_def ex_init_setup)
qed


section \<open>A handler around the call of a constructor\<close>

text \<open>
  The static method of the class \<open>C\<close> with the code
  \<^verbatim>\<open>0: new A; 3: dup; 4: astore_0; 5: invokespecial A.<init>()V; 8: return; 9: athrow\<close> and a handler at 9 for
  the instruction at 5. The stack map has one frame, at 9, with an \<open>A\<close> in the local variable.
\<close>

definition ex_c :: klass where
  "ex_c = Klass ''C'' (Some 1) (Some ex_object) [] False [] []"

definition ex_try :: meth where
  "ex_try =
     \<lparr> mt_name = ''g'', mt_signature = ''()V'', mt_is_static = True, mt_is_native = False, mt_is_abstract = False,
       mt_max_stack = 2, mt_max_locals = 1, mt_mem = ex_mem [187, 0, 1, 89, 75, 183, 0, 5, 177, 191],
       mt_exception_table = [(5, 8, 9, 0)], mt_localvariable_table = [],
       mt_stackmap_data = Some [0, 1, 255, 0, 9, 0, 1, 7, 0, 1, 0, 1, 7, 0, 6] \<rparr>"

definition ex_try_pool :: constant_pool where
  "ex_try_pool = \<lparr> cp_entries = [CP_Invalid, CP_UnresolvedClass ''A'', CP_Utf8 ''<init>'', CP_Utf8 ''()V'',
     CP_NameAndType (pair_of_indices 2 3), CP_Methodref (pair_of_indices 1 4), CP_UnresolvedClass ''java/lang/Throwable''],
     cp_cache = None \<rparr>"

definition ex_try_verifier :: verifier where
  "ex_try_verifier = \<lparr> v_klass = ex_c, v_method = ex_try, v_cp = ex_try_pool,
     v_resolve = ex_resolve, v_addr = ex_addr \<rparr>"

lemma ex_try_sel:
  "mt_max_stack ex_try = 2" "mt_max_locals ex_try = 1" "mt_signature ex_try = ''()V''"
  "length (m_code (mt_mem ex_try)) = 10" "mt_exception_table ex_try = [(5, 8, 9, 0)]" "mt_localvariable_table ex_try = []"
  "mt_is_static ex_try = True" "mt_name ex_try = ''g''"
  "mt_stackmap_data ex_try = Some [0, 1, 255, 0, 9, 0, 1, 7, 0, 1, 0, 1, 7, 0, 6]"
  by (simp_all add: ex_try_def ex_mem_def)

lemma ex_try_verifier_sel:
  "v_method ex_try_verifier = ex_try" "current_type ex_try_verifier = Reference ''C''" "v_cp ex_try_verifier = ex_try_pool"
  "v_resolve ex_try_verifier = ex_resolve" "v_klass ex_try_verifier = ex_c"
  by (simp_all add: ex_try_verifier_def current_type_def ex_c_def)

definition ex_try_at :: "int \<Rightarrow> nat \<Rightarrow> nat \<Rightarrow> vtype \<Rightarrow> vtype list \<Rightarrow> frame" where
  "ex_try_at b k n t st = \<lparr> f_offset = b, f_locals_size = k, f_stack_size = n, f_max_locals = 1, f_max_stack = 2,
     f_flags = 0, f_locals = [t], f_stack = st \<rparr>"

definition ex_try_table :: map_table where
  "ex_try_table = \<lparr> tb_code_length = 10,
     tb_frames = [ex_try_at 9 1 1 (Reference ''A'') [Reference ''java/lang/Throwable'']] \<rparr>"

definition ex_try_env :: venv where
  "ex_try_env = \<lparr> ve_table = ex_try_table, ve_return = Bogus, ve_ex_min = 5, ve_ex_max = 8 \<rparr>"

definition ex_try_s :: "int \<Rightarrow> int \<Rightarrow> int \<Rightarrow> bc_stream" where
  "ex_try_s b n c = \<lparr> s_bci = b, s_next_bci = n, s_end_bci = 10, s_code = c, s_is_wide = False \<rparr>"

lemma ex_try_code_data: "generate_code_data ex_try = Inr [2, 0, 0, 1, 1, 1, 0, 0, 1, 1]"
  by (simp add: generate_code_data_def ex_try_def ex_mem_def eval_stream code_data_loop.simps cong: rbind_weak_cong)

lemma ex_try_entry: "set_locals_from_arg ex_try (Reference ''C'') (stack_map_frame 1 2) =
    Inr (Bogus, ex_try_at 0 0 0 Bogus [Bogus, Bogus])"
  by (simp add: eval_signature eval_vm ex_try_sel ex_try_at_def numeral_2_eq_2 cong: rbind_weak_cong)

lemma table_of_full_frame:
  assumes d: "mt_stackmap_data m = Some (0 # 1 # full_frame_bytes idx delta locals stack)"
    and e: "list_all (encodable rd idx) locals" "list_all (encodable rd idx) stack"
      "length locals < 65536" "length stack < 65536" "delta < 65536"
      "length (expand_types locals) \<le> ml" "length (expand_types stack) \<le> ms"
    and c: "delta < rd_code_length rd" "rd_code_length rd = length (rd_code_data rd)" "rd_code_data rd ! delta \<noteq> 0"
  shows "stack_map_table m rd f ml ms = Inr \<lparr> tb_code_length = rd_code_length rd,
    tb_frames = [\<lparr> f_offset = int delta, f_locals_size = length (expand_types locals), f_stack_size = length (expand_types stack),
      f_max_locals = ml, f_max_stack = ms, f_flags = the (fold with_this locals (Some 0)),
      f_locals = expand_types locals, f_stack = expand_types stack \<rparr>] \<rparr>"
proof -
  let ?s = "map_stream_of (mt_stackmap_data m)"
  have "rest_is ?s (u2_bytes 1 @ full_frame_bytes idx delta locals stack @ [])"
    by (simp add: rest_is_def map_stream_of_def d u2_bytes_def)
  from get_u2_rest [OF this] obtain s1 where s1: "get_u2 ?s = Inr (1, s1)" "rest_is s1 (full_frame_bytes idx delta locals stack @ [])"
    by auto
  from full_frame_decodes [OF s1(2) e, of f True] obtain s2 where s2: "reader_next rd f True ml ms s1 =
      Inr (\<lparr> f_offset = int delta, f_locals_size = length (expand_types locals), f_stack_size = length (expand_types stack),
      f_max_locals = ml, f_max_stack = ms, f_flags = the (fold with_this locals (Some 0)),
      f_locals = expand_types locals, f_stack = expand_types stack \<rparr>, s2)" "rest_is s2 []"
    by (auto simp: next_offset_def)
  have "at_end s2" "ms_pending s2 = None" "ms_error s2 = None" using s2(2) by (auto simp: rest_is_def at_end_def)
  with s1(1) s2(1) c show ?thesis
    by (simp add: stack_map_table_def check_verify_def d vbind_def vthen_def vlift_def vreturn_def vget_def vcheck_def check_end_def Let_def arr_get_i_def)
qed

lemma ex_try_map_table:
  "stack_map_table ex_try \<lparr> rd_cp = ex_try_pool, rd_code_data = [2, 0, 0, 1, 1, 1, 0, 0, 1, 1], rd_code_length = 10 \<rparr>
     f 1 2 = Inr ex_try_table"
proof -
  let ?idx = "\<lambda>n. if n = ''A'' then 1 else 6"
  show ?thesis
    by (subst table_of_full_frame [where idx = ?idx and delta = 9 and locals = "[Reference ''A'']"
          and stack = "[Reference ''java/lang/Throwable'']"])
      (simp_all add: ex_try_sel full_frame_bytes_def u2_bytes_def ex_try_pool_def cp_length_def ex_try_table_def ex_try_at_def
        is_category2_def with_this_def is_uninitialized_this_def)
qed

lemma ex_try_setup:
  "verify_setup ex_try_verifier = Inr (ex_try_env,
     \<lparr> vs_stream = ex_try_s 0 0 (- 1), vs_index = 0, vs_no_control_flow = False, vs_frame = ex_try_at 0 0 0 Bogus [Bogus, Bogus] \<rparr>)"
proof -
  have "is_valid_method_signature ''()V''" by (simp add: eval_signature)
  moreover have "verify_exception_handler_table ex_try_verifier [2, 0, 0, 1, 1, 1, 0, 0, 1, 1] [(5, 8, 9, 0)] 10 (- 1) = Inr (5, 8)"
    by (simp add: is_instruction_start_def is_end_pc_def is_catch_type_def arr_get_def)
  ultimately show ?thesis
    by (simp add: verify_setup_def ex_try_verifier_sel ex_try_sel ex_try_entry ex_try_code_data ex_try_map_table
        ex_try_env_def ex_try_s_def raw_stream_def Let_def del: One_nat_def verify_exception_handler_table.simps)
qed


lemma ex_try_next:
  "raw_next (mt_mem ex_try) (ex_try_s 0 0 (- 1)) = Inr (187, ex_try_s 0 3 187)"
  "raw_next (mt_mem ex_try) (ex_try_s 0 3 187) = Inr (89, ex_try_s 3 4 89)"
  "raw_next (mt_mem ex_try) (ex_try_s 3 4 89) = Inr (75, ex_try_s 4 5 75)"
  "raw_next (mt_mem ex_try) (ex_try_s 4 5 75) = Inr (183, ex_try_s 5 8 183)"
  "raw_next (mt_mem ex_try) (ex_try_s 5 8 183) = Inr (177, ex_try_s 8 9 177)"
  "raw_next (mt_mem ex_try) (ex_try_s 8 9 177) = Inr (191, ex_try_s 9 10 191)"
  "get_index_big (mt_mem ex_try) (ex_try_s 0 3 187) = Inr 1"
  "get_index_big (mt_mem ex_try) (ex_try_s 5 8 183) = Inr 5"
  by (simp_all add: ex_try_def ex_mem_def eval_stream ex_try_s_def get_index_big_def cong: rbind_weak_cong)

lemma ex_try_ref:
  "verify_cp_type ex_try_pool 5 (shl1 JVM_CONSTANT_Methodref) = Inr ()" "name_ref_at ex_try_pool 5 = Inr ''<init>''"
  "signature_ref_at ex_try_pool 5 = Inr ''()V''" "cp_ref_index_to_type ex_try_pool 5 = Inr (Reference ''A'')"
  "verify_cp_class_type ex_try_pool 1 = Inr ()" "cp_index_to_type ex_try_pool 1 = Inr (Reference ''A'')"
  by (simp_all add: ex_try_pool_def verify_cp_type_def verify_cp_index_def cp_length_def tag_at_def shl1_def name_ref_at_def
      signature_ref_at_def name_and_type_ref_index_at_def name_and_type_at_def symbol_at_def cp_ref_index_to_type_def
      klass_ref_index_at_def field_or_method_at_def cache_index_def cp_index_to_type_def klass_name_at_def
      extract_low_pair extract_high_pair verify_cp_class_type_def is_klass_tag_def is_unresolved_klass_tag_def)

lemma ex_try_new_class: "new_class_at ex_try_verifier 0 = Inr (Reference ''A'')"
proof -
  have "bcp_u1 (mt_mem ex_try) 0 = Inr 187" "get_Java_u2 (mt_mem ex_try) 1 = Inr 1"
    by (simp_all add: ex_try_def ex_mem_def eval_stream)
  then show ?thesis
    by (simp add: new_class_at_def ex_try_verifier_sel ex_try_sel ex_try_ref [simplified] Let_def cong: rbind_weak_cong)
qed

lemma ex_try_call:
  "verify_invoke_instructions ex_try_verifier (ex_try_s 5 8 183) (ex_try_at 5 1 1 (Uninitialized 0) [Uninitialized 0, Uninitialized 0]) =
     Inr (False, ex_try_at 5 1 0 (Reference ''A'') [Uninitialized 0, Uninitialized 0])"
proof -
  obtain ss where ss: "sig_types ''()V'' = Inr ([], ss)" "ss_type ss = T_VOID"
    using sig_types_desc [of "[]" None] by (auto simp: method_desc_def ret_desc_def ret_ok_def args_vtypes_def)
  have s: "s_code (ex_try_s 5 8 183) = 183" "s_bci (ex_try_s 5 8 183) = 5" by (simp_all add: ex_try_s_def)
  have "is_valid_method_signature ''()V''" by (simp add: eval_signature)
  moreover have "check_protected_init ex_try_verifier ''A'' 5 (Reference ''A'') = Inr ()"
    by (simp add: check_protected_init_def name_in_supers_def ex_try_verifier_sel ex_c_def ex_object_def)
  ultimately show ?thesis
    by (simp add: verify_invoke_instructions_def s ex_try_next ex_try_verifier_sel ex_try_ref ss eval_vm
        check_method_name_def pop_types_def verify_objectref_def verify_invoke_init_def push_result_def pop_stack_def ex_try_new_class
        is_assignable_from.simps is_uninitialized_def initialize_object_def ex_try_at_def BciForThis_def bci_of_def cong: rbind_weak_cong)
qed


lemma ex_try_instr_new:
  "verify_instruction ex_try_verifier tb Bogus (ex_try_s 0 3 187) 187 (ex_try_at 0 0 0 Bogus [Bogus, Bogus]) =
     Inr ((False, False), ex_try_at 0 0 1 Bogus [Uninitialized 0, Bogus])"
proof -
  have "s_bci (ex_try_s 0 3 187) = 0" by (simp add: ex_try_s_def)
  then show ?thesis
    by (simp add: eval_instr switch_objects_def eval_vm ex_try_next ex_try_verifier_sel ex_try_ref [simplified] is_object_def is_reference_def
        ex_try_at_def cong: rbind_weak_cong)
qed

lemma ex_try_instr_dup:
  "verify_instruction ex_try_verifier tb Bogus (ex_try_s 3 4 89) 89 (ex_try_at 3 0 1 Bogus [Uninitialized 0, Bogus]) =
     Inr ((False, False), ex_try_at 3 0 2 Bogus [Uninitialized 0, Uninitialized 0])"
  by (simp add: eval_instr eval_vm ex_try_at_def ex_try_verifier_sel is_category1_def is_uninitialized_def cong: rbind_weak_cong)

lemma ex_try_instr_store:
  "verify_instruction ex_try_verifier tb Bogus (ex_try_s 4 5 75) 75 (ex_try_at 4 0 2 Bogus [Uninitialized 0, Uninitialized 0]) =
     Inr ((False, False), ex_try_at 4 1 1 (Uninitialized 0) [Uninitialized 0, Uninitialized 0])"
  by (simp add: eval_instr eval_vm verify_astore_def set_local_def ex_try_at_def ex_try_verifier_sel is_uninitialized_def cong: rbind_weak_cong)

lemma ex_try_instr_call:
  "verify_instruction ex_try_verifier tb Bogus (ex_try_s 5 8 183) 183
      (ex_try_at 5 1 1 (Uninitialized 0) [Uninitialized 0, Uninitialized 0]) =
     Inr ((False, False), ex_try_at 5 1 0 (Reference ''A'') [Uninitialized 0, Uninitialized 0])"
  by (simp add: verify_instruction_def ex_try_call [simplified] vbind_def vreturn_def)

lemma ex_try_instr_return:
  "verify_instruction ex_try_verifier tb Bogus (ex_try_s 8 9 177) 177 (ex_try_at 8 1 0 t st) = Inr ((True, False), ex_try_at 8 1 0 t st)"
  by (simp add: eval_instr eval_vm ex_try_at_def ex_try_verifier_sel ex_try_sel flag_this_uninit_def cong: rbind_weak_cong)

lemma ex_try_instr_throw:
  "verify_instruction ex_try_verifier tb Bogus (ex_try_s 9 10 191) 191 (ex_try_at 9 1 1 t (Reference ''java/lang/Throwable'' # st)) =
     Inr ((True, False), ex_try_at 9 1 0 t (Reference ''java/lang/Throwable'' # st))"
  by (simp add: eval_instr switch_objects_def eval_vm ex_try_at_def ex_try_verifier_sel is_reference_def cong: rbind_weak_cong)

lemma ex_try_handler:
  "verify_handlers ex_try_verifier ex_try_table 5 False (ex_try_at 5 1 0 (Reference ''A'') st) [(5, 8, 9, 0)] = Inr ()"
  by (simp add: Let_def frame_in_exception_handler_def push_stack_def ex_try_at_def match_stackmap_def match_stackmap_at_def
      get_index_from_offset_def ex_try_table_def is_assignable_to_def is_assignable_from.simps ex_try_verifier_sel arr_set_def arr_get_i_def
      cong: rbind_weak_cong)

lemma ex_try_merge:
  "b < 9 \<Longrightarrow> verify_stackmap_table ex_try_verifier ex_try_table 0 b False f = Inr (0, f)"
  "verify_stackmap_table ex_try_verifier ex_try_table 0 9 True (ex_try_at 9 1 0 t [Uninitialized 0, Uninitialized 0]) =
     Inr (1, ex_try_at 9 1 1 (Reference ''A'') [Reference ''java/lang/Throwable'', Uninitialized 0])"
  by (simp_all add: eval_vm ex_try_at_def verify_stackmap_table_def ex_try_table_def match_stackmap_at_def
      update_from_def reset_def copy_locals_def copy_stack_def ex_try_verifier_sel cong: rbind_weak_cong)


lemma verify_step_round:
  assumes "raw_next (v_mem v) s0 = Inr (opcode, s)"
    and "verify_stackmap_table v (ve_table env) i (s_bci s mod 65536) ncf (f\<lparr> f_offset := s_bci s mod 65536 \<rparr>) = Inr (j, f1)"
    and "\<not> s_is_wide s"
    and "verify_instruction v (ve_table env) (ve_return env) s opcode f1 = Inr ((ncf', tu), f2)"
    and "ve_ex_min env \<le> s_bci s mod 65536 \<and> s_bci s mod 65536 < ve_ex_max env \<longrightarrow>
      verify_handlers v (ve_table env) (s_bci s mod 65536) tu f2 (mt_exception_table (v_method v)) = Inr ()"
  shows "verify_step v env \<lparr> vs_stream = s0, vs_index = i, vs_no_control_flow = ncf, vs_frame = f \<rparr> =
    Inr \<lparr> vs_stream = s, vs_index = j, vs_no_control_flow = ncf', vs_frame = f2 \<rparr>"
  using assms by (auto simp: verify_step_def verify_exception_handler_targets_def eval_vm)

definition ex_try_st :: "bc_stream \<Rightarrow> nat \<Rightarrow> bool \<Rightarrow> frame \<Rightarrow> vstate" where
  "ex_try_st s i ncf f = \<lparr> vs_stream = s, vs_index = i, vs_no_control_flow = ncf, vs_frame = f \<rparr>"

lemma ex_try_sel_s:
  "s_bci (ex_try_s b n c) = b" "\<not> s_is_wide (ex_try_s b n c)" "is_last_bytecode (ex_try_s b n c) = (10 \<le> n)"
  "(ex_try_at b k j t ts)\<lparr> f_offset := d \<rparr> = ex_try_at d k j t ts"
  by (simp_all add: ex_try_s_def is_last_bytecode_def ex_try_at_def)

lemmas ex_try_round = ex_try_verifier_sel ex_try_next ex_try_sel_s ex_try_env_def ex_try_merge ex_try_handler ex_try_sel

lemma ex_try_steps:
  "verify_step ex_try_verifier ex_try_env (ex_try_st (ex_try_s 0 0 (- 1)) 0 False (ex_try_at 0 0 0 Bogus [Bogus, Bogus])) =
     Inr (ex_try_st (ex_try_s 0 3 187) 0 False (ex_try_at 0 0 1 Bogus [Uninitialized 0, Bogus]))"
  "verify_step ex_try_verifier ex_try_env (ex_try_st (ex_try_s 0 3 187) 0 False (ex_try_at 0 0 1 Bogus [Uninitialized 0, Bogus])) =
     Inr (ex_try_st (ex_try_s 3 4 89) 0 False (ex_try_at 3 0 2 Bogus [Uninitialized 0, Uninitialized 0]))"
  "verify_step ex_try_verifier ex_try_env (ex_try_st (ex_try_s 3 4 89) 0 False (ex_try_at 3 0 2 Bogus [Uninitialized 0, Uninitialized 0])) =
     Inr (ex_try_st (ex_try_s 4 5 75) 0 False (ex_try_at 4 1 1 (Uninitialized 0) [Uninitialized 0, Uninitialized 0]))"
  "verify_step ex_try_verifier ex_try_env
      (ex_try_st (ex_try_s 4 5 75) 0 False (ex_try_at 4 1 1 (Uninitialized 0) [Uninitialized 0, Uninitialized 0])) =
     Inr (ex_try_st (ex_try_s 5 8 183) 0 False (ex_try_at 5 1 0 (Reference ''A'') [Uninitialized 0, Uninitialized 0]))"
  "verify_step ex_try_verifier ex_try_env
      (ex_try_st (ex_try_s 5 8 183) 0 False (ex_try_at 5 1 0 (Reference ''A'') [Uninitialized 0, Uninitialized 0])) =
     Inr (ex_try_st (ex_try_s 8 9 177) 0 True (ex_try_at 8 1 0 (Reference ''A'') [Uninitialized 0, Uninitialized 0]))"
  "verify_step ex_try_verifier ex_try_env
      (ex_try_st (ex_try_s 8 9 177) 0 True (ex_try_at 8 1 0 (Reference ''A'') [Uninitialized 0, Uninitialized 0])) =
     Inr (ex_try_st (ex_try_s 9 10 191) 1 True (ex_try_at 9 1 0 (Reference ''A'') [Reference ''java/lang/Throwable'', Uninitialized 0]))"
  unfolding ex_try_st_def
  subgoal by (rule verify_step_round [where tu = False], simp_all add: ex_try_round del: One_nat_def verify_handlers.simps) (rule ex_try_instr_new)
  subgoal by (rule verify_step_round [where tu = False], simp_all add: ex_try_round del: One_nat_def verify_handlers.simps) (rule ex_try_instr_dup)
  subgoal by (rule verify_step_round [where tu = False], simp_all add: ex_try_round del: One_nat_def verify_handlers.simps) (rule ex_try_instr_store)
  subgoal by (rule verify_step_round [where tu = False], simp_all add: ex_try_round del: One_nat_def verify_handlers.simps) (rule ex_try_instr_call)
  subgoal by (rule verify_step_round [where tu = False], simp_all add: ex_try_round del: One_nat_def verify_handlers.simps) (rule ex_try_instr_return)
  subgoal by (rule verify_step_round [where tu = False], simp_all add: ex_try_round del: One_nat_def verify_handlers.simps) (rule ex_try_instr_throw)
  done


lemma verify_loop_step:
  "\<not> is_last_bytecode (vs_stream st) \<Longrightarrow> verify_step v env st = Inr st' \<Longrightarrow> verify_loop v env st = verify_loop v env st'"
  by (subst verify_loop.simps) simp

lemma ex_try_accepted: "verify_method ex_try_verifier = Inr ()"
proof -
  have s: "vs_stream (ex_try_st s i ncf f) = s" for s i ncf f by (simp add: ex_try_st_def)
  have "verify_loop ex_try_verifier ex_try_env (ex_try_st (ex_try_s 0 0 (- 1)) 0 False (ex_try_at 0 0 0 Bogus [Bogus, Bogus])) =
      Inr (ex_try_st (ex_try_s 9 10 191) 1 True (ex_try_at 9 1 0 (Reference ''A'') [Reference ''java/lang/Throwable'', Uninitialized 0]))"
    by (simp add: verify_loop_step [OF _ ex_try_steps(1)] verify_loop_step [OF _ ex_try_steps(2)] verify_loop_step [OF _ ex_try_steps(3)]
        verify_loop_step [OF _ ex_try_steps(4)] verify_loop_step [OF _ ex_try_steps(5)] verify_loop_step [OF _ ex_try_steps(6)]
        s ex_try_sel_s verify_loop.simps [of _ _ "ex_try_st (ex_try_s 9 10 191) i b f" for i b f] del: One_nat_def)
  then show ?thesis by (simp add: verify_method_def ex_try_setup ex_try_st_def del: One_nat_def)
qed

end
