(* ===== verification/Spec2Isabelle.thy ===== *)
theory Spec2Isabelle
  imports VerifierExamples
begin

text \<open>
  \<^bold>\<open>The split bytecode verifier of HotSpot.\<close>

  Before a class of the Java platform is linked, the VM checks the bytecode of its methods. For classes
  of version 50 and later this is done by the \<^emph>\<open>split\<close> verifier, a type checker that reads types for the
  targets of jumps from the attribute \<^verbatim>\<open>StackMapTable\<close> and goes once over each method. The interpreter and
  the compilers rely on its answer: they neither check operand types nor array bounds of frames. The
  development models this verifier completely, from \<^verbatim>\<open>Verifier::verify\<close> down to the bytes it reads, with the
  parts of the VM it calls: bytecode tables and streams, descriptors, the constant pool, and classes
  with their fields and methods. Paths below are relative to \<^verbatim>\<open>src/src/share/vm\<close>.

  \<^bold>\<open>Theories.\<close> Each imports those above it that it needs.

  \<^item> \<^verbatim>\<open>Prelude\<close>: machine types, outcomes, arrays with checked indices, the monad \<^verbatim>\<open>vm\<close> of computations that
    change a state and may stop with an error, and the locale \<open>vm_invariant\<close>, a Hoare logic for invariants of
    its state, which two components instantiate (\<open>fr\<close>, \<open>ms\<close>), and \<open>vm_effect\<close>, a logic for the change of a number of
    its state (\<open>sz\<close>, \<open>fl\<close>).
  \<^item> \<^verbatim>\<open>Klasses\<close> (\<^verbatim>\<open>oops/instanceKlass.cpp\<close>, \<^verbatim>\<open>klass.cpp\<close>): classes as a datatype, the search for fields and methods,
    runtime packages. The binary search for a method agrees with a linear one.
  \<^item> \<^verbatim>\<open>VerificationType\<close> (\<^verbatim>\<open>classfile/verificationType.hpp\<close>, \<^verbatim>\<open>.cpp\<close>): the verifier's types, packed into a machine
    word as in the source and as a datatype, with a refinement between both; assignability is reflexive and transitive.
  \<^item> \<^verbatim>\<open>Bytecodes\<close>, \<^verbatim>\<open>BytecodeStream\<close> (\<^verbatim>\<open>interpreter/bytecodes.hpp\<close>, \<^verbatim>\<open>.cpp\<close>, \<^verbatim>\<open>bytecodeStream.hpp\<close>, \<^verbatim>\<open>.cpp\<close>): the tables of
    the bytecodes as \<^verbatim>\<open>Bytecodes::initialize\<close> fills them, lengths of instructions and the raw stream over a method's code.
  \<^item> \<^verbatim>\<open>Signatures\<close>, \<^verbatim>\<open>SignatureGrammar\<close> (\<^verbatim>\<open>runtime/signature.hpp\<close>, \<^verbatim>\<open>.cpp\<close>): the stream and the iterator over descriptors
    and the check of their syntax, against the grammar in the comment of the source.
  \<^item> \<^verbatim>\<open>ConstantPool\<close> (\<^verbatim>\<open>oops/constantPoolOop.hpp\<close>, \<^verbatim>\<open>.cpp\<close>, \<^verbatim>\<open>utilities/constantTag.hpp\<close>): the entries and accessors that the
    verifier uses, and its checks of indices and tags, which make the accesses safe.
  \<^item> \<^verbatim>\<open>StackMapFrame\<close> (\<^verbatim>\<open>classfile/stackMapFrame.hpp\<close>, \<^verbatim>\<open>.cpp\<close>): frames of types with all their operations. The locale
    \<open>bounded_stack\<close> states the contract of an operand stack of bounded size; the frame's stack is an
    interpretation of it. \<open>frame_ok\<close> is the invariant of the checker's frame.
  \<^item> \<^verbatim>\<open>StackMapTable\<close> (\<^verbatim>\<open>classfile/stackMapTable.hpp\<close>, \<^verbatim>\<open>.cpp\<close>): the reader of the attribute, the table, and the matching of the
    current frame against it. An encoder of full frames gives a round trip.
  \<^item> \<^verbatim>\<open>Verifier\<close>, \<^verbatim>\<open>VerifierInstr\<close>, \<^verbatim>\<open>VerifierMethod\<close> (\<^verbatim>\<open>classfile/verifier.hpp\<close>, \<^verbatim>\<open>.cpp\<close>): the helpers of \<^verbatim>\<open>ClassVerifier\<close>, the switch
    over the instructions of \<^verbatim>\<open>verify_method\<close>, the rest of \<^verbatim>\<open>verify_method\<close> and the entry points.
  \<^item> \<^verbatim>\<open>VerifierSafe\<close>, \<^verbatim>\<open>VerifierSound\<close>: that the verifier does not fault outside of the four unguarded places, and what its acceptance of a method means.
  \<^item> \<^verbatim>\<open>VerifierEffect\<close>, \<^verbatim>\<open>VerifierInit\<close>: the effect of each instruction on the depth of the stack and on the flag of an
    uninitialized receiver; paths through an accepted constructor, as an inductive relation.
  \<^item> \<^verbatim>\<open>VerifierExamples\<close>: concrete methods that the verifier accepts.

  \<^bold>\<open>How the code is translated.\<close> Member functions with effects on a frame or a reader are functions
  in the monad \<^verbatim>\<open>vm\<close>; a \<^verbatim>\<open>CHECK_VERIFY\<close> after a call is the bind of the monad. An outcome is a
  value or an error: \<open>VerifyError\<close> or \<open>ClassFormatError\<close> with the message of the source without its arguments,
  \<open>Pending\<close> for an exception that another part of the VM has thrown, \<open>Fault\<close> for an access outside of an array, through a null pointer,
  or \<^verbatim>\<open>ShouldNotReachHere\<close>. Each array access of the source is checked in the model and gives \<open>Fault\<close> out of
  bounds, so that \<^emph>\<open>no fault\<close> is a theorem and not a consequence of the translation. Four places of the
  source lack a guard; there the model stops with \<open>Unguarded\<close> and the name of the place (\<open>unguarded_places\<close>): a position of the bytecode
  stream that has become negative by an overflow, \<^verbatim>\<open>StackMapReader::chop\<close> at
  length zero, and in \<^verbatim>\<open>verify_invoke_init\<close> the search through the superclasses past the last one, and the
  holder of a method that was not found. \<open>no_fault\<close> excludes faults and all other places, but not these four; the theorems
  \<open>raw_next_overflows\<close>, \<open>chop_reads_before_array\<close>, \<open>invoke_init_on_this\<close> and \<open>missing_init_unguarded\<close> say when they are reached.
  Two kinds of reads outside of an array do not stop the model: for the length of a switch that the end of the code cuts
  off, the source reads bytes behind the code, which are \<open>m_after\<close> (at most the first 15, \<open>reads_behind_code\<close>), and for a byte that is no code \<^verbatim>\<open>length_for\<close> reads
  behind its table, which is \<open>m_beyond\<close>. What the results depend on there, all theorems have as a parameter.
  The reader of stack maps goes on after many of its errors (calls with \<^verbatim>\<open>THREAD\<close>); its state has the pending exception and the
  recorded error, and \<open>check_verify\<close> is where the source looks at them.
  Machine integers have their width where the code depends on it (the packed types, the arithmetic of
  the stream, conversions to \<^verbatim>\<open>u2\<close>, keys and offsets of switches); sizes that the class file bounds are naturals.

  \<^bold>\<open>Termination.\<close> All definitions are total. The loops over a stream have as measure what is left of the code, which is
  positive because the decoder advances by at least one or stops; loops over
  the superclass chain are structural. No fuel is used.

  \<^bold>\<open>Parameters.\<close> Resolution of a class by its name, \<^verbatim>\<open>SystemDictionary::resolve_instance_class_or_null\<close> as seen through
  \<^verbatim>\<open>load_class\<close>, is the function \<open>v_resolve\<close> of a verifier; the old, type-inferring verifier is native code of another library, and its result is an
  argument of \<open>verify\<close>; addresses of symbols are \<open>v_addr\<close>. The
  hypotheses \<open>verifier_ok\<close>, \<open>method_wf\<close> and \<open>class_wf\<close> state what the class file parser has checked before:
  legal names and tags in the constant pool, the length of the code, descriptors that fit the local variables, sorted method arrays; and that
  the class has not been rewritten, so that its pool has no cache. The branch of \<^verbatim>\<open>verify_cp_type\<close> for a pool with a cache is modelled but
  not covered by these theorems.

  \<^bold>\<open>Main results.\<close> The theorem \<open>verified_class_typed\<close> below is the correctness of the verifier: acceptance
  gives every method a consistent typing, on every path of control including exceptions.
  The theorem \<open>constructor_initializes_this\<close> derives from it that constructors initialize their receiver.
  The theorem \<open>verify_no_fault\<close> is its memory safety up to the four unguarded places. The properties in the other theories are the
  correctness of each component, and a few show where the code departs from its comments or from the specification of the class file
  format: \<open>dimensions_off_by_one\<close>, \<open>int_array_assignable_to_small_arrays\<close>, \<open>array_class_package\<close>,
  \<open>unresolved_string_passes_as_double\<close>, \<open>void_parameter_accepted\<close>, \<open>raw_next_overflows\<close>, \<open>chop_reads_before_array\<close>,
  \<open>handler_gets_uninitialized\<close>, \<open>invoke_init_on_this\<close>, \<open>missing_init_unguarded\<close>.

  \<^bold>\<open>Not modelled.\<close> Texts of messages beyond their constant part, tracing, and handles and resource areas,
  which only keep objects alive. The class file parser, the system dictionary, linking and initialization
  of classes (\<^verbatim>\<open>classfile/\<close> and \<^verbatim>\<open>oops/\<close> otherwise), the interpreter, both compilers, the garbage collectors, the runtime, JNI and
  JVMTI, the assemblers and the ports to operating systems: their behaviour is that of threads,
  of raw memory and of generated machine code, to which the verifier does not refer.
\<close>

section \<open>Accepted classes\<close>

lemma verify_class_Inr:
  "verify_class v ms = Inr () \<longleftrightarrow>
     (\<forall>m\<in>set ms. mt_is_native m \<or> mt_is_abstract m \<or> verify_method (v\<lparr> v_method := m \<rparr>) = Inr ())"
  by (induction ms) auto

lemma inference_verify_Inr: "inference_verify native = Inr () \<longleftrightarrow> native = Some 1"
  by (auto simp: inference_verify_def split: option.splits)

lemma verify_Inr: "verify fl resolve c native = Inr () \<longleftrightarrow> \<not> is_eligible_for_verification fl c \<or> run_verifiers fl c native = Inr ()"
  by (auto simp: verify_def split: sum.splits)

lemma run_verifiers_Inr:
  "run_verifiers fl c native = Inr () \<longleftrightarrow>
     (if UseSplitVerifier fl \<and> 50 \<le> cf_major_version c
      then verify_class (cf_verifier c) (cf_methods c) = Inr () \<or>
           FailOverToOldVerifier fl \<and> native = Some 1 \<and>
           (\<exists>e. verify_class (cf_verifier c) (cf_methods c) = Inl e \<and> is_verification_error e)
      else native = Some 1)"
  by (cases "verify_class (cf_verifier c) (cf_methods c)")
    (simp_all add: run_verifiers_def STACKMAP_ATTRIBUTE_MAJOR_VERSION_def inference_verify_Inr)

text \<open>What the parser guarantees for the methods of a class.\<close>

definition class_wf :: "class_file \<Rightarrow> bool" where
  "class_wf c \<longleftrightarrow> verifier_ok (cf_verifier c) \<and>
     list_all (\<lambda>m. mt_is_native m \<or> mt_is_abstract m \<or> method_wf ((cf_verifier c)\<lparr> v_method := m \<rparr>)) (cf_methods c)"

lemma class_wf_method:
  assumes "class_wf c" and "m \<in> set (cf_methods c)" and "\<not> mt_is_native m" and "\<not> mt_is_abstract m"
  shows "verifier_ok ((cf_verifier c)\<lparr> v_method := m \<rparr>)" "method_wf ((cf_verifier c)\<lparr> v_method := m \<rparr>)"
  using assms by (auto simp: class_wf_def verifier_ok_def list_all_iff)

lemma run_verifiers_safe:
  assumes "class_wf c" and "\<forall>r. native = Some r \<longrightarrow> r \<in> {0..3}"
  shows "no_fault (run_verifiers fl c native)"
proof -
  have "no_fault (inference_verify native)"
    using assms(2) by (cases native) (auto simp: inference_verify_def)
  moreover have "no_fault (verify_class (cf_verifier c) (cf_methods c))"
    using assms(1) by (intro verify_class_safe) (auto simp: class_wf_def)
  ultimately show ?thesis by (auto simp: run_verifiers_def split: sum.splits)
qed

lemma verification_failure_safe:
  assumes "resolve_safe resolve" and "is_verification_error e"
  shows "\<not> is_fault (verification_failure c resolve e)"
proof -
  have "\<not> is_fault x" if "resolve n = Inl x" for n x
    using assms(1) that by (metis no_fault.simps(1) resolve_safe_def)
  with assms(2) show ?thesis
    by (cases e) (auto simp: verification_failure_def Let_def split: sum.splits)
qed

section \<open>An accepted class\<close>

definition ex_flags :: vm_flags where
  "ex_flags = \<lparr> BytecodeVerificationLocal = True, BytecodeVerificationRemote = True, UseSplitVerifier = True,
     FailOverToOldVerifier = False, VerifyReflectionBytecodes = False \<rparr>"

definition ex_class :: class_file where
  "ex_class = \<lparr> cf_klass = ex_b, cf_is_shared = False, cf_major_version = 50, cf_is_magic = False,
     cf_methods = [ex_branch], cf_verifier = ex_verifier \<rparr>"

lemma ex_class_sel:
  "cf_methods ex_class = [ex_branch]" "cf_verifier ex_class = ex_verifier" "cf_major_version ex_class = 50"
  "ex_verifier\<lparr> v_method := ex_branch \<rparr> = ex_verifier"
  by (simp_all add: ex_class_def ex_verifier_def)

lemma ex_class_eligible: "is_eligible_for_verification ex_flags ex_class"
  by (simp add: is_eligible_for_verification_def should_verify_for_def ex_flags_def ex_class_def ex_b_def)

lemma ex_class_wf: "class_wf ex_class"
  by (simp add: class_wf_def ex_class_sel ex_verifier_ok ex_method_wf)

lemma ex_class_accepted: "verify ex_flags ex_resolve ex_class None = Inr ()"
  by (simp add: verify_def ex_class_eligible run_verifiers_def ex_class_sel ex_branch_sel ex_accepted
      STACKMAP_ATTRIBUTE_MAJOR_VERSION_def ex_flags_def)

section \<open>Properties\<close>

text \<open>What it means not to fault, in full.\<close>

lemma no_fault_outcome:
  assumes "no_fault r"
  shows "case r of
      Inr x \<Rightarrow> True
    | Inl e \<Rightarrow> (\<exists>msg. e = VerifyError msg \<or> e = ClassFormatError msg \<or> e = Pending msg) \<or>
        (\<exists>p. e = Unguarded p \<and> p \<in> {''stream position'', ''StackMapReader::chop'',
           ''verify_invoke_init: super of the last class'', ''verify_invoke_init: holder of a null method''})"
proof (cases r)
  case (Inl e)
  with assms show ?thesis by (cases e) (auto simp: no_fault_iff unguarded_places_def)
qed simp

text \<open>
  C1. What the split verifier promises. When a class of version 50 or later that is eligible for verification passes
  \<^verbatim>\<open>Verifier::verify\<close> without failing over to the old verifier, then each of its methods with code has a typing
  of its instructions by well-formed frames: the frame of the arguments flows to the first instruction;
  the checks of each instruction succeed on its frame; execution never leaves the code or enters an
  instruction in its middle; and the resulting frame is assignable to the frames of the next
  instruction, of all jump targets and, with the caught exception as the only operand, of all handlers that cover the instruction.
\<close>

theorem verified_class_typed:
  assumes "verify fl resolve c native = Inr ()" and "is_eligible_for_verification fl c"
    and "UseSplitVerifier fl" and "\<not> FailOverToOldVerifier fl" and "50 \<le> cf_major_version c"
    and "class_wf c" and "m \<in> set (cf_methods c)" and "\<not> mt_is_native m" and "\<not> mt_is_abstract m"
  shows "\<exists>env st \<Phi>. let v = (cf_verifier c)\<lparr> v_method := m \<rparr> in
     verify_setup v = Inr (env, st) \<and> is_start (v_mem v) 0 \<and>
     flows_to (v_resolve v) (vs_frame st) (\<Phi> 0) \<and> method_typed v env \<Phi>"
proof -
  from assms have "verify_method ((cf_verifier c)\<lparr> v_method := m \<rparr>) = Inr ()"
    by (auto simp: verify_Inr run_verifiers_Inr verify_class_Inr)
  from verify_method_typed [OF class_wf_method [OF assms(6-9)] this] show ?thesis by (simp add: Let_def)
qed

theorem verified_class_typed_witness:
  "\<exists>env st \<Phi>. let v = (cf_verifier ex_class)\<lparr> v_method := ex_branch \<rparr> in
     verify_setup v = Inr (env, st) \<and> is_start (v_mem v) 0 \<and>
     flows_to (v_resolve v) (vs_frame st) (\<Phi> 0) \<and> method_typed v env \<Phi>"
  by (rule verified_class_typed [OF ex_class_accepted ex_class_eligible])
    (simp_all add: ex_class_wf ex_class_sel ex_branch_sel ex_flags_def)

text \<open>
  C3. The outcomes of the verification of a class that the parser has accepted, whichever verifier the flags choose, as long
  as the old one returns one of its four documented results: success, a \<^verbatim>\<open>VerifyError\<close> or \<^verbatim>\<open>ClassFormatError\<close>, an exception of
  another part of the VM, or a stop at one of the four unguarded places. Everywhere else each access to an array is inside of
  it, no null pointer is followed and \<^verbatim>\<open>ShouldNotReachHere\<close> is not reached. The reads of the bytecode stream behind the
  code and behind the table of lengths are not outcomes; they deliver \<open>m_after\<close> and \<open>m_beyond\<close>.
\<close>

theorem verify_no_fault:
  assumes "class_wf c" and "resolve_safe resolve" and "\<forall>r. native = Some r \<longrightarrow> r \<in> {0..3}"
  shows "case verify fl resolve c native of
      Inr u \<Rightarrow> True
    | Inl e \<Rightarrow> (\<exists>msg. e = VerifyError msg \<or> e = ClassFormatError msg \<or> e = Pending msg) \<or>
        (\<exists>p. e = Unguarded p \<and> p \<in> {''stream position'', ''StackMapReader::chop'',
           ''verify_invoke_init: super of the last class'', ''verify_invoke_init: holder of a null method''})"
proof -
  have "no_fault (verify fl resolve c native)"
    using run_verifiers_safe [OF assms(1,3), of fl] verification_failure_safe [OF assms(2)]
    by (auto simp: verify_def split: sum.splits)
  then show ?thesis by (rule no_fault_outcome)
qed

theorem verify_no_fault_witness:
  "\<not> (\<exists>msg. verify ex_flags ex_resolve ex_class (Some 0) = Inl (Fault msg))"
proof -
  have "case verify ex_flags ex_resolve ex_class (Some 0) of
      Inr u \<Rightarrow> True
    | Inl e \<Rightarrow> (\<exists>msg. e = VerifyError msg \<or> e = ClassFormatError msg \<or> e = Pending msg) \<or>
        (\<exists>p. e = Unguarded p \<and> p \<in> {''stream position'', ''StackMapReader::chop'',
           ''verify_invoke_init: super of the last class'', ''verify_invoke_init: holder of a null method''})"
    by (rule verify_no_fault [OF ex_class_wf]) (simp_all add: resolve_safe_def ex_resolve_ok)
  then show ?thesis by (auto split: sum.splits)
qed

text \<open>
  C12. The map of the instructions that \<^verbatim>\<open>generate_code_data\<close> computes is exact: it marks the offsets at which the
  decoding of the code from its beginning finds an instruction, those of \<^verbatim>\<open>new\<close> apart, and no other.
\<close>

theorem code_data_exact:
  assumes "generate_code_data m = Inr cd" and "pc < length (m_code (mt_mem m))"
  shows "cd ! pc = (if \<exists>t. instr_at (mt_mem m) (raw_stream (mt_mem m)) t \<and> s_bci t = int pc \<and> s_code t = bc_new
      then NEW_OFFSET
    else if \<exists>t. instr_at (mt_mem m) (raw_stream (mt_mem m)) t \<and> s_bci t = int pc then BYTECODE_OFFSET else 0)"
  by (rule generate_code_data_exact [OF assms])

theorem code_data_exact_witness:
  "\<not> (\<exists>t. instr_at (mt_mem ex_branch) (raw_stream (mt_mem ex_branch)) t \<and> s_bci t = 2) \<and>
   (\<exists>t. instr_at (mt_mem ex_branch) (raw_stream (mt_mem ex_branch)) t \<and> s_bci t = 4)"
  using code_data_exact [OF ex_code_data, of 2] code_data_exact [OF ex_code_data, of 4]
  by (auto simp: ex_branch_sel split: if_splits)

lemma find_named_super_eq:
  "find_named_super n k =
     (if name_in_super_chain n k then Inr () else Inl (Unguarded ''verify_invoke_init: super of the last class''))"
  by (induction n k rule: find_named_super.induct) (auto split: option.splits)

text \<open>
  C21. The call of an initializer on the receiver of a constructor. It succeeds for the initializer of the current class
  and of every superclass, replaces the uninitialized receiver in the frame and reports so. For any
  other class, where the source means to report \<^verbatim>\<open>Bad <init> method call\<close>, the walk over the superclasses goes on past
  the last one.
\<close>

theorem invoke_init_on_this:
  assumes "frame_ok ml ms f" and "0 < f_stack_size f"
    and "f_stack f ! (f_stack_size f - 1) = uninitialized_this_type"
  shows "if name_in_super_chain (name_of ref) (v_klass v)
    then \<exists>f1 f2. pop_stack_any f = Inr (uninitialized_this_type, f1) \<and>
      initialize_object uninitialized_this_type (current_type v) f1 = Inr ((), f2) \<and>
      verify_invoke_init v index ref f = Inr (True, f2) \<and> \<not> flag_this_uninit f2
    else verify_invoke_init v index ref f = Inl (Unguarded ''verify_invoke_init: super of the last class'')"
proof -
  let ?u = uninitialized_this_type and ?f1 = "f\<lparr> f_stack_size := f_stack_size f - 1 \<rparr>"
  have pop: "pop_stack (v_resolve v) ReferenceQuery f = Inr (?u, ?f1)" "pop_stack_any f = Inr (?u, ?f1)"
    using assms by (auto simp: pop_stack_def pop_stack_any_def is_assignable_from.simps arr_get_def frame_ok_def is_uninitialized_def)
  have "frame_ok ml ms ?f1" using assms by (auto simp: frame_ok_def list_all_length)
  from initialize_object_eq [OF this refl, of ?u "current_type v"]
  show ?thesis
    by (auto simp: verify_invoke_init_def vbind_def vthen_def vlift_def vreturn_def pop find_named_super_eq flag_this_uninit_def)
qed

definition ex_init_frame :: frame where
  "ex_init_frame = \<lparr> f_offset = 0, f_locals_size = 1, f_stack_size = 1, f_max_locals = 1, f_max_stack = 1, f_flags = 1,
     f_locals = [uninitialized_this_type], f_stack = [uninitialized_this_type] \<rparr>"

text \<open>
  C7. The exception table that \<^verbatim>\<open>verify_exception_handler_table\<close> lets pass: every range starts at an instruction and ends
  at one or at the end of the code, every handler is an instruction, and what it catches is
  assignable to \<open>Throwable\<close>. The result is the least range with all these ranges.
\<close>

theorem exception_table_legal:
  "verify_exception_handler_table v cd hs mn mx = Inr (mn', mx') \<longleftrightarrow>
     (\<forall>(s, e, h, c)\<in>set hs. s < length cd \<and> cd ! s \<noteq> 0 \<and> (e = length cd \<or> e < length cd \<and> cd ! e \<noteq> 0) \<and>
        h < length cd \<and> cd ! h \<noteq> 0 \<and> is_catch_type v c = Inr True) \<and>
     mn' = fold (\<lambda>(s, e, h, c) m. min (int s) m) hs mn \<and> mx' = fold (\<lambda>(s, e, h, c) m. max (int e) m) hs mx"
proof -
  have s: "is_instruction_start cd pc = Inr (pc < length cd \<and> cd ! pc \<noteq> 0)" for pc
    by (simp add: is_instruction_start_def arr_get_def)
  have e: "is_end_pc cd pc = Inr (pc = length cd \<or> pc < length cd \<and> cd ! pc \<noteq> 0)" for pc
    by (auto simp: is_end_pc_def s)
  show ?thesis
  proof (induction hs arbitrary: mn mx)
    case (Cons x hs)
    obtain st en h c where x: "x = (st, en, h, c)" by (cases x)
    have m: "(if int st < mn then int st else mn) = min (int st) mn" "(if mx < int en then int en else mx) = max (int en) mx"
      by (auto simp: min_def max_def)
    show ?case by (auto simp: x s e m Cons.IH split: if_splits)
  qed auto
qed

theorem exception_table_legal_witness:
  "verify_exception_handler_table ex_verifier [1, 1, 0, 0, 1, 1] [(1, 5, 5, 0), (0, 6, 4, 0)] 6 (- 1) = Inr (0, 6)"
  by (subst exception_table_legal) (simp add: is_catch_type_def)

lemma ex_init_frame_ok: "frame_ok 1 1 ex_init_frame"
  by (auto simp: frame_ok_def ex_init_frame_def BciForThis_def paired_def slot_def nth_Cons split: nat.splits)

theorem invoke_init_on_this_witness:
  "verify_invoke_init ex_verifier 1 (Reference ''I'') ex_init_frame = Inl (Unguarded ''verify_invoke_init: super of the last class'')"
  using invoke_init_on_this [OF ex_init_frame_ok, of "Reference ''I''" ex_verifier 1]
  by (simp add: ex_init_frame_def ex_verifier_def ex_b_def ex_a_def ex_object_def)

text \<open>
  C4. Every case of the switch over the instructions either succeeds and leaves a frame of the declared
  sizes with types of the class file only, the halves of each \<open>long\<close> and \<open>double\<close> among the local variables together, or ends with
  an error, or stops at one of the four unguarded places.
\<close>

theorem instruction_keeps_frame:
  assumes "verifier_ok v" and "table_ok ml ms cd tb" and "vtype_wf rt" and "frame_ok ml ms f"
  shows "case verify_instruction v tb rt s (s_code s) f of Inl e \<Rightarrow> \<not> is_fault e | Inr (r, f') \<Rightarrow> frame_ok ml ms f'"
  using verify_instruction_keeps [OF assms(1-3) refl, of s] assms(4)
  by (auto simp: fr.keeps_def split: sum.splits)

theorem instruction_keeps_frame_witness:
  "\<exists>f'. verify_instruction ex_verifier ex_table Bogus (ex_s 0 1 26) bc_iload_0 (ex_frame 0 0 [Bogus]) = Inr ((False, False), f') \<and>
     frame_ok 1 1 f'"
proof -
  have f: "frame_ok 1 1 (ex_frame 0 0 [Bogus])" and t: "table_ok 1 1 [1, 1, 0, 0, 1, 1] ex_table"
    by (auto simp: frame_ok_def ex_frame_def paired_def slot_def table_ok_def table_frame_ok_def ex_table_def)
  from instruction_keeps_frame [OF ex_verifier_ok t _ f, of Bogus "ex_s 0 1 26"]
  show ?thesis using ex_instr(1) by (simp add: ex_s_def)
qed

text \<open>
  C5. On the instructions whose effect on the depth of the operand stack the tables of \<^verbatim>\<open>Bytecodes\<close> fix, the
  verifier changes the size of the stack by exactly this depth. The others are the accesses to fields, the invocations and
  \<^verbatim>\<open>multianewarray\<close>, whose effect depends on operands, and \<^verbatim>\<open>ldc2_w\<close>, which the verifier accepts on a string.
\<close>

theorem stack_effect_matches_table:
  assumes "verify_instruction v tb rt s opcode f = Inr (r, f')"
    and "opcode \<notin> {bc_ldc2_w, bc_getstatic, bc_putstatic, bc_getfield, bc_putfield, bc_invokevirtual, bc_invokespecial,
      bc_invokestatic, bc_invokeinterface, bc_multianewarray}"
  shows "int (f_stack_size f') = int (f_stack_size f) + depth opcode"
  using sz.effect_Inr [OF instruction_effect assms(1)] assms(2) by (simp add: open_depth_def)

theorem stack_effect_matches_table_witness: "int (1 :: nat) = int (0 :: nat) + depth bc_iload_0"
proof -
  have "verify_instruction ex_verifier ex_table Bogus (ex_s 0 1 26) bc_iload_0 (ex_frame 0 0 [Bogus]) =
      Inr ((False, False), ex_frame 0 1 [Integer])" by (rule ex_instr)
  from stack_effect_matches_table [OF this] show ?thesis by (simp add: ex_frame_def)
qed

text \<open>
  C2. In an accepted constructor of a class other than \<^verbatim>\<open>Object\<close>, every path from the entry to a \<^verbatim>\<open>return\<close>, through
  jumps, switches and exception handlers, contains an \<^verbatim>\<open>invokespecial\<close> that has completed and that initializes the
  receiver. So no constructor returns an object whose superclass has not been initialized.
\<close>

theorem constructor_initializes_this:
  assumes "verifier_ok v" and "method_wf v" and "verify_method v = Inr ()"
    and "mt_name (v_method v) = ''<init>''" and "\<not> mt_is_static (v_method v)"
    and "k_name (v_klass v) \<noteq> ''java/lang/Object''"
  shows "\<exists>env \<Phi>. method_typed v env \<Phi> \<and>
    (\<forall>t d. instr_at (v_mem v) (raw_stream (v_mem v)) t \<and> s_code t = bc_return \<and>
       path v (initializes_this v env \<Phi>) (s_bci t) d \<longrightarrow> d)"
  by (rule constructor_path [OF assms])

theorem constructor_initializes_this_witness:
  "\<exists>env \<Phi>. method_typed ex_init_verifier env \<Phi> \<and>
     \<not> (\<exists>t. instr_at (mt_mem ex_init) (raw_stream (mt_mem ex_init)) t \<and> s_code t = bc_return \<and>
          path ex_init_verifier (initializes_this ex_init_verifier env \<Phi>) (s_bci t) False)"
  using constructor_initializes_this [OF ex_init_verifier_ok ex_init_method_wf ex_init_accepted]
  by (auto simp: ex_init_verifier_sel ex_init_sel ex_b_def)

text \<open>
  C20. Exception handlers are checked with the frame that an instruction leaves, not with the one it starts from. The
  verifier accepts a method in which a handler covers the call of a constructor: in front of the call
  the local variable holds an uninitialized object, and this is what the handler finds when the constructor
  throws; the frame of the handler in the stack map has an initialized object in this variable.
\<close>

theorem handler_gets_uninitialized:
  "verify_method ex_try_verifier = Inr () \<and> (5, 8, 9, 0) \<in> set (mt_exception_table (v_method ex_try_verifier)) \<and>
   (\<exists>env st st'. verify_setup ex_try_verifier = Inr (env, st) \<and>
      rbind (verify_step ex_try_verifier env st) (\<lambda>st. rbind (verify_step ex_try_verifier env st)
        (verify_step ex_try_verifier env)) = Inr st' \<and>
      s_next_bci (vs_stream st') = 5 \<and> f_locals (vs_frame st') ! 0 = Uninitialized 0 \<and>
      (\<exists>g\<in>set (tb_frames (ve_table env)). f_offset g = 9 \<and> f_locals g ! 0 = Reference ''A'' \<and>
         is_assignable_from (v_resolve ex_try_verifier) (Reference ''A'') (Uninitialized 0) = Inr False))"
proof (intro conjI exI)
  show "verify_method ex_try_verifier = Inr ()" by (rule ex_try_accepted)
  show "(5, 8, 9, 0) \<in> set (mt_exception_table (v_method ex_try_verifier))" by (simp add: ex_try_verifier_sel ex_try_sel)
  show "verify_setup ex_try_verifier = Inr (ex_try_env, ex_try_st (ex_try_s 0 0 (- 1)) 0 False (ex_try_at 0 0 0 Bogus [Bogus, Bogus]))"
    by (simp add: ex_try_setup ex_try_st_def)
  show "rbind (verify_step ex_try_verifier ex_try_env (ex_try_st (ex_try_s 0 0 (- 1)) 0 False (ex_try_at 0 0 0 Bogus [Bogus, Bogus])))
      (\<lambda>st. rbind (verify_step ex_try_verifier ex_try_env st) (verify_step ex_try_verifier ex_try_env)) =
    Inr (ex_try_st (ex_try_s 4 5 75) 0 False (ex_try_at 4 1 1 (Uninitialized 0) [Uninitialized 0, Uninitialized 0]))"
    using ex_try_steps(1-3) by (simp del: One_nat_def)
  show "s_next_bci (vs_stream (ex_try_st (ex_try_s 4 5 75) 0 False (ex_try_at 4 1 1 (Uninitialized 0) [Uninitialized 0, Uninitialized 0]))) = 5"
    by (simp add: ex_try_st_def ex_try_s_def)
  show "f_locals (vs_frame (ex_try_st (ex_try_s 4 5 75) 0 False
      (ex_try_at 4 1 1 (Uninitialized 0) [Uninitialized 0, Uninitialized 0]))) ! 0 = Uninitialized 0"
    by (simp add: ex_try_st_def ex_try_at_def)
  show "\<exists>g\<in>set (tb_frames (ve_table ex_try_env)). f_offset g = 9 \<and> f_locals g ! 0 = Reference ''A'' \<and>
      is_assignable_from (v_resolve ex_try_verifier) (Reference ''A'') (Uninitialized 0) = Inr False"
    by (simp add: ex_try_env_def ex_try_table_def ex_try_at_def is_assignable_from.simps is_reference_def)
qed

text \<open>
  C22. The call of an initializer that does not exist. When the operand is the result of a \<^verbatim>\<open>new\<close> of the class of the method reference,
  this class is a superclass of the current one and the lookup from it finds no initializer of the descriptor, the source goes on to ask
  the null method for its holder, whatever the class, the descriptor and the rest of the frame are.
\<close>

theorem missing_init_unguarded:
  assumes "frame_ok ml ms f" and "0 < f_stack_size f"
    and "f_stack f ! (f_stack_size f - 1) = Uninitialized b" and "b \<noteq> BciForThis"
    and "new_class_at v b = Inr ref" and "name_in_supers (name_of ref) (v_klass v)"
    and "load_class v (name_of ref) = Inr k" and "signature_ref_at (v_cp v) index = Inr sig"
    and "uncached_lookup_method (v_addr v) k ''<init>'' sig = Inr None"
  shows "verify_invoke_init v index ref f = Inl (Unguarded ''verify_invoke_init: holder of a null method'')"
proof -
  have "pop_stack (v_resolve v) ReferenceQuery f = Inr (Uninitialized b, f\<lparr> f_stack_size := f_stack_size f - 1 \<rparr>)"
    using assms(1-3) by (auto simp: pop_stack_def is_assignable_from.simps arr_get_def frame_ok_def is_uninitialized_def)
  moreover have "check_protected_init v (name_of ref) index ref = Inl (Unguarded ''verify_invoke_init: holder of a null method'')"
    using assms(6-9) by (simp add: check_protected_init_def)
  ultimately show ?thesis
    using assms(4,5) by (simp add: verify_invoke_init_def eval_vm is_uninitialized_def bci_of_def)
qed

theorem missing_init_unguarded_witness:
  "verify_invoke_init (ex_try_verifier\<lparr> v_klass := ex_b \<rparr>) 5 (Reference ''A'')
     (ex_try_at 5 1 1 (Uninitialized 0) [Uninitialized 0, Uninitialized 0]) =
   Inl (Unguarded ''verify_invoke_init: holder of a null method'')"
proof -
  let ?v = "ex_try_verifier\<lparr> v_klass := ex_b \<rparr>"
  have "new_class_at ?v 0 = new_class_at ex_try_verifier 0" by (simp add: new_class_at_def Let_def cong: if_cong)
  then have n: "new_class_at ?v 0 = Inr (Reference ''A'')" by (simp only: ex_try_new_class)
  have f: "frame_ok 1 2 (ex_try_at 5 1 1 (Uninitialized 0) [Uninitialized 0, Uninitialized 0])"
    by (auto simp: frame_ok_def ex_try_at_def BciForThis_def paired_def slot_def nth_Cons split: nat.splits)
  show ?thesis
    by (rule missing_init_unguarded [OF f _ _ _ n, where k = ex_a and sig = "''()V''"])
      (simp_all add: ex_try_at_def BciForThis_def name_in_supers_def ex_b_def ex_a_def ex_object_def load_class_def
        ex_try_verifier_sel ex_resolve_def ex_try_ref find_method_def find_method_loop.simps cong: rbind_weak_cong)
qed

end
